(* ===== verification/Prelude.thy ===== *)
theory Prelude
  imports Main "HOL-Library.Word"
begin

text \<open>
  Shared vocabulary of the development: 64-bit machine integers with the saturating
  operations of the Rust standard library, and the lemmas on lists the components share.

  A \<open>u64\<close> (nanosecond timestamps, counters, random-number states) is a \<open>64 word\<close>;
  \<open>saturating_sub\<close>, \<open>saturating_add\<close> and \<open>saturating_mul\<close> clamp at \<open>0\<close> and at the
  largest word.  \<open>Vec::retain\<close> is \<open>filter\<close>, \<open>Vec::push\<close> appends one element,
  \<open>sort_by_key\<close> is the stable \<open>sort_key\<close>.
\<close>

type_synonym u64 = "64 word"
type_synonym u32 = "32 word"

named_theorems saturating "what the saturating operations compute, read as natural numbers"

definition sat_sub :: "u64 \<Rightarrow> u64 \<Rightarrow> u64" where
  "sat_sub a b = (if a \<le> b then 0 else a - b)"

definition sat_add :: "u64 \<Rightarrow> u64 \<Rightarrow> u64" where
  "sat_add a b = (if unat a + unat b < 2 ^ 64 then a + b else - 1)"

definition sat_mul :: "u64 \<Rightarrow> u64 \<Rightarrow> u64" where
  "sat_mul a b = (if unat a * unat b < 2 ^ 64 then a * b else - 1)"

lemma unat_u64_bound [simp, intro]: "unat (x :: u64) < 18446744073709551616"
  using unsigned_less [where 'b = 64 and w = x] by simp

lemma unat_u64_max [saturating]: "unat (- 1 :: u64) = 18446744073709551615"
  by (simp add: unsigned_minus_1_eq_mask mask_eq_exp_minus_1)

lemma unat_sat_sub [saturating]: "unat (sat_sub a b) = unat a - unat b"
  by (auto simp: sat_sub_def word_le_nat_alt unat_sub)

lemma unat_sat_add [saturating]: "unat (sat_add a b) = min (unat a + unat b) (2 ^ 64 - 1)"
  by (auto simp: sat_add_def unat_word_ariths unat_u64_max)

lemma unat_sat_mul [saturating]: "unat (sat_mul a b) = min (unat a * unat b) (2 ^ 64 - 1)"
  by (auto simp: sat_mul_def unat_word_ariths unat_u64_max)

lemma sat_add_mono: "a \<le> sat_add a b"
  by (simp add: word_le_nat_alt unat_sat_add min_def)
    (use unat_u64_bound [of a] in linarith)

lemma sat_add_strict: "0 < b \<Longrightarrow> a < - 1 \<Longrightarrow> a < sat_add a b"
proof -
  assume b: "0 < b" and a: "a < - 1"
  from b have "0 < unat b" by (simp add: unat_gt_0)
  moreover from a have "unat a < 18446744073709551615"
    by (simp add: word_less_nat_alt unat_u64_max)
  ultimately show "a < sat_add a b"
    by (simp add: word_less_nat_alt unat_sat_add min_def)
qed

subsection \<open>Lists\<close>

text \<open>\<open>first\<close> and \<open>last\<close> of a slice: \<open>None\<close> on the empty one.\<close>

fun first_opt :: "'a list \<Rightarrow> 'a option" where
  "first_opt [] = None"
| "first_opt (x # xs) = Some x"

fun last_opt :: "'a list \<Rightarrow> 'a option" where
  "last_opt [] = None"
| "last_opt [x] = Some x"
| "last_opt (x # xs) = last_opt xs"

text \<open>\<open>str::contains\<close>: the pattern occurs somewhere in the string.\<close>

fun contains_str :: "string \<Rightarrow> string \<Rightarrow> bool" where
  "contains_str pat [] \<longleftrightarrow> pat = []"
| "contains_str pat (c # cs) \<longleftrightarrow> take (length pat) (c # cs) = pat \<or> contains_str pat cs"

lemma first_opt_None [simp]: "first_opt xs = None \<longleftrightarrow> xs = []"
  by (cases xs) auto

lemma first_opt_Some: "first_opt xs = Some x \<longleftrightarrow> (\<exists>ys. xs = x # ys)"
  by (cases xs) auto

lemma set_dropWhile_subset: "set (dropWhile P xs) \<subseteq> set xs"
  by (auto dest: set_dropWhileD)

lemma sorted_key_dropWhile:
  "sorted (map f xs) \<Longrightarrow> sorted (map f (dropWhile P xs))"
  by (induction xs) auto

lemma sorted_key_filter:
  "sorted (map f xs) \<Longrightarrow> sorted (map f (filter P xs))"
  by (rule sorted_filter)

lemma sorted_takeWhile_le:
  assumes "sorted (map f xs)"
  shows "takeWhile (\<lambda>x. f x \<le> c) xs = filter (\<lambda>x. f x \<le> c) xs"
  using assms
proof (induction xs)
  case (Cons x xs)
  show ?case
  proof (cases "f x \<le> c")
    case True
    with Cons show ?thesis by simp
  next
    case False
    with Cons.prems have "\<forall>y \<in> set xs. \<not> f y \<le> c" by fastforce
    with False show ?thesis by simp
  qed
qed simp

subsection \<open>Two contracts\<close>

text \<open>
  \<open>call_invariant\<close>: an object whose calls \<open>step\<close> keep \<open>inv\<close>, as long as they satisfy their
  precondition \<open>ok\<close>; then so does any sequence of such calls.
\<close>

locale call_invariant =
  fixes step :: "'s \<Rightarrow> 'c \<Rightarrow> 's"
    and ok :: "'c \<Rightarrow> bool"
    and inv :: "'s \<Rightarrow> bool"
  assumes step_inv: "inv s \<Longrightarrow> ok c \<Longrightarrow> inv (step s c)"
begin

lemma run_inv: "inv s \<Longrightarrow> \<forall>c \<in> set cs. ok c \<Longrightarrow> inv (foldl step s cs)"
  by (induction cs arbitrary: s) (auto simp: step_inv)

lemma run_prefix_inv: "inv s \<Longrightarrow> \<forall>c \<in> set (cs @ ds). ok c \<Longrightarrow> inv (foldl step s cs)"
  by (rule run_inv) auto

end

text \<open>
  \<open>lazy_cache\<close>: a value computed from part of the state and kept until a flag says that the
  part has changed.  \<open>coherent\<close> is what an owner of the flag has to keep: the flag is raised
  or the cached value is current.
\<close>

locale lazy_cache =
  fixes compute :: "'s \<Rightarrow> 'v"
    and stale :: "'s \<Rightarrow> bool"
    and cached :: "'s \<Rightarrow> 'v"
    and refresh :: "'s \<Rightarrow> 's"
  assumes refresh_fresh: "\<not> stale s \<Longrightarrow> refresh s = s"
    and refresh_stale: "stale s \<Longrightarrow> cached (refresh s) = compute s"
    and compute_refresh: "compute (refresh s) = compute s"
begin

abbreviation coherent :: "'s \<Rightarrow> bool" where
  "coherent s \<equiv> \<not> stale s \<longrightarrow> cached s = compute s"

lemma read_exact: "coherent s \<Longrightarrow> cached (refresh s) = compute s"
  by (cases "stale s") (auto simp: refresh_fresh refresh_stale)

lemma coherent_refresh: "coherent s \<Longrightarrow> coherent (refresh s)"
  by (simp add: compute_refresh read_exact)

lemma coherent_stale: "stale s \<Longrightarrow> coherent s"
  by simp

lemma coherent_frame:
  "coherent s \<Longrightarrow> stale t = stale s \<Longrightarrow> cached t = cached s \<Longrightarrow> compute t = compute s \<Longrightarrow> coherent t"
  by simp

end

end
