(* ===== verification/Decimals.thy ===== *)
theory Decimals
  imports Prelude Complex_Main
begin

text \<open>
  The decimal arithmetic of the \<open>rust_decimal\<close> package and the floating-point functions
  of the standard library, as parameters of the model.

  A \<open>Decimal\<close> is read as its value, a rational number: sign, comparison, negation, absolute
  value, minimum, floor and ceiling of a \<open>Decimal\<close> are exact, so they are the operations of
  \<open>rat\<close>.  The operations that may round (\<open>+\<close>, \<open>-\<close>, \<open>*\<close>, \<open>/\<close>, \<open>round_dp\<close>) and the conversion
  from \<open>f64\<close> belong to the package; every definition that uses them takes a
  \<open>decimal_ops\<close> record \<open>D\<close>.  What the package documents of them is the locale
  \<open>decimal_arith\<close>: a result that fits the 96-bit mantissa at a scale of at most 28 digits is
  exact, any other result is correctly rounded (so that rounding is monotone), and \<open>round_dp\<close> rounds to the given number of
  digits, and rounding a result never moves it across an integer.  A \<open>Decimal\<close> operation that overflows, or divides by zero, panics; where the code
  can divide by zero the model says so, and overflow is outside the model (a run that
  overflows has no successor state).

  \<open>rust_decimal\<close> below is a reference instance: it rounds every exact result half-to-even to
  the largest scale that its mantissa allows.  It satisfies the laws, so does
  \<open>exact_decimal\<close>, the instance without any rounding that the examples evaluate.
\<close>

record decimal_ops =
  dadd :: "rat \<Rightarrow> rat \<Rightarrow> rat"
  dsub :: "rat \<Rightarrow> rat \<Rightarrow> rat"
  dmul :: "rat \<Rightarrow> rat \<Rightarrow> rat"
  ddiv :: "rat \<Rightarrow> rat \<Rightarrow> rat"
  round_dp :: "rat \<Rightarrow> nat \<Rightarrow> rat"
  from_f64 :: "rat \<Rightarrow> rat option"

text \<open>Finite \<open>f64\<close> values are rationals; the functions that round are parameters.\<close>

record float_ops =
  f_of_nat :: "nat \<Rightarrow> rat"
  f_mul :: "rat \<Rightarrow> rat \<Rightarrow> rat"
  f_div :: "rat \<Rightarrow> rat \<Rightarrow> rat"
  f_exp :: "rat \<Rightarrow> rat"
  f_ln :: "rat \<Rightarrow> rat"

subsection \<open>Representable values and half-to-even rounding\<close>

definition dec_floor :: "rat \<Rightarrow> rat" where
  "dec_floor x = of_int \<lfloor>x\<rfloor>"

definition dec_ceil :: "rat \<Rightarrow> rat" where
  "dec_ceil x = of_int \<lceil>x\<rceil>"

definition fits_at :: "nat \<Rightarrow> rat \<Rightarrow> bool" where
  "fits_at s x \<longleftrightarrow> x * 10 ^ s = of_int \<lfloor>x * 10 ^ s\<rfloor> \<and> \<bar>x * 10 ^ s\<bar> < 2 ^ 96"

definition fits :: "rat \<Rightarrow> bool" where
  "fits x \<longleftrightarrow> list_ex (\<lambda>s. fits_at s x) [0..<29]"

text \<open>\<open>on_grid n x\<close>: \<open>x\<close> has at most \<open>n\<close> digits after the point.\<close>

definition on_grid :: "nat \<Rightarrow> rat \<Rightarrow> bool" where
  "on_grid n x \<longleftrightarrow> x * 10 ^ n = of_int \<lfloor>x * 10 ^ n\<rfloor>"

definition half_even :: "rat \<Rightarrow> int" where
  "half_even x =
     (let f = \<lfloor>x\<rfloor>; r = x - of_int f
      in if r < 1 / 2 then f
         else if 1 / 2 < r then f + 1
         else if even f then f else f + 1)"

definition round_half_even :: "rat \<Rightarrow> nat \<Rightarrow> rat" where
  "round_half_even x n = of_int (half_even (x * 10 ^ n)) / 10 ^ n"

fun fit_scale :: "nat \<Rightarrow> rat \<Rightarrow> rat" where
  "fit_scale 0 x = round_half_even x 0"
| "fit_scale (Suc s) x =
     (if \<bar>half_even (x * 10 ^ Suc s)\<bar> < 2 ^ 96 then round_half_even x (Suc s)
      else fit_scale s x)"

definition dec_fit :: "rat \<Rightarrow> rat" where
  "dec_fit x = fit_scale 28 x"

definition rust_decimal :: decimal_ops where
  "rust_decimal = \<lparr>dadd = (\<lambda>a b. dec_fit (a + b)), dsub = (\<lambda>a b. dec_fit (a - b)),
     dmul = (\<lambda>a b. dec_fit (a * b)), ddiv = (\<lambda>a b. dec_fit (a / b)),
     round_dp = round_half_even, from_f64 = (\<lambda>x. Some (dec_fit x))\<rparr>"

definition exact_decimal :: decimal_ops where
  "exact_decimal = \<lparr>dadd = (+), dsub = (-), dmul = (*), ddiv = (/),
     round_dp = round_half_even, from_f64 = Some\<rparr>"

lemma div_mult_nonzero: "(b :: rat) \<noteq> 0 \<Longrightarrow> a / b * b = a"
  by simp

lemma fitsI: "fits_at s x \<Longrightarrow> s \<le> 28 \<Longrightarrow> fits x"
  by (auto simp: fits_def list_ex_iff intro!: bexI [of _ s])

lemma fitsE: "fits x \<Longrightarrow> (\<And>s. fits_at s x \<Longrightarrow> s \<le> 28 \<Longrightarrow> P) \<Longrightarrow> P"
  by (auto simp: fits_def list_ex_iff)

lemma fits_atI:
  "x * 10 ^ s = of_int k \<Longrightarrow> \<bar>k\<bar> < 2 ^ 96 \<Longrightarrow> fits_at s x"
  unfolding fits_at_def by (metis floor_of_int of_int_abs of_int_less_iff of_int_numeral of_int_power)

lemma fits_atE:
  assumes "fits_at s x"
  obtains k where "x * 10 ^ s = of_int k" "\<bar>k\<bar> < 2 ^ 96"
proof
  let ?k = "\<lfloor>x * 10 ^ s\<rfloor>"
  show k: "x * 10 ^ s = of_int ?k" using assms by (simp add: fits_at_def)
  have "\<bar>rat_of_int ?k\<bar> < 2 ^ 96" using assms k by (simp add: fits_at_def)
  then have "rat_of_int \<bar>?k\<bar> < rat_of_int (2 ^ 96)" by simp
  then show "\<bar>?k\<bar> < 2 ^ 96" by (simp only: of_int_less_iff)
qed

lemma fits_int: "\<bar>k\<bar> < 2 ^ 96 \<Longrightarrow> fits (of_int k)"
  by (rule fitsI [of 0]) (auto intro: fits_atI)

lemma fits_0 [simp]: "fits 0"
  using fits_int [of 0] by simp

lemma fits_minus [simp]: "fits (- x) = fits x"
proof -
  have at: "fits_at s (- x)" if "fits_at s x" for s and x :: rat
    using that unfolding fits_at_def
    by (metis abs_minus_cancel floor_of_int mult_minus_left of_int_minus)
  show ?thesis
    by (metis at add.inverse_inverse fitsE fitsI)
qed

lemma on_gridI: "x * 10 ^ n = of_int k \<Longrightarrow> on_grid n x"
  by (simp add: on_grid_def)

lemma on_gridE: "on_grid n x \<Longrightarrow> (\<And>k. x = of_int k / 10 ^ n \<Longrightarrow> P) \<Longrightarrow> P"
  by (metis on_grid_def nonzero_eq_divide_eq power_not_zero zero_neq_numeral)

lemma on_grid_of_int_div [simp, intro]: "on_grid n (of_int k / 10 ^ n)"
  by (simp add: on_grid_def)

lemma on_grid_0 [simp, intro]: "on_grid n 0"
  by (simp add: on_grid_def)

lemma on_grid_minus [simp]: "on_grid n (- x) = on_grid n x"
  by (metis add.inverse_inverse minus_divide_left of_int_minus on_gridE on_grid_of_int_div)

lemma on_grid_abs [simp]: "on_grid n \<bar>x\<bar> = on_grid n x"
  by (cases "0 \<le> x") auto

lemma on_grid_add [intro]: "on_grid n x \<Longrightarrow> on_grid n y \<Longrightarrow> on_grid n (x + y)"
  by (metis add_divide_distrib of_int_add on_gridE on_grid_of_int_div)

lemma on_grid_diff [intro]: "on_grid n x \<Longrightarrow> on_grid n y \<Longrightarrow> on_grid n (x - y)"
  by (metis diff_divide_distrib of_int_diff on_gridE on_grid_of_int_div)

lemma on_grid_min [intro]: "on_grid n x \<Longrightarrow> on_grid n y \<Longrightarrow> on_grid n (min x y)"
  by (simp add: min_def)

lemma on_grid_int_mult [intro]: "on_grid n x \<Longrightarrow> on_grid n (of_int k * x)"
  by (metis of_int_mult on_gridE on_grid_of_int_div times_divide_eq_right)

lemma on_grid_mult: "on_grid m x \<Longrightarrow> on_grid n y \<Longrightarrow> on_grid (m + n) (x * y)"
proof (elim on_gridE)
  fix j k assume "x = rat_of_int j / 10 ^ m" "y = rat_of_int k / 10 ^ n"
  then have "x * y = of_int (j * k) / 10 ^ (m + n)" by (simp add: power_add)
  then show "on_grid (m + n) (x * y)" by (metis on_grid_of_int_div)
qed

text \<open>The bound under which a value of the \<open>n\<close>-digit grid is representable.\<close>

lemma fits_grid:
  assumes "on_grid n x" "n \<le> 28" "\<bar>x\<bar> * 10 ^ n < 2 ^ 96"
  shows "fits x"
  using assms
  by (intro fitsI [of n]) (auto simp: fits_at_def on_grid_def abs_mult)

subsection \<open>Half-to-even rounding\<close>

lemma half_even_near: "\<bar>of_int (half_even x) - x\<bar> \<le> 1 / 2"
  using of_int_floor_le [of x] floor_correct [of x]
  unfolding half_even_def Let_def by (simp add: abs_if split: if_split) linarith

lemma half_even_of_int [simp]: "half_even (of_int k) = k"
  by (simp add: half_even_def)

lemma half_even_floor: "half_even x = \<lfloor>x\<rfloor> \<or> half_even x = \<lfloor>x\<rfloor> + 1"
  by (auto simp: half_even_def Let_def)

lemma half_even_mono:
  assumes "x \<le> y" shows "half_even x \<le> half_even y"
proof (cases "\<lfloor>x\<rfloor> = \<lfloor>y\<rfloor>")
  case True
  with assms show ?thesis by (auto simp: half_even_def Let_def)
next
  case False
  with floor_mono [OF assms] have "\<lfloor>x\<rfloor> + 1 \<le> \<lfloor>y\<rfloor>" by linarith
  with half_even_floor [of x] half_even_floor [of y] show ?thesis by linarith
qed

lemma half_even_nonneg: "0 \<le> x \<Longrightarrow> 0 \<le> half_even x"
  using half_even_mono [of 0 x] half_even_of_int [of 0] by simp

lemma half_even_nonpos: "x \<le> 0 \<Longrightarrow> half_even x \<le> 0"
  using half_even_mono [of x 0] half_even_of_int [of 0] by simp

lemma half_even_minus: "half_even (- x) = - half_even x"
proof (cases "x = of_int \<lfloor>x\<rfloor>")
  case True
  then show ?thesis by (metis half_even_of_int of_int_minus)
next
  case False
  then have "of_int \<lfloor>x\<rfloor> < x" using of_int_floor_le [of x] by linarith
  then have f: "\<lfloor>- x\<rfloor> = - \<lfloor>x\<rfloor> - 1"
    using floor_correct [of x] by (intro floor_unique) auto
  have eo: "even (- \<lfloor>x\<rfloor> - 1) = odd \<lfloor>x\<rfloor>" by simp
  show ?thesis unfolding half_even_def Let_def f eo by auto
qed

lemma round_half_even_grid [simp, intro]: "on_grid n (round_half_even x n)"
  by (simp add: round_half_even_def)

lemma round_half_even_id: "on_grid n x \<Longrightarrow> round_half_even x n = x"
  by (metis half_even_of_int nonzero_eq_divide_eq on_grid_def power_not_zero
      round_half_even_def zero_neq_numeral)

lemma round_half_even_near: "\<bar>round_half_even x n - x\<bar> \<le> 1 / (2 * 10 ^ n)"
proof -
  have "\<bar>of_int (half_even (x * 10 ^ n)) - x * 10 ^ n\<bar> / 10 ^ n \<le> (1 / 2) / 10 ^ n"
    by (rule divide_right_mono [OF half_even_near]) simp
  moreover have "round_half_even x n - x
      = (of_int (half_even (x * 10 ^ n)) - x * 10 ^ n) / 10 ^ n"
    by (simp add: round_half_even_def diff_divide_distrib)
  ultimately show ?thesis by simp
qed

lemma round_half_even_mono: "x \<le> y \<Longrightarrow> round_half_even x n \<le> round_half_even y n"
  unfolding round_half_even_def
  by (intro divide_right_mono) (auto intro: half_even_mono mult_right_mono)

lemma round_half_even_minus: "round_half_even (- x) n = - round_half_even x n"
  by (simp add: round_half_even_def half_even_minus)

lemma fits_at_round: "fits_at s x \<Longrightarrow> round_half_even x s = x"
  by (rule round_half_even_id) (simp add: fits_at_def on_grid_def)

lemma fits_at_scale:
  assumes "fits_at s x" "s \<le> t"
  shows "round_half_even x t = x"
proof (rule round_half_even_id, rule on_gridI)
  have "x * 10 ^ t = x * 10 ^ s * 10 ^ (t - s)"
    using assms(2) by (simp flip: power_add)
  also have "\<dots> = of_int (\<lfloor>x * 10 ^ s\<rfloor> * 10 ^ (t - s))"
    using assms(1) by (simp add: fits_at_def)
  finally show "x * 10 ^ t = of_int (\<lfloor>x * 10 ^ s\<rfloor> * 10 ^ (t - s))" .
qed

lemma fit_scale_exact: "fits_at s x \<Longrightarrow> s \<le> t \<Longrightarrow> fit_scale t x = x"
proof (induction t)
  case 0
  then show ?case by (simp add: fits_at_round)
next
  case (Suc t)
  show ?case
  proof (cases "s = Suc t")
    case True
    then obtain k where "x * 10 ^ Suc t = of_int k" "\<bar>k\<bar> < 2 ^ 96"
      using Suc.prems(1) by (auto elim: fits_atE)
    then have "\<bar>half_even (x * 10 ^ Suc t)\<bar> < 2 ^ 96"
      by (simp only: half_even_of_int)
    moreover have "round_half_even x (Suc t) = x"
      using Suc.prems(1) True by (auto intro: fits_at_round)
    ultimately show ?thesis by (simp del: power_Suc)
  next
    case False
    then have "s \<le> t" using Suc.prems(2) by simp
    moreover from fits_at_scale [OF Suc.prems(1) Suc.prems(2)]
    have "round_half_even x (Suc t) = x" .
    ultimately show ?thesis using Suc by (simp del: power_Suc)
  qed
qed

lemma dec_fit_exact: "fits x \<Longrightarrow> dec_fit x = x"
  by (auto simp: dec_fit_def elim!: fitsE intro: fit_scale_exact)

lemma fit_scale_sign:
  "0 \<le> x \<Longrightarrow> 0 \<le> fit_scale s x" "x \<le> 0 \<Longrightarrow> fit_scale s x \<le> 0"
  by (induction s)
    (auto simp: round_half_even_def half_even_nonneg half_even_nonpos
      divide_nonpos_pos mult_nonpos_nonneg)

lemma fit_scale_near:
  "\<bar>x\<bar> * 10 ^ s \<le> 2 ^ 95 \<Longrightarrow> s \<le> t \<Longrightarrow> \<bar>fit_scale t x - x\<bar> \<le> 1 / (2 * 10 ^ s)"
proof (induction t)
  case 0
  then show ?case using round_half_even_near [of x 0] by simp
next
  case (Suc t)
  show ?case
  proof (cases "\<bar>half_even (x * 10 ^ Suc t)\<bar> < 2 ^ 96")
    case True
    have "(1 :: rat) / (2 * 10 ^ Suc t) \<le> 1 / (2 * 10 ^ s)"
      using Suc.prems(2) by (intro divide_left_mono mult_left_mono power_increasing) auto
    with round_half_even_near [of x "Suc t"] True show ?thesis by (simp del: power_Suc)
  next
    case False
    have "s \<noteq> Suc t"
    proof
      assume st: "s = Suc t"
      have "\<bar>x * 10 ^ s\<bar> \<le> 2 ^ 95" using Suc.prems(1) by (simp add: abs_mult)
      then have "\<bar>rat_of_int (half_even (x * 10 ^ s))\<bar> \<le> 2 ^ 95 + 1"
        using half_even_near [of "x * 10 ^ s"] by linarith
      then have "rat_of_int \<bar>half_even (x * 10 ^ s)\<bar> \<le> rat_of_int (2 ^ 95 + 1)"
        by simp
      then have "\<bar>half_even (x * 10 ^ s)\<bar> \<le> 2 ^ 95 + 1"
        by (simp only: of_int_le_iff)
      with False st show False by simp
    qed
    with Suc False show ?thesis by (simp del: power_Suc)
  qed
qed

lemma dec_fit_sign: "0 \<le> x \<Longrightarrow> 0 \<le> dec_fit x" "x \<le> 0 \<Longrightarrow> dec_fit x \<le> 0"
  by (simp_all add: dec_fit_def fit_scale_sign)

lemma fit_scale_int:
  "of_int k \<le> x \<Longrightarrow> of_int k \<le> fit_scale s x" "x \<le> of_int k \<Longrightarrow> fit_scale s x \<le> of_int k"
proof -
  have k: "round_half_even (of_int k) t = of_int k" for t
    by (rule round_half_even_id, rule on_gridI [of _ _ "k * 10 ^ t"]) simp
  show "of_int k \<le> x \<Longrightarrow> of_int k \<le> fit_scale s x"
    by (induction s) (auto simp del: power_Suc simp: round_half_even_mono [of "of_int k" x, unfolded k])
  show "x \<le> of_int k \<Longrightarrow> fit_scale s x \<le> of_int k"
    by (induction s) (auto simp del: power_Suc simp: round_half_even_mono [of x "of_int k", unfolded k])
qed

lemma dec_fit_int: "of_int k \<le> x \<Longrightarrow> of_int k \<le> dec_fit x" "x \<le> of_int k \<Longrightarrow> dec_fit x \<le> of_int k"
  by (simp_all add: dec_fit_def fit_scale_int)

text \<open>Rounding to the largest scale that fits is monotone, across scales.\<close>

lemma fit_scale_at:
  "\<exists>t \<le> s. fit_scale s x = round_half_even x t
     \<and> (t = s \<or> 2 ^ 96 \<le> \<bar>half_even (x * 10 ^ Suc t)\<bar>)
     \<and> (t = 0 \<or> \<bar>half_even (x * 10 ^ t)\<bar> < 2 ^ 96)"
proof (induction s)
  case (Suc s)
  show ?case
  proof (cases "\<bar>half_even (x * 10 ^ Suc s)\<bar> < 2 ^ 96")
    case True
    then show ?thesis by (intro exI [of _ "Suc s"]) (simp del: power_Suc)
  next
    case False
    from Suc obtain t where "t \<le> s" "fit_scale s x = round_half_even x t"
      "t = s \<or> 2 ^ 96 \<le> \<bar>half_even (x * 10 ^ Suc t)\<bar>" "t = 0 \<or> \<bar>half_even (x * 10 ^ t)\<bar> < 2 ^ 96"
      by blast
    with False show ?thesis by (intro exI [of _ t]) (auto simp del: power_Suc)
  qed
qed (auto intro: exI [of _ 0])

lemma full_mantissa_tail:
  assumes "2 ^ 96 \<le> half_even (y * 10)"
  shows "(2 ^ 96 - 1) / 10 \<le> rat_of_int (half_even y)"
proof -
  have "\<bar>of_int (half_even (y * 10)) - y * 10\<bar> \<le> 1 / 2" by (rule half_even_near)
  moreover have "rat_of_int (2 ^ 96) \<le> of_int (half_even (y * 10))"
    using assms by (simp only: of_int_le_iff)
  ultimately have "(2 ^ 96 - 1 / 2) / 10 \<le> y" by (simp add: abs_if split: if_splits)
  then have "half_even ((2 ^ 96 - 1 / 2) / 10) \<le> half_even y" by (rule half_even_mono)
  moreover have "half_even ((2 ^ 96 - 1 / 2) / 10) = 7922816251426433759354395034"
  proof -
    have "\<lfloor>(2 ^ 96 - 1 / 2 :: rat) / 10\<rfloor> = 7922816251426433759354395033"
      by (simp add: floor_eq_iff)
    then show ?thesis unfolding half_even_def Let_def by simp
  qed
  ultimately have "rat_of_int 7922816251426433759354395034 \<le> of_int (half_even y)"
    by (simp only: of_int_le_iff)
  then show ?thesis by simp
qed

lemma fit_scale_mono_nonneg:
  assumes "0 \<le> x" "x \<le> y"
  shows "fit_scale s x \<le> fit_scale s y"
proof -
  from fit_scale_at [of s x] obtain t where t: "t \<le> s" "fit_scale s x = round_half_even x t"
    "t = s \<or> 2 ^ 96 \<le> \<bar>half_even (x * 10 ^ Suc t)\<bar>" "t = 0 \<or> \<bar>half_even (x * 10 ^ t)\<bar> < 2 ^ 96"
    by blast
  from fit_scale_at [of s y] obtain u where u: "u \<le> s" "fit_scale s y = round_half_even y u"
    "u = s \<or> 2 ^ 96 \<le> \<bar>half_even (y * 10 ^ Suc u)\<bar>" "u = 0 \<or> \<bar>half_even (y * 10 ^ u)\<bar> < 2 ^ 96"
    by blast
  have nn: "0 \<le> half_even (x * 10 ^ n)" "0 \<le> half_even (y * 10 ^ n)" for n
    using assms by (auto intro!: half_even_nonneg)
  consider "t = u" | "t < u" | "u < t" by linarith
  then show ?thesis
  proof cases
    case 1
    with t u assms show ?thesis by (simp add: round_half_even_mono)
  next
    case 2
    then have "x * 10 ^ Suc t \<le> y * 10 ^ u"
      using assms by (intro mult_mono power_increasing) auto
    then have "half_even (x * 10 ^ Suc t) \<le> half_even (y * 10 ^ u)" by (rule half_even_mono)
    with 2 t u nn [of "Suc t"] nn [of u] show ?thesis by (simp del: power_Suc)
  next
    case 3
    with t u have "2 ^ 96 \<le> half_even (y * 10 ^ u * 10)" "half_even (x * 10 ^ t) \<le> 2 ^ 96 - 1"
      using nn(2) [of "Suc u"] nn(1) [of t] by (auto simp: mult_ac)
    then have tail: "(2 ^ 96 - 1) / 10 \<le> rat_of_int (half_even (y * 10 ^ u))"
      and top: "rat_of_int (half_even (x * 10 ^ t)) \<le> rat_of_int (2 ^ 96 - 1)"
      by (auto intro: full_mantissa_tail simp only: of_int_le_iff)
    have "round_half_even x t \<le> (2 ^ 96 - 1) / 10 ^ t"
      unfolding round_half_even_def using top by (intro divide_right_mono) auto
    also have "\<dots> \<le> (2 ^ 96 - 1) / 10 ^ Suc u"
      using 3 by (intro divide_left_mono power_increasing mult_pos_pos) auto
    also have "\<dots> = (2 ^ 96 - 1) / 10 / 10 ^ u" by simp
    also have "\<dots> \<le> round_half_even y u"
      unfolding round_half_even_def using tail by (intro divide_right_mono) auto
    finally show ?thesis by (simp add: t u)
  qed
qed

lemma fit_scale_minus: "fit_scale s (- x) = - fit_scale s x"
  by (induction s) (auto simp: round_half_even_minus half_even_minus)

lemma dec_fit_mono: "x \<le> y \<Longrightarrow> dec_fit x \<le> dec_fit y"
  using fit_scale_mono_nonneg [of x y 28] fit_scale_mono_nonneg [of "- y" "- x" 28]
    dec_fit_sign(2) [of x] dec_fit_sign(1) [of y]
  by (cases "0 \<le> x"; cases "y \<le> 0") (auto simp: dec_fit_def fit_scale_minus)

lemma dec_fit_near: "\<bar>x\<bar> \<le> 10 ^ 18 \<Longrightarrow> \<bar>dec_fit x - x\<bar> \<le> 1 / (2 * 10 ^ 10)"
  unfolding dec_fit_def by (rule fit_scale_near) auto

subsection \<open>The documented laws of the package\<close>

locale decimal_arith =
  fixes D :: decimal_ops
  assumes add_fits: "fits (a + b) \<Longrightarrow> dadd D a b = a + b"
    and sub_fits: "fits (a - b) \<Longrightarrow> dsub D a b = a - b"
    and mul_fits: "fits (a * b) \<Longrightarrow> dmul D a b = a * b"
    and div_fits: "b \<noteq> 0 \<Longrightarrow> fits (a / b) \<Longrightarrow> ddiv D a b = a / b"
    and add_nonneg: "0 \<le> a + b \<Longrightarrow> 0 \<le> dadd D a b"
    and sub_nonneg: "0 \<le> a - b \<Longrightarrow> 0 \<le> dsub D a b"
    and mul_nonneg: "0 \<le> a * b \<Longrightarrow> 0 \<le> dmul D a b"
    and mul_nonpos: "a * b \<le> 0 \<Longrightarrow> dmul D a b \<le> 0"
    and div_nonneg: "0 \<le> a / b \<Longrightarrow> 0 \<le> ddiv D a b"
    and div_nonpos: "a / b \<le> 0 \<Longrightarrow> ddiv D a b \<le> 0"
    and mul_near: "\<bar>a * b\<bar> \<le> 10 ^ 18 \<Longrightarrow> \<bar>dmul D a b - a * b\<bar> \<le> 1 / (2 * 10 ^ 10)"
    and div_near: "b \<noteq> 0 \<Longrightarrow> \<bar>a / b\<bar> \<le> 10 ^ 18 \<Longrightarrow> \<bar>ddiv D a b - a / b\<bar> \<le> 1 / (2 * 10 ^ 10)"
    and dadd_mono: "a + b \<le> c + d \<Longrightarrow> dadd D a b \<le> dadd D c d"
    and dsub_mono: "a - b \<le> c - d \<Longrightarrow> dsub D a b \<le> dsub D c d"
    and dmul_mono: "a * b \<le> c * d \<Longrightarrow> dmul D a b \<le> dmul D c d"
    and ddiv_mono: "a / b \<le> c / d \<Longrightarrow> ddiv D a b \<le> ddiv D c d"
    and add_int_le: "of_int k \<le> a + b \<Longrightarrow> of_int k \<le> dadd D a b"
    and add_int_ge: "a + b \<le> of_int k \<Longrightarrow> dadd D a b \<le> of_int k"
    and sub_int_le: "of_int k \<le> a - b \<Longrightarrow> of_int k \<le> dsub D a b"
    and sub_int_ge: "a - b \<le> of_int k \<Longrightarrow> dsub D a b \<le> of_int k"
    and mul_int_le: "of_int k \<le> a * b \<Longrightarrow> of_int k \<le> dmul D a b"
    and mul_int_ge: "a * b \<le> of_int k \<Longrightarrow> dmul D a b \<le> of_int k"
    and div_int_le: "of_int k \<le> a / b \<Longrightarrow> of_int k \<le> ddiv D a b"
    and div_int_ge: "a / b \<le> of_int k \<Longrightarrow> ddiv D a b \<le> of_int k"
    and round_grid: "on_grid n (round_dp D x n)"
    and round_near: "\<bar>round_dp D x n - x\<bar> \<le> 1 / (2 * 10 ^ n)"
    and round_mono: "x \<le> y \<Longrightarrow> round_dp D x n \<le> round_dp D y n"
    and round_id: "on_grid n x \<Longrightarrow> round_dp D x n = x"
begin

lemma round_idem: "round_dp D (round_dp D x n) n = round_dp D x n"
  by (rule round_id [OF round_grid])

lemma round_nonneg: "0 \<le> x \<Longrightarrow> 0 \<le> round_dp D x n"
  using round_mono [of 0 x n] round_id [of n 0] by simp

lemma round_nonpos: "x \<le> 0 \<Longrightarrow> round_dp D x n \<le> 0"
  using round_mono [of x 0 n] round_id [of n 0] by simp

lemma mul_0: "dmul D 0 x = 0" "dmul D x 0 = 0"
  using mul_fits [of 0 x] mul_fits [of x 0] by simp_all

lemma add_0: "fits x \<Longrightarrow> dadd D 0 x = x" "fits x \<Longrightarrow> dadd D x 0 = x"
  using add_fits [of 0 x] add_fits [of x 0] by simp_all

lemmas nonneg = add_nonneg sub_nonneg mul_nonneg div_nonneg round_nonneg

end

interpretation rust: decimal_arith rust_decimal
  by unfold_locales
    (simp_all only: rust_decimal_def decimal_ops.simps dec_fit_exact dec_fit_sign dec_fit_int dec_fit_mono dec_fit_near
      round_half_even_near round_half_even_mono round_half_even_id round_half_even_grid
      simp_thms)

interpretation exact: decimal_arith exact_decimal
  by unfold_locales
    (auto simp: exact_decimal_def round_half_even_near round_half_even_mono round_half_even_id)

lemma exact_decimal_simps [simp]:
  "dadd exact_decimal a b = a + b" "dsub exact_decimal a b = a - b"
  "dmul exact_decimal a b = a * b" "ddiv exact_decimal a b = a / b"
  "round_dp exact_decimal a n = round_half_even a n" "from_f64 exact_decimal a = Some a"
  by (simp_all add: exact_decimal_def)

text \<open>Integers lie on every grid, which lets the simplifier evaluate concrete roundings.\<close>

lemma on_grid_int [simp]: "on_grid n (of_int k)"
  by (rule on_gridI [of _ _ "k * 10 ^ n"]) simp

lemma on_grid_numeral [simp]: "on_grid n (numeral k)" "on_grid n (- numeral k)" "on_grid n 1"
    "on_grid n (- 1)"
  using on_grid_int [of n "numeral k"] on_grid_int [of n "- numeral k"] on_grid_int [of n 1]
    on_grid_int [of n "- 1"] by simp_all

lemma round_half_even_numeral [simp]:
  "round_half_even (numeral k) n = numeral k" "round_half_even (- numeral k) n = - numeral k"
  "round_half_even 0 n = 0" "round_half_even 1 n = 1" "round_half_even (- 1) n = - 1"
  by (simp_all add: round_half_even_id)

subsection \<open>Amounts\<close>

text \<open>
  An amount (an order size, a queue, a traded volume) with at most \<open>n\<close> digits after the
  point that the mantissa can hold at that scale: differences of amounts are exact.
\<close>

definition amount :: "nat \<Rightarrow> rat \<Rightarrow> bool" where
  "amount n x \<longleftrightarrow> n \<le> 28 \<and> on_grid n x \<and> 0 \<le> x \<and> x * 10 ^ n < 2 ^ 96"

lemma amount_nonneg: "amount n x \<Longrightarrow> 0 \<le> x"
  by (simp add: amount_def)

lemma amount_0 [simp]: "amount n x \<Longrightarrow> amount n 0"
  by (simp add: amount_def)

lemma amount_min [intro]: "amount n x \<Longrightarrow> amount n y \<Longrightarrow> amount n (min x y)"
  by (simp add: min_def)

lemma amount_le: "amount n x \<Longrightarrow> on_grid n y \<Longrightarrow> 0 \<le> y \<Longrightarrow> y \<le> x \<Longrightarrow> amount n y"
  unfolding amount_def by (meson le_less_trans mult_right_mono zero_le_power zero_le_numeral)

lemma amount_diff: "amount n x \<Longrightarrow> amount n y \<Longrightarrow> y \<le> x \<Longrightarrow> amount n (x - y)"
  by (rule amount_le [of n x]) (auto simp: amount_def)

lemma amount_fits: "amount n x \<Longrightarrow> fits x"
  by (rule fits_grid [of n]) (auto simp: amount_def)

context decimal_arith
begin

lemma sub_amount: "amount n x \<Longrightarrow> amount n y \<Longrightarrow> y \<le> x \<Longrightarrow> dsub D x y = x - y"
  by (rule sub_fits) (rule amount_fits [OF amount_diff])

lemma add_amount: "amount n (x + y) \<Longrightarrow> dadd D x y = x + y"
  by (rule add_fits) (rule amount_fits)

end

end
