(* ===== verification/Core.thy ===== *)
theory Core
  imports Decimals
begin

text \<open>
  The vocabulary types of \<open>crates/tikr-core/src/lib.rs\<close> and \<open>crates/tikr-venue/src/lib.rs\<close>.
  The newtypes over \<open>Decimal\<close> are synonyms of its values, so their \<open>Add\<close>, \<open>Sub\<close> and \<open>Mul\<close>
  instances are the \<open>decimal_ops\<close> of the parameter; records prefix the source's field names
  with the initials of the struct.  A \<open>QuoteId\<close> wraps a UUID, a \<open>128 word\<close>, whose nil is \<open>0\<close>.
\<close>

type_synonym timestamp = u64
type_synonym price = rat
type_synonym qsize = rat
type_synonym signed_size = rat
type_synonym notional = rat
type_synonym asset = string
type_synonym venue_id = string
type_synonym quote_id = "128 word"

datatype side = Bid | Ask

datatype market_kind = Spot | Perp

definition market_kind_display :: "market_kind \<Rightarrow> string" where
  "market_kind_display k = (case k of Spot \<Rightarrow> ''spot'' | Perp \<Rightarrow> ''perp'')"

record symbol =
  sy_base :: asset
  sy_quote :: asset
  sy_venue :: venue_id
  sy_kind :: market_kind

datatype time_in_force = PostOnly | GTC | IOC | FOK

datatype quote_kind = Point | Range (width_bps: u32)

definition quote_id_nil :: quote_id where
  "quote_id_nil = 0"

record level =
  lv_price :: price
  lv_size :: qsize

record snapshot =
  sn_symbol :: symbol
  sn_bids :: "level list"
  sn_asks :: "level list"
  sn_ts :: timestamp

record fill =
  f_quote_id :: quote_id
  f_price :: price
  f_size :: qsize
  f_fee_asset :: asset
  f_fee_amount :: rat
  f_fee_quote :: notional
  f_side :: side
  f_ts :: timestamp
  f_is_full :: bool
  f_trade_id :: "u64 option"

record liq_event =
  le_ts :: timestamp
  le_side :: side
  le_qty :: qsize
  le_price :: price
  le_notional :: notional

record position =
  p_symbol :: symbol
  p_size :: signed_size
  p_avg_entry :: price
  p_realized_pnl :: notional

datatype market_event =
  BookUpdate snapshot
| Trade symbol price qsize side timestamp
| FillEv fill
| Heartbeat timestamp

text \<open>The time stamp of an event, \<open>event_ts\<close> of both runners.\<close>

fun event_ts :: "market_event \<Rightarrow> timestamp" where
  "event_ts (BookUpdate sn) = sn_ts sn"
| "event_ts (Trade sy p q sd ts) = ts"
| "event_ts (FillEv f) = f_ts f"
| "event_ts (Heartbeat ts) = ts"

text \<open>Quoting intents and resting orders, from the venue crate.\<close>

record quote_intent =
  qi_symbol :: symbol
  qi_side :: side
  qi_price :: price
  qi_size :: qsize
  qi_tif :: time_in_force
  qi_kind :: quote_kind

record open_order =
  oo_id :: quote_id
  oo_symbol :: symbol
  oo_side :: side
  oo_price :: price
  oo_size :: qsize

datatype venue_error =
  Network string
| RateLimited (retry_after_ms: u64)
| InsufficientBalance (ib_need: qsize) (ib_have: qsize)
| UnknownQuote
| Rejected (rejected_reason: string)
| Internal string

instantiation side :: enum
begin

definition enum_side :: "side list" where
  "enum_side = [Bid, Ask]"

definition enum_all_side :: "(side \<Rightarrow> bool) \<Rightarrow> bool" where
  "enum_all_side P \<longleftrightarrow> P Bid \<and> P Ask"

definition enum_ex_side :: "(side \<Rightarrow> bool) \<Rightarrow> bool" where
  "enum_ex_side P \<longleftrightarrow> P Bid \<or> P Ask"

instance
proof
  show univ: "(UNIV :: side set) = set enum_class.enum"
    by (auto simp: enum_side_def intro: side.exhaust)
  show "distinct (enum_class.enum :: side list)"
    by (simp add: enum_side_def)
  fix P :: "side \<Rightarrow> bool"
  have all_sides: "(UNIV :: side set) = {Bid, Ask}"
    using univ by (simp add: enum_side_def)
  show "enum_class.enum_all P \<longleftrightarrow> Ball UNIV P" "enum_class.enum_ex P \<longleftrightarrow> Bex UNIV P"
    by (simp_all add: enum_all_side_def enum_ex_side_def all_sides)
qed

end

lemma side_neq [simp]: "s \<noteq> Bid \<longleftrightarrow> s = Ask" "s \<noteq> Ask \<longleftrightarrow> s = Bid"
  by (cases s; simp)+

text \<open>The position delta of a fill, \<open>side_delta\<close> of the accounting crate.\<close>

definition side_delta :: "side \<Rightarrow> qsize \<Rightarrow> rat" where
  "side_delta s q = (case s of Bid \<Rightarrow> q | Ask \<Rightarrow> - q)"

lemma side_delta_simps [simp]: "side_delta Bid q = q" "side_delta Ask q = - q"
  by (simp_all add: side_delta_def)

lemma side_delta_0 [simp]: "side_delta s 0 = 0"
  by (cases s) simp_all

lemma abs_side_delta [simp]: "\<bar>side_delta s q\<bar> = \<bar>q\<bar>"
  by (cases s) simp_all

lemma on_grid_side_delta [simp]: "on_grid n (side_delta s q) = on_grid n q"
  by (cases s) simp_all

lemma side_delta_zero [simp]: "side_delta s q = 0 \<longleftrightarrow> q = 0"
  by (cases s) simp_all

end
