(* ===== verification/Pnl.thy ===== *)
theory Pnl
  imports Core
begin

text \<open>
  Position and profit accounting, \<open>crates/tikr-backtest/src/pnl.rs\<close>: \<open>PositionTracker\<close>
  keeps a net size, a weighted-average entry price, realised profit, fees and funding, and
  \<open>apply\<close> folds one fill into it.  The lemmas show what each of its four cases does and,
  under magnitude bounds that keep every intermediate result representable, that no value
  is created or lost but for the rounding to eight digits.
\<close>

definition dec_sign :: "rat \<Rightarrow> rat" where
  "dec_sign d = (if d = 0 then 0 else if d < 0 then - 1 else 1)"

definition state_dp :: nat where
  "state_dp = 8"

record position_tracker =
  tr_symbol :: symbol
  tr_size :: signed_size
  tr_avg_entry :: price
  tr_realized_pnl :: notional
  tr_fees_paid :: notional
  tr_funding_accrued :: notional

record pnl_report =
  pr_realized :: notional
  pr_unrealized :: notional
  pr_fees :: notional
  pr_funding :: notional
  pr_net :: notional

definition tracker_new :: "symbol \<Rightarrow> position_tracker" where
  "tracker_new sy = \<lparr>tr_symbol = sy, tr_size = 0, tr_avg_entry = 0, tr_realized_pnl = 0,
     tr_fees_paid = 0, tr_funding_accrued = 0\<rparr>"

definition tracker_from_snapshot ::
    "symbol \<Rightarrow> position \<Rightarrow> notional \<Rightarrow> notional \<Rightarrow> notional \<Rightarrow> position_tracker" where
  "tracker_from_snapshot sy pos realized fees funding =
     \<lparr>tr_symbol = sy, tr_size = p_size pos, tr_avg_entry = p_avg_entry pos,
      tr_realized_pnl = realized, tr_fees_paid = fees, tr_funding_accrued = funding\<rparr>"

definition accrue_funding :: "decimal_ops \<Rightarrow> position_tracker \<Rightarrow> rat \<Rightarrow> position_tracker" where
  "accrue_funding D t funding =
     t\<lparr>tr_funding_accrued := dadd D (tr_funding_accrued t) funding\<rparr>"

text \<open>
  \<open>apply\<close>: fees first, then the four cases of the size update (open, add, reduce, flip).
\<close>

definition realized_delta :: "decimal_ops \<Rightarrow> rat \<Rightarrow> rat \<Rightarrow> rat \<Rightarrow> rat \<Rightarrow> rat" where
  "realized_delta D cl fp entry cur_sign =
     round_dp D (dmul D (dmul D cl (dsub D fp entry)) cur_sign) state_dp"

definition wacc_entry :: "decimal_ops \<Rightarrow> rat \<Rightarrow> rat \<Rightarrow> rat \<Rightarrow> rat \<Rightarrow> rat \<Rightarrow> rat" where
  "wacc_entry D cur entry delta fp new_size =
     round_dp D (ddiv D (dadd D (dmul D \<bar>cur\<bar> entry) (dmul D \<bar>delta\<bar> fp)) \<bar>new_size\<bar>) state_dp"

definition charge_fee :: "decimal_ops \<Rightarrow> position_tracker \<Rightarrow> fill \<Rightarrow> position_tracker" where
  "charge_fee D t f = t\<lparr>tr_fees_paid := round_dp D
     (dadd D (tr_fees_paid t) (round_dp D (f_fee_quote f) state_dp)) state_dp\<rparr>"

definition tracker_apply :: "decimal_ops \<Rightarrow> position_tracker \<Rightarrow> fill \<Rightarrow> position_tracker" where
  "tracker_apply D t f =
     (let delta = round_dp D (side_delta (f_side f) (f_size f)) state_dp;
          t1 = charge_fee D t f
      in if delta = 0 then t1
         else
           let cur = round_dp D (tr_size t) state_dp;
               entry = round_dp D (tr_avg_entry t) state_dp;
               fp = round_dp D (f_price f) state_dp;
               new_size = round_dp D (dadd D cur delta) state_dp
           in if cur = 0 then t1\<lparr>tr_size := new_size, tr_avg_entry := fp\<rparr>
              else
                let cur_sign = dec_sign cur; delta_sign = dec_sign delta
                in if cur_sign = delta_sign
                   then t1\<lparr>tr_size := new_size,
                           tr_avg_entry := wacc_entry D cur entry delta fp new_size\<rparr>
                   else
                     let new_sign = dec_sign new_size
                     in if new_size = 0 \<or> new_sign = cur_sign
                        then t1\<lparr>tr_realized_pnl := round_dp D (dadd D (tr_realized_pnl t)
                                  (realized_delta D \<bar>delta\<bar> fp entry cur_sign)) state_dp,
                                tr_size := new_size,
                                tr_avg_entry := (if new_size = 0 then 0 else tr_avg_entry t)\<rparr>
                        else t1\<lparr>tr_realized_pnl := round_dp D (dadd D (tr_realized_pnl t)
                                  (realized_delta D \<bar>cur\<bar> fp entry cur_sign)) state_dp,
                                tr_size := new_size,
                                tr_avg_entry := fp\<rparr>)"

definition force_reconcile ::
    "position_tracker \<Rightarrow> signed_size \<Rightarrow> price \<Rightarrow> position_tracker \<times> signed_size \<times> price" where
  "force_reconcile t new_size new_avg =
     (t\<lparr>tr_size := new_size, tr_avg_entry := new_avg\<rparr>, tr_size t, tr_avg_entry t)"

definition tracker_snapshot :: "position_tracker \<Rightarrow> position" where
  "tracker_snapshot t = \<lparr>p_symbol = tr_symbol t, p_size = tr_size t,
     p_avg_entry = tr_avg_entry t, p_realized_pnl = tr_realized_pnl t\<rparr>"

definition tracker_report :: "decimal_ops \<Rightarrow> position_tracker \<Rightarrow> price \<Rightarrow> pnl_report" where
  "tracker_report D t last_mid =
     (let unrealized = round_dp D (dmul D (dsub D last_mid (tr_avg_entry t)) (tr_size t)) state_dp
      in \<lparr>pr_realized = tr_realized_pnl t, pr_unrealized = unrealized,
          pr_fees = tr_fees_paid t, pr_funding = tr_funding_accrued t,
          pr_net = dadd D (dsub D (dadd D (tr_realized_pnl t) unrealized) (tr_fees_paid t))
            (tr_funding_accrued t)\<rparr>)"

text \<open>A run applies the fills in order, as the runner does.\<close>

fun tracker_run :: "decimal_ops \<Rightarrow> position_tracker \<Rightarrow> fill list \<Rightarrow> position_tracker" where
  "tracker_run D t [] = t"
| "tracker_run D t (f # fs) = tracker_run D (tracker_apply D t f) fs"

fun net_delta :: "fill list \<Rightarrow> rat" where
  "net_delta [] = 0"
| "net_delta (f # fs) = side_delta (f_side f) (f_size f) + net_delta fs"

fun gross_size :: "fill list \<Rightarrow> rat" where
  "gross_size [] = 0"
| "gross_size (f # fs) = \<bar>f_size f\<bar> + gross_size fs"

text \<open>What the tracker's books are worth at a mark price, before fees.\<close>

definition equity :: "position_tracker \<Rightarrow> price \<Rightarrow> rat" where
  "equity t m = tr_realized_pnl t + tr_size t * (m - tr_avg_entry t)"

definition books_ok :: "position_tracker \<Rightarrow> bool" where
  "books_ok t \<longleftrightarrow> on_grid 8 (tr_size t) \<and> on_grid 8 (tr_avg_entry t)
     \<and> on_grid 8 (tr_realized_pnl t) \<and> on_grid 8 (tr_fees_paid t)
     \<and> (tr_size t = 0 \<longrightarrow> tr_avg_entry t = 0)"

lemma gross_size_nonneg: "0 \<le> gross_size fs"
  by (induction fs) auto

lemma dec_sign_sgn: "dec_sign d = sgn d"
  by (simp add: dec_sign_def sgn_if)

subsection \<open>What a fill does to the books\<close>

context decimal_arith
begin

lemma grid8_add:
  assumes "on_grid 8 x" "on_grid 8 y" "(\<bar>x\<bar> + \<bar>y\<bar>) * 10 ^ 8 < 2 ^ 96"
  shows "dadd D x y = x + y" "dsub D x y = x - y"
proof -
  have "\<bar>x + y\<bar> * 10 ^ 8 < 2 ^ 96" "\<bar>x - y\<bar> * 10 ^ 8 < 2 ^ 96"
    by (rule le_less_trans [OF _ assms(3)], rule mult_right_mono; simp add: abs_triangle_ineq
        abs_triangle_ineq4)+
  with assms show "dadd D x y = x + y" "dsub D x y = x - y"
    by (auto intro!: add_fits sub_fits fits_grid [where n = 8])
qed

lemma grid8_mul:
  assumes "on_grid 8 x" "on_grid 8 y" "\<bar>x\<bar> * \<bar>y\<bar> \<le> 10 ^ 12"
  shows "dmul D x y = x * y"
proof (rule mul_fits, rule fits_grid [where n = 16])
  show "on_grid 16 (x * y)" using on_grid_mult [OF assms(1,2)] by simp
  show "\<bar>x * y\<bar> * 10 ^ 16 < 2 ^ 96" using assms(3) by (simp add: abs_mult)
qed simp

text \<open>
  The four cases of \<open>apply\<close> for books and a fill on the eight-digit grid, whose sizes are
  small enough to add exactly.
\<close>

lemma apply_grid_form:
  assumes "books_ok t" "on_grid 8 (f_size f)" "on_grid 8 (f_price f)"
    and "(\<bar>tr_size t\<bar> + \<bar>f_size f\<bar>) * 10 ^ 8 < 2 ^ 96"
  shows "tracker_apply D t f =
    (let d = side_delta (f_side f) (f_size f); t1 = charge_fee D t f;
         cur = tr_size t; entry = tr_avg_entry t; fp = f_price f; n = cur + d
     in if d = 0 then t1
        else if cur = 0 then t1\<lparr>tr_size := n, tr_avg_entry := fp\<rparr>
        else if sgn cur = sgn d
          then t1\<lparr>tr_size := n, tr_avg_entry := wacc_entry D cur entry d fp n\<rparr>
        else if n = 0 \<or> sgn n = sgn cur
          then t1\<lparr>tr_realized_pnl := round_dp D (dadd D (tr_realized_pnl t)
                 (realized_delta D \<bar>d\<bar> fp entry (sgn cur))) 8,
               tr_size := n, tr_avg_entry := (if n = 0 then 0 else entry)\<rparr>
          else t1\<lparr>tr_realized_pnl := round_dp D (dadd D (tr_realized_pnl t)
                 (realized_delta D \<bar>cur\<bar> fp entry (sgn cur))) 8,
               tr_size := n, tr_avg_entry := fp\<rparr>)"
proof -
  let ?d = "side_delta (f_side f) (f_size f)"
  have g: "on_grid 8 (tr_size t)" "on_grid 8 (tr_avg_entry t)" "on_grid 8 ?d"
    using assms by (auto simp: books_ok_def)
  then have rd: "round_dp D ?d 8 = ?d" "round_dp D (tr_size t) 8 = tr_size t"
      "round_dp D (tr_avg_entry t) 8 = tr_avg_entry t" "round_dp D (f_price f) 8 = f_price f"
    using assms by (auto intro!: round_id)
  have sum: "dadd D (tr_size t) ?d = tr_size t + ?d"
    using g assms(4) by (intro grid8_add) auto
  have rs: "round_dp D (tr_size t + ?d) 8 = tr_size t + ?d"
    using g by (auto intro!: round_id)
  show ?thesis
    unfolding tracker_apply_def Let_def state_dp_def rd sum rs dec_sign_sgn
    by (rule refl)
qed

lemma tracker_apply_size:
  assumes "books_ok t" "on_grid 8 (f_size f)" "on_grid 8 (f_price f)"
    and "(\<bar>tr_size t\<bar> + \<bar>f_size f\<bar>) * 10 ^ 8 < 2 ^ 96"
  shows "tr_size (tracker_apply D t f) = tr_size t + side_delta (f_side f) (f_size f)"
  unfolding apply_grid_form [OF assms] by (simp add: Let_def charge_fee_def)

lemma tracker_apply_grid:
  assumes "books_ok t"
  shows "on_grid 8 (tr_size (tracker_apply D t f))"
    and "on_grid 8 (tr_avg_entry (tracker_apply D t f))"
    and "on_grid 8 (tr_realized_pnl (tracker_apply D t f))"
    and "on_grid 8 (tr_fees_paid (tracker_apply D t f))"
  using assms round_grid [of 8]
  by (auto simp: tracker_apply_def Let_def books_ok_def state_dp_def wacc_entry_def
      charge_fee_def)

lemma tracker_apply_books_ok:
  assumes "books_ok t" "on_grid 8 (f_size f)" "on_grid 8 (f_price f)"
    and "(\<bar>tr_size t\<bar> + \<bar>f_size f\<bar>) * 10 ^ 8 < 2 ^ 96"
  shows "books_ok (tracker_apply D t f)"
proof -
  have "tr_size (tracker_apply D t f) = 0 \<longrightarrow> tr_avg_entry (tracker_apply D t f) = 0"
    using assms(1) unfolding apply_grid_form [OF assms] books_ok_def
    by (auto simp: Let_def charge_fee_def sgn_if split: if_splits)
  with tracker_apply_grid [OF assms(1), of f] show ?thesis by (simp add: books_ok_def)
qed

lemma tracker_run_size:
  assumes "books_ok t" "\<forall>f \<in> set fs. on_grid 8 (f_size f) \<and> on_grid 8 (f_price f)"
    and "(\<bar>tr_size t\<bar> + gross_size fs) * 10 ^ 8 < 2 ^ 96"
  shows "tr_size (tracker_run D t fs) = tr_size t + net_delta fs
    \<and> books_ok (tracker_run D t fs)"
  using assms
proof (induction fs arbitrary: t)
  case (Cons f fs)
  have "(\<bar>tr_size t\<bar> + \<bar>f_size f\<bar>) * 10 ^ 8 < 2 ^ 96"
    by (rule le_less_trans [OF _ Cons.prems(3)]) (simp add: gross_size_nonneg)
  then have step: "tr_size (tracker_apply D t f) = tr_size t + side_delta (f_side f) (f_size f)"
    and ok: "books_ok (tracker_apply D t f)"
    using Cons.prems by (auto intro!: tracker_apply_size tracker_apply_books_ok)
  have "\<bar>tr_size t + side_delta (f_side f) (f_size f)\<bar> + gross_size fs
      \<le> \<bar>tr_size t\<bar> + gross_size (f # fs)"
    using abs_triangle_ineq [of "tr_size t" "side_delta (f_side f) (f_size f)"] by simp
  then have "(\<bar>tr_size (tracker_apply D t f)\<bar> + gross_size fs) * 10 ^ 8 < 2 ^ 96"
    unfolding step by (intro le_less_trans [OF mult_right_mono Cons.prems(3)]) auto
  with ok Cons.IH Cons.prems(2) step show ?case by simp
qed simp

subsection \<open>No value is created or lost beyond rounding\<close>

lemma realized_delta_near:
  assumes g: "on_grid 8 q" "on_grid 8 fp" "on_grid 8 e"
    and b: "\<bar>q\<bar> * (\<bar>e\<bar> + \<bar>fp\<bar>) \<le> 10 ^ 12" "\<bar>e\<bar> + \<bar>fp\<bar> \<le> 10 ^ 12"
  shows "\<bar>realized_delta D q fp e (sgn c) - q * (fp - e) * sgn c\<bar> \<le> 1 / (2 * 10 ^ 8)"
proof -
  have s: "dsub D fp e = fp - e" using g b by (intro grid8_add) auto
  have "\<bar>q\<bar> * \<bar>fp - e\<bar> \<le> \<bar>q\<bar> * (\<bar>e\<bar> + \<bar>fp\<bar>)"
    by (rule mult_left_mono) (auto simp: abs_if)
  then have le: "\<bar>q\<bar> * \<bar>fp - e\<bar> \<le> 10 ^ 12" using b(1) by linarith
  then have m: "dmul D q (fp - e) = q * (fp - e)"
    using g by (intro grid8_mul) auto
  have gp: "on_grid 16 (q * (fp - e))"
    using on_grid_mult [OF g(1) on_grid_diff [OF g(2,3)]] by simp
  then have "fits (q * (fp - e))"
    using le by (intro fits_grid [where n = 16]) (auto simp: abs_mult)
  then have "fits (q * (fp - e) * sgn c)"
    by (cases "c = 0"; cases "0 < c") (auto simp: sgn_if)
  then have "dmul D (q * (fp - e)) (sgn c) = q * (fp - e) * sgn c" by (rule mul_fits)
  then show ?thesis
    using round_near [of "q * (fp - e) * sgn c" 8]
    unfolding realized_delta_def s m state_dp_def by simp
qed

lemma wacc_near:
  assumes g: "on_grid 8 cur" "on_grid 8 entry" "on_grid 8 d" "on_grid 8 fp"
    and sg: "sgn cur = sgn d" "cur \<noteq> 0"
    and b: "(\<bar>cur\<bar> + \<bar>d\<bar>) * (\<bar>entry\<bar> + \<bar>fp\<bar>) \<le> 10 ^ 12" "\<bar>entry\<bar> + \<bar>fp\<bar> \<le> 10 ^ 12"
  shows "\<bar>(cur + d) * wacc_entry D cur entry d fp (cur + d) - (cur * entry + d * fp)\<bar>
    \<le> \<bar>cur + d\<bar> / 10 ^ 8"
proof -
  let ?n = "cur + d" and ?x = "\<bar>cur\<bar> * entry + \<bar>d\<bar> * fp"
  have parts: "\<bar>cur\<bar> * \<bar>entry\<bar> + \<bar>d\<bar> * \<bar>fp\<bar> \<le> (\<bar>cur\<bar> + \<bar>d\<bar>) * (\<bar>entry\<bar> + \<bar>fp\<bar>)"
    by (simp add: algebra_simps)
  have each: "\<bar>cur\<bar> * \<bar>entry\<bar> \<le> 10 ^ 12" "\<bar>d\<bar> * \<bar>fp\<bar> \<le> 10 ^ 12"
  proof -
    have "0 \<le> \<bar>cur\<bar> * \<bar>entry\<bar>" "0 \<le> \<bar>d\<bar> * \<bar>fp\<bar>" by simp_all
    with parts b(1) show "\<bar>cur\<bar> * \<bar>entry\<bar> \<le> 10 ^ 12" "\<bar>d\<bar> * \<bar>fp\<bar> \<le> 10 ^ 12"
      by linarith+
  qed
  have m: "dmul D \<bar>cur\<bar> entry = \<bar>cur\<bar> * entry" "dmul D \<bar>d\<bar> fp = \<bar>d\<bar> * fp"
    using g each by (auto intro!: grid8_mul)
  have xle: "\<bar>?x\<bar> \<le> (\<bar>cur\<bar> + \<bar>d\<bar>) * (\<bar>entry\<bar> + \<bar>fp\<bar>)"
    using abs_triangle_ineq [of "\<bar>cur\<bar> * entry" "\<bar>d\<bar> * fp"] parts by (simp add: abs_mult)
  have "on_grid 16 ?x"
    using on_grid_mult [of 8 "\<bar>cur\<bar>" 8 entry] on_grid_mult [of 8 "\<bar>d\<bar>" 8 fp] g by auto
  moreover have "\<bar>?x\<bar> \<le> 10 ^ 12" using xle b(1) by linarith
  ultimately have a: "dadd D (\<bar>cur\<bar> * entry) (\<bar>d\<bar> * fp) = ?x"
    by (intro add_fits fits_grid [where n = 16]) auto
  have n: "?n \<noteq> 0" "\<bar>?n\<bar> = \<bar>cur\<bar> + \<bar>d\<bar>"
    using sg by (auto simp: sgn_if abs_if split: if_splits)
  have "\<bar>?x\<bar> / \<bar>?n\<bar> \<le> \<bar>entry\<bar> + \<bar>fp\<bar>"
    using xle n(1) by (subst pos_divide_le_eq) (auto simp: n(2) [symmetric] mult.commute)
  then have q: "\<bar>ddiv D ?x \<bar>?n\<bar> - ?x / \<bar>?n\<bar>\<bar> \<le> 1 / (2 * 10 ^ 10)"
    using n b(2) by (intro div_near) auto
  have "\<bar>ddiv D ?x \<bar>?n\<bar> - ?x / \<bar>?n\<bar>\<bar> \<le> 1 / 200000000" by (rule order_trans [OF q]) simp
  moreover have "\<bar>wacc_entry D cur entry d fp ?n - ddiv D ?x \<bar>?n\<bar>\<bar> \<le> 1 / 200000000"
    unfolding wacc_entry_def m a state_dp_def by (rule order_trans [OF round_near]) simp
  ultimately have "\<bar>wacc_entry D cur entry d fp ?n - ?x / \<bar>?n\<bar>\<bar> \<le> 1 / 100000000"
    by linarith
  then have w: "\<bar>wacc_entry D cur entry d fp ?n - ?x / \<bar>?n\<bar>\<bar> \<le> 1 / 10 ^ 8" by simp
  have "?n * (?x / \<bar>?n\<bar>) = cur * entry + d * fp"
    using sg n by (auto simp: sgn_if abs_if divide_simps algebra_simps split: if_splits)
  then have "?n * wacc_entry D cur entry d fp ?n - (cur * entry + d * fp)
      = ?n * (wacc_entry D cur entry d fp ?n - ?x / \<bar>?n\<bar>)"
    by (simp add: right_diff_distrib)
  then show ?thesis
    using mult_left_mono [OF w abs_ge_zero [of ?n]] by (simp add: abs_mult)
qed

text \<open>
  The magnitudes under which one fill is accounted exactly up to its final rounding: a
  notional of \<open>10^12\<close> at sixteen digits fills the mantissa.
\<close>

end

definition step_bounds :: "position_tracker \<Rightarrow> fill \<Rightarrow> bool" where
  "step_bounds t f \<longleftrightarrow> on_grid 8 (f_size f) \<and> on_grid 8 (f_price f)
     \<and> (\<bar>tr_size t\<bar> + \<bar>f_size f\<bar>) * 10 ^ 8 < 2 ^ 96
     \<and> (\<bar>tr_size t\<bar> + \<bar>f_size f\<bar>) * (\<bar>tr_avg_entry t\<bar> + \<bar>f_price f\<bar>) \<le> 10 ^ 12
     \<and> \<bar>tr_avg_entry t\<bar> + \<bar>f_price f\<bar> \<le> 10 ^ 12 \<and> \<bar>tr_realized_pnl t\<bar> \<le> 10 ^ 12"

fun run_bounds :: "decimal_ops \<Rightarrow> position_tracker \<Rightarrow> fill list \<Rightarrow> bool" where
  "run_bounds D t [] = True"
| "run_bounds D t (f # fs) = (step_bounds t f \<and> run_bounds D (tracker_apply D t f) fs)"

text \<open>What the fills are worth at the mark, and the rounding a run may accumulate.\<close>

fun fills_value :: "fill list \<Rightarrow> price \<Rightarrow> rat" where
  "fills_value [] m = 0"
| "fills_value (f # fs) m = side_delta (f_side f) (f_size f) * (m - f_price f) + fills_value fs m"

fun rounding_slack :: "decimal_ops \<Rightarrow> position_tracker \<Rightarrow> fill list \<Rightarrow> rat" where
  "rounding_slack D t [] = 0"
| "rounding_slack D t (f # fs) =
     (\<bar>tr_size (tracker_apply D t f)\<bar> + 1) / 10 ^ 8 + rounding_slack D (tracker_apply D t f) fs"

context decimal_arith
begin

lemma realize_near:
  assumes t: "books_ok t" "step_bounds t f" and q: "\<bar>q\<bar> \<le> \<bar>tr_size t\<bar> + \<bar>f_size f\<bar>" "on_grid 8 q"
  shows "\<bar>round_dp D (dadd D (tr_realized_pnl t)
      (realized_delta D q (f_price f) (tr_avg_entry t) (sgn c))) 8
      - (tr_realized_pnl t + q * (f_price f - tr_avg_entry t) * sgn c)\<bar> \<le> 1 / 10 ^ 8"
proof -
  let ?e = "tr_avg_entry t" and ?fp = "f_price f" and ?r = "tr_realized_pnl t"
  let ?rd = "realized_delta D q ?fp ?e (sgn c)"
  have g: "on_grid 8 ?e" "on_grid 8 ?r" "on_grid 8 ?fp"
    using t by (auto simp: books_ok_def step_bounds_def)
  have b: "\<bar>?e\<bar> + \<bar>?fp\<bar> \<le> 10 ^ 12" "\<bar>?r\<bar> \<le> 10 ^ 12"
      "(\<bar>tr_size t\<bar> + \<bar>f_size f\<bar>) * (\<bar>?e\<bar> + \<bar>?fp\<bar>) \<le> 10 ^ 12"
    using t(2) by (auto simp: step_bounds_def)
  have qb: "\<bar>q\<bar> * (\<bar>?e\<bar> + \<bar>?fp\<bar>) \<le> 10 ^ 12"
    using mult_right_mono [OF q(1), of "\<bar>?e\<bar> + \<bar>?fp\<bar>"] b(3) by simp
  have near: "\<bar>?rd - q * (?fp - ?e) * sgn c\<bar> \<le> 1 / (2 * 10 ^ 8)"
    using q(2) g qb b(1) by (intro realized_delta_near) auto
  have "\<bar>q\<bar> * \<bar>?fp - ?e\<bar> \<le> \<bar>q\<bar> * (\<bar>?e\<bar> + \<bar>?fp\<bar>)"
    by (rule mult_left_mono) (auto simp: abs_if)
  then have "\<bar>q * (?fp - ?e) * sgn c\<bar> \<le> 10 ^ 12"
    using qb by (auto simp: abs_mult sgn_if)
  moreover have "\<bar>?rd - q * (?fp - ?e) * sgn c\<bar> \<le> 1"
    by (rule order_trans [OF near]) simp
  ultimately have rb: "\<bar>?rd\<bar> \<le> 10 ^ 12 + 1" by linarith
  have gr: "on_grid 8 ?rd" by (simp add: realized_delta_def state_dp_def round_grid)
  have sum: "dadd D ?r ?rd = ?r + ?rd"
    using g gr b rb by (intro grid8_add) auto
  have "round_dp D (?r + ?rd) 8 = ?r + ?rd" using g gr by (auto intro!: round_id)
  with near show ?thesis unfolding sum by (simp add: algebra_simps)
qed

lemma tracker_apply_equity:
  assumes ok: "books_ok t" and b: "step_bounds t f"
  shows "\<bar>equity (tracker_apply D t f) m
      - (equity t m + side_delta (f_side f) (f_size f) * (m - f_price f))\<bar>
    \<le> (\<bar>tr_size (tracker_apply D t f)\<bar> + 1) / 10 ^ 8"
proof -
  let ?d = "side_delta (f_side f) (f_size f)" and ?c = "tr_size t"
  let ?e = "tr_avg_entry t" and ?fp = "f_price f" and ?r = "tr_realized_pnl t"
  have g: "on_grid 8 (f_size f)" "on_grid 8 ?fp" "on_grid 8 ?c" "on_grid 8 ?e"
    and sb: "(\<bar>?c\<bar> + \<bar>f_size f\<bar>) * 10 ^ 8 < 2 ^ 96"
    using ok b by (auto simp: books_ok_def step_bounds_def)
  note form = apply_grid_form [OF ok g(1,2) sb]
  have size: "tr_size (tracker_apply D t f) = ?c + ?d"
    using ok g sb by (intro tracker_apply_size) auto
  have near: "\<bar>round_dp D (dadd D ?r (realized_delta D q ?fp ?e (sgn ?c))) 8
      - (?r + q * (?fp - ?e) * sgn ?c)\<bar> \<le> 1 / 10 ^ 8" if "q = \<bar>?d\<bar> \<or> q = \<bar>?c\<bar>" for q
    using that g by (intro realize_near [OF ok b]) auto
  have slack: "(1 :: rat) / 10 ^ 8 \<le> (\<bar>?c + ?d\<bar> + 1) / 10 ^ 8"
    by (intro divide_right_mono) auto
  consider "?d = 0" | "?d \<noteq> 0" "?c = 0" | "?d \<noteq> 0" "?c \<noteq> 0" "sgn ?c = sgn ?d"
    | "?d \<noteq> 0" "?c \<noteq> 0" "sgn ?c \<noteq> sgn ?d" by blast
  then show ?thesis
  proof cases
    case 3
    have w: "\<bar>(?c + ?d) * wacc_entry D ?c ?e ?d ?fp (?c + ?d) - (?c * ?e + ?d * ?fp)\<bar>
        \<le> \<bar>?c + ?d\<bar> / 10 ^ 8"
      using 3 g b by (intro wacc_near) (auto simp: step_bounds_def)
    have "equity (tracker_apply D t f) m - (equity t m + ?d * (m - ?fp))
        = (?c * ?e + ?d * ?fp) - (?c + ?d) * wacc_entry D ?c ?e ?d ?fp (?c + ?d)"
      using 3 unfolding form equity_def by (simp add: Let_def charge_fee_def algebra_simps)
    moreover have "\<bar>?c + ?d\<bar> / 10 ^ 8 \<le> (\<bar>?c + ?d\<bar> + 1) / (10 ^ 8 :: rat)"
      by (intro divide_right_mono) auto
    ultimately show ?thesis using w unfolding size by linarith
  next
    case 4
    then have opp: "\<bar>?d\<bar> * sgn ?c = - ?d" by (auto simp: sgn_if abs_if split: if_splits)
    have own: "\<bar>?c\<bar> * sgn ?c = ?c" by (simp add: sgn_if abs_if)
    show ?thesis
    proof (cases "?c + ?d = 0 \<or> sgn (?c + ?d) = sgn ?c")
      case True
      have "?r + \<bar>?d\<bar> * (?fp - ?e) * sgn ?c = ?r - ?d * (?fp - ?e)"
        using arg_cong [OF opp, of "\<lambda>x. x * (?fp - ?e)"] by (simp add: ac_simps)
      note near' = near [of "\<bar>?d\<bar>", unfolded this, simplified]
      have "equity (tracker_apply D t f) m - (equity t m + ?d * (m - ?fp))
          = round_dp D (dadd D ?r (realized_delta D \<bar>?d\<bar> ?fp ?e (sgn ?c))) 8
            - (?r - ?d * (?fp - ?e))"
        using True 4 unfolding form equity_def
        by (auto simp: Let_def charge_fee_def algebra_simps add_eq_0_iff2)
      then show ?thesis unfolding size using near' slack by simp
    next
      case False
      have "?r + \<bar>?c\<bar> * (?fp - ?e) * sgn ?c = ?r + ?c * (?fp - ?e)"
        using arg_cong [OF own, of "\<lambda>x. x * (?fp - ?e)"] by (simp add: ac_simps)
      note near' = near [of "\<bar>?c\<bar>", unfolded this, simplified]
      have "equity (tracker_apply D t f) m - (equity t m + ?d * (m - ?fp))
          = round_dp D (dadd D ?r (realized_delta D \<bar>?c\<bar> ?fp ?e (sgn ?c))) 8
            - (?r + ?c * (?fp - ?e))"
        using False 4 unfolding form equity_def
        by (auto simp: Let_def charge_fee_def algebra_simps)
      then show ?thesis unfolding size using near' slack by simp
    qed
  qed (simp_all add: form equity_def Let_def charge_fee_def algebra_simps)
qed

lemma tracker_run_equity:
  assumes "books_ok t" "run_bounds D t fs"
  shows "\<bar>equity (tracker_run D t fs) m - (equity t m + fills_value fs m)\<bar>
    \<le> rounding_slack D t fs"
  using assms
proof (induction fs arbitrary: t)
  case (Cons f fs)
  have ok: "books_ok (tracker_apply D t f)"
    using Cons.prems by (intro tracker_apply_books_ok) (auto simp: step_bounds_def)
  have "\<bar>equity (tracker_apply D t f) m
      - (equity t m + side_delta (f_side f) (f_size f) * (m - f_price f))\<bar>
    \<le> (\<bar>tr_size (tracker_apply D t f)\<bar> + 1) / 10 ^ 8"
    using Cons.prems by (intro tracker_apply_equity) auto
  moreover have "\<bar>equity (tracker_run D (tracker_apply D t f) fs) m
      - (equity (tracker_apply D t f) m + fills_value fs m)\<bar>
    \<le> rounding_slack D (tracker_apply D t f) fs"
    using Cons.prems by (intro Cons.IH ok) simp
  ultimately show ?case unfolding tracker_run.simps fills_value.simps rounding_slack.simps
    by linarith
qed simp

end

subsection \<open>Properties\<close>

text \<open>
  The tracker's net size after any run of fills is its size before plus the signed
  sizes of the fills, and its books stay well formed (values on the eight-digit grid, no
  entry price on a flat position), as long as the gross size traded stays representable.
\<close>

theorem pnl_net_size:
  assumes "decimal_arith D" "books_ok t"
    and "\<forall>f \<in> set fs. on_grid 8 (f_size f) \<and> on_grid 8 (f_price f)"
    and "(\<bar>tr_size t\<bar> + gross_size fs) * 10 ^ 8 < 2 ^ 96"
  shows "tr_size (tracker_run D t fs) = tr_size t + net_delta fs
    \<and> books_ok (tracker_run D t fs)"
  using assms by (rule decimal_arith.tracker_run_size)


definition eg_symbol :: symbol where
  "eg_symbol = \<lparr>sy_base = ''BTC'', sy_quote = ''USDT'', sy_venue = ''test'', sy_kind = Spot\<rparr>"

definition eg_fill :: "side \<Rightarrow> price \<Rightarrow> qsize \<Rightarrow> fill" where
  "eg_fill s p q = \<lparr>f_quote_id = 1, f_price = p, f_size = q, f_fee_asset = ''USDT'',
     f_fee_amount = 0, f_fee_quote = 0, f_side = s, f_ts = 0, f_is_full = True,
     f_trade_id = None\<rparr>"

definition eg_fills :: "fill list" where
  "eg_fills = [eg_fill Bid 100 2, eg_fill Bid 110 2, eg_fill Ask 115 6]"

lemmas eg_defs = eg_fills_def eg_fill_def tracker_new_def books_ok_def

theorem pnl_net_size_witness:
  "tr_size (tracker_run exact_decimal (tracker_new eg_symbol) eg_fills) = - 2"
  using pnl_net_size [OF exact.decimal_arith_axioms, of "tracker_new eg_symbol" eg_fills]
  by (simp add: eg_defs)


end
