(* ===== verification/Strategy_Api.thy ===== *)
theory Strategy_Api
  imports Core
begin

text \<open>
  The strategy interface of \<open>crates/tikr-strategy/src/lib.rs\<close>: the read-only context a
  strategy sees, the actions it returns, and the pricing helpers several strategies share.
  \<open>Decimal::from(u32)\<close> is \<open>dec_u32\<close>.
\<close>

definition dec_u32 :: "u32 \<Rightarrow> rat" where
  "dec_u32 n = of_nat (unat n)"

lemma dec_u32_nonneg [simp, intro]: "0 \<le> dec_u32 n"
  by (simp only: dec_u32_def of_nat_0_le_iff)

lemma dec_u32_0 [simp]: "dec_u32 n = 0 \<longleftrightarrow> n = 0"
  by (simp only: dec_u32_def of_nat_eq_0_iff unat_eq_0)

text \<open>
  \<open>to_string().parse::<i64>()\<close> of a decimal that has been rounded to an integer.  The casts
  \<open>as u32\<close> of an \<open>i64\<close> truncate: they are \<open>word_of_int\<close>.
\<close>

definition parse_i64 :: "rat \<Rightarrow> int option" where
  "parse_i64 x = (if - (2 ^ 63) \<le> \<lfloor>x\<rfloor> \<and> \<lfloor>x\<rfloor> < 2 ^ 63 then Some \<lfloor>x\<rfloor> else None)"

text \<open>\<open>i64::clamp\<close> with the bounds in order.\<close>

definition clamp :: "int \<Rightarrow> int \<Rightarrow> int \<Rightarrow> int" where
  "clamp lo hi x = (if x < lo then lo else if hi < x then hi else x)"

text \<open>\<open>Iterator::sum\<close> over decimals.\<close>

definition dec_sum :: "decimal_ops \<Rightarrow> rat list \<Rightarrow> rat" where
  "dec_sum D xs = foldl (dadd D) 0 xs"

datatype action =
  Quote quote_intent
| Requote quote_id quote_intent
| Cancel quote_id
| CancelAll
| NoOp

record strategy_context =
  cx_symbol :: symbol
  cx_now :: timestamp
  cx_position :: position
  cx_recent_fills :: "fill list"
  cx_latest_book :: snapshot
  cx_open_quotes :: "(quote_id \<times> quote_intent) list"
  cx_recent_liqs :: "liq_event list"

definition compute_mid_strict :: "decimal_ops \<Rightarrow> snapshot \<Rightarrow> price option" where
  "compute_mid_strict D sn =
     (case first_opt (sn_bids sn) of None \<Rightarrow> None
      | Some b \<Rightarrow> (case first_opt (sn_asks sn) of None \<Rightarrow> None
        | Some a \<Rightarrow> Some (ddiv D (dadd D (lv_price b) (lv_price a)) 2)))"

definition should_requote_drift ::
    "decimal_ops \<Rightarrow> timestamp option \<Rightarrow> price option \<Rightarrow> price \<Rightarrow> timestamp \<Rightarrow> u64 \<Rightarrow> u32 \<Rightarrow> bool"
  where
  "should_requote_drift D last_ts last_mid new_mid now min_interval_ms level_step_bps =
     (case (last_ts, last_mid) of
        (Some prev_ts, Some prev_mid) \<Rightarrow>
          if sat_mul min_interval_ms 1000000 \<le> sat_sub now prev_ts then True
          else ddiv D (dmul D prev_mid (ddiv D (dec_u32 level_step_bps) 2)) 10000
                 < \<bar>dsub D new_mid prev_mid\<bar>
      | _ \<Rightarrow> True)"

definition make_post_only_intent :: "symbol \<Rightarrow> side \<Rightarrow> price \<Rightarrow> qsize \<Rightarrow> quote_intent" where
  "make_post_only_intent sy s p q = \<lparr>qi_symbol = sy, qi_side = s, qi_price = p, qi_size = q,
     qi_tif = PostOnly, qi_kind = Point\<rparr>"

definition post_only_pair :: "symbol \<Rightarrow> price \<Rightarrow> price \<Rightarrow> qsize \<Rightarrow> action list" where
  "post_only_pair sy bid ask q =
     CancelAll # map (\<lambda>(s, p). Quote (make_post_only_intent sy s p q)) [(Bid, bid), (Ask, ask)]"

definition should_requote_on_tick_drift ::
    "decimal_ops \<Rightarrow> price option \<Rightarrow> price option \<Rightarrow> timestamp option \<Rightarrow> price \<Rightarrow> price
      \<Rightarrow> timestamp \<Rightarrow> u64 \<Rightarrow> rat \<Rightarrow> bool" where
  "should_requote_on_tick_drift D last_bid last_ask last_ts new_bid new_ask now interval_ms tick =
     (case (last_bid, last_ask) of
        (Some lb, Some la) \<Rightarrow>
          (case last_ts of Some ts \<Rightarrow> sat_mul interval_ms 1000000 \<le> sat_sub now ts
           | None \<Rightarrow> False)
          \<or> tick \<le> \<bar>dsub D new_bid lb\<bar> \<or> tick \<le> \<bar>dsub D new_ask la\<bar>
      | _ \<Rightarrow> True)"

definition inventory_skew_price :: "decimal_ops \<Rightarrow> rat \<Rightarrow> u32 \<Rightarrow> rat \<Rightarrow> rat \<Rightarrow> rat" where
  "inventory_skew_price D pos max_skew_ticks skew_unit tick_size =
     (if max_skew_ticks = 0 \<or> pos = 0 then 0
      else if skew_unit \<le> 0 then 0
      else
        let max_t = dec_u32 max_skew_ticks;
            ratio = min (ddiv D \<bar>pos\<bar> skew_unit) 1;
            ticks_shifted = dec_floor (dmul D ratio max_t);
            magnitude = dmul D ticks_shifted tick_size
        in if 0 < pos then - magnitude else magnitude)"

lemma dec_floor_nonneg: "0 \<le> x \<Longrightarrow> 0 \<le> dec_floor x"
  by (simp add: dec_floor_def)

lemma dec_floor_le: "dec_floor x \<le> x"
  by (simp add: dec_floor_def)

lemma dec_floor_int [simp]: "dec_floor (of_int k) = of_int k" "dec_floor (numeral n) = numeral n"
    "dec_floor 0 = 0" "dec_floor 1 = 1"
  by (simp_all add: dec_floor_def)

context decimal_arith
begin

lemma skew_magnitude_nonneg:
  assumes "0 < unit" "0 \<le> tick"
  shows "0 \<le> dmul D (dec_floor (dmul D (min (ddiv D \<bar>pos\<bar> unit) 1) (dec_u32 n))) tick"
  using assms by (intro mul_nonneg mult_nonneg_nonneg dec_floor_nonneg) (auto intro!: div_nonneg)

end

text \<open>
  The inventory skew never pushes quotes the wrong way: a long position shifts them
  down or not at all, a short one up or not at all, and a flat one not at all, whatever the
  rounding of the arithmetic.
\<close>

theorem skew_against_inventory:
  assumes "decimal_arith D" "0 \<le> tick"
  shows "(if 0 < pos then inventory_skew_price D pos n unit tick \<le> 0
     else if pos < 0 then 0 \<le> inventory_skew_price D pos n unit tick
     else inventory_skew_price D pos n unit tick = 0)"
  using decimal_arith.skew_magnitude_nonneg [OF assms(1) _ assms(2), of unit pos n]
  by (cases "unit \<le> 0"; cases "0 < pos"; cases "pos < 0")
    (auto simp: inventory_skew_price_def Let_def)

theorem skew_against_inventory_witness:
  "inventory_skew_price rust_decimal 3 4 2 1 \<le> 0 \<and> inventory_skew_price exact_decimal 3 4 2 1 = - 4"
  using skew_against_inventory [OF rust.decimal_arith_axioms, of 1 3 4 2]
  by (simp add: inventory_skew_price_def dec_u32_def)

end
