(* ===== verification/Risk_Policy.thy ===== *)
theory Risk_Policy
  imports Strategy_Api Pnl
begin

text \<open>
  The take-profit and stop-loss policy of \<open>crates/tikr-strategy/src/risk.rs\<close>: \<open>evaluate\<close>
  decides whether to close a position at the current mid, \<open>build_close\<close> makes the order.
\<close>

datatype close_reason = TakeProfit | StopLoss

datatype policy_decision = Hold | Close (cl_side: side) (cl_qty: qsize) (cl_reason: close_reason)

record risk_config =
  rc_take_profit_bps :: u32
  rc_stop_loss_bps :: u32
  rc_take_profit_usdt_legacy :: rat

definition policy_evaluate :: "decimal_ops \<Rightarrow> position \<Rightarrow> price \<Rightarrow> risk_config \<Rightarrow> policy_decision"
  where
  "policy_evaluate D pos mid cfg =
     (if p_size pos = 0 \<or> p_avg_entry pos \<le> 0 then Hold
      else
        let long = 0 < p_size pos; pos_abs = \<bar>p_size pos\<bar>;
            drift = dsub D mid (p_avg_entry pos);
            signed_drift = (if long then drift else - drift);
            drift_bps = round_dp D (dmul D (ddiv D signed_drift (p_avg_entry pos)) 10000) 8;
            close_side = (if long then Ask else Bid);
            take_profit =
              (if 0 < rc_take_profit_bps cfg then dec_u32 (rc_take_profit_bps cfg) \<le> drift_bps
               else 0 < rc_take_profit_usdt_legacy cfg
                 \<and> rc_take_profit_usdt_legacy cfg \<le> round_dp D (dmul D signed_drift pos_abs) 8)
        in if take_profit then Close close_side pos_abs TakeProfit
           else if 0 < rc_stop_loss_bps cfg \<and> dec_u32 (rc_stop_loss_bps cfg) \<le> - drift_bps
             then Close close_side pos_abs StopLoss
           else Hold)"

definition build_close :: "symbol \<Rightarrow> side \<Rightarrow> qsize \<Rightarrow> price \<Rightarrow> price \<Rightarrow> action" where
  "build_close sy s qty best_bid best_ask =
     (let price = (case s of Bid \<Rightarrow> best_ask | Ask \<Rightarrow> best_bid)
      in Quote \<lparr>qi_symbol = sy, qi_side = s, qi_price = price, qi_size = qty,
           qi_tif = IOC, qi_kind = Point\<rparr>)"

lemma policy_evaluate_Close:
  "policy_evaluate D pos mid cfg = Close s q r \<Longrightarrow>
     q = \<bar>p_size pos\<bar> \<and> p_size pos \<noteq> 0 \<and> s = (if 0 < p_size pos then Ask else Bid)"
  by (auto simp: policy_evaluate_def Let_def split: if_splits)

text \<open>
  Whenever the take-profit or stop-loss policy closes a position, a full fill of the
  order it asks for flattens the position exactly, from either side; and a flat position is
  never closed.
\<close>

theorem policy_close_flattens:
  assumes "policy_evaluate D pos mid cfg = Close s q r"
  shows "p_size pos + side_delta s q = 0 \<and> 0 < q"
  using policy_evaluate_Close [OF assms] by auto

definition eg_position :: "rat \<Rightarrow> rat \<Rightarrow> position" where
  "eg_position q e = \<lparr>p_symbol = eg_symbol, p_size = q, p_avg_entry = e, p_realized_pnl = 0\<rparr>"

definition eg_risk_config :: risk_config where
  "eg_risk_config = \<lparr>rc_take_profit_bps = 50, rc_stop_loss_bps = 100,
     rc_take_profit_usdt_legacy = 0\<rparr>"

lemma eg_policy_close:
  "policy_evaluate exact_decimal (eg_position (- 3) 100) 101 eg_risk_config = Close Bid 3 StopLoss"
  by (simp add: policy_evaluate_def eg_position_def eg_risk_config_def dec_u32_def Let_def)

theorem policy_close_flattens_witness:
  "p_size (eg_position (- 3) 100) + side_delta Bid 3 = 0 \<and> 0 < (3 :: rat)"
  by (rule policy_close_flattens [OF eg_policy_close])

context decimal_arith
begin

lemma ratio_pos:
  assumes "0 < round_dp D (dmul D (ddiv D a b) c) n" "0 \<le> c" "0 < b"
  shows "0 < a"
proof (rule ccontr)
  assume "\<not> 0 < a"
  then have "ddiv D a b \<le> 0" using assms(3) by (intro div_nonpos) (simp add: divide_nonpos_pos)
  then have "round_dp D (dmul D (ddiv D a b) c) n \<le> 0"
    using assms(2) by (intro round_nonpos mul_nonpos) (simp add: mult_nonpos_nonneg)
  with assms(1) show False by simp
qed

lemma ratio_neg:
  assumes "round_dp D (dmul D (ddiv D a b) c) n < 0" "0 \<le> c" "0 < b"
  shows "a < 0"
proof (rule ccontr)
  assume "\<not> a < 0"
  then have "0 \<le> round_dp D (dmul D (ddiv D a b) c) n"
    using assms(2,3) by (intro round_nonneg mul_nonneg mult_nonneg_nonneg div_nonneg) auto
  with assms(1) show False by simp
qed

lemma policy_direction:
  assumes "policy_evaluate D pos mid cfg = Close s q r"
    and "r = TakeProfit \<longrightarrow> 0 < rc_take_profit_bps cfg" "fits (mid - p_avg_entry pos)"
  shows "(if (r = TakeProfit) = (0 < p_size pos) then p_avg_entry pos < mid
     else mid < p_avg_entry pos)"
proof -
  let ?drift = "if 0 < p_size pos then mid - p_avg_entry pos else - (mid - p_avg_entry pos)"
  let ?bps = "round_dp D (dmul D (ddiv D ?drift (p_avg_entry pos)) 10000) 8"
  have sub: "dsub D mid (p_avg_entry pos) = mid - p_avg_entry pos"
    by (rule sub_fits [OF assms(3)])
  have e: "0 < p_avg_entry pos"
    using assms(1) by (auto simp: policy_evaluate_def split: if_splits)
  have pos32: "0 < dec_u32 n" if "0 < n" for n
    using that by (metis dec_u32_0 dec_u32_nonneg less_le)
  have trig: "if r = TakeProfit then dec_u32 (rc_take_profit_bps cfg) \<le> ?bps
      else 0 < rc_stop_loss_bps cfg \<and> dec_u32 (rc_stop_loss_bps cfg) \<le> - ?bps"
    using assms(1,2) unfolding policy_evaluate_def Let_def sub
    by (auto split: if_splits)
  then have "if r = TakeProfit then 0 < ?bps else ?bps < 0"
    using assms(2) pos32 [of "rc_take_profit_bps cfg"] pos32 [of "rc_stop_loss_bps cfg"]
    by (cases "r = TakeProfit") auto
  then have "if r = TakeProfit then 0 < ?drift else ?drift < 0"
    using ratio_pos [OF _ _ e] ratio_neg [OF _ _ e] by (metis zero_le_numeral)
  then show ?thesis by (auto split: if_splits)
qed

end

text \<open>
  A stop-loss is never triggered by a favourable move, nor a take-profit in basis points
  by an adverse one: with decimals that round correctly, the mid is at or past the entry on
  the losing side for a stop and on the winning side for a take-profit.
\<close>

theorem policy_close_direction:
  assumes "decimal_arith D" "policy_evaluate D pos mid cfg = Close s q r"
    and "r = TakeProfit \<longrightarrow> 0 < rc_take_profit_bps cfg"
    and "fits (mid - p_avg_entry pos)"
  shows "(if (r = TakeProfit) = (0 < p_size pos) then p_avg_entry pos < mid
     else mid < p_avg_entry pos)"
  using assms by (rule decimal_arith.policy_direction)

theorem policy_close_direction_witness: "(100 :: rat) < 101"
  using policy_close_direction [OF exact.decimal_arith_axioms eg_policy_close]
    fits_int [of 1]
  by (simp add: eg_position_def)

end
