(* ===== verification/Liquidation.thy ===== *)
theory Liquidation
  imports Strategy_Api Pnl
begin

text \<open>
  The cross-margin liquidation model of \<open>crates/tikr-backtest/src/liquidation.rs\<close>:
  \<open>liq_price\<close> solves \<open>margin balance = maintenance margin\<close> for the mark price, \<open>check\<close>
  emits a forced close when the mark reaches it.  The id of the emitted fill, a fresh UUID
  in the code, is the argument \<open>nid\<close>.
\<close>

record liquidation_config =
  lc_leverage :: rat
  lc_maint_margin_rate :: rat
  lc_close_fee_bps :: u32

record liquidation_model =
  lm_cfg :: liquidation_config
  lm_count :: u64

definition liquidation_new :: "liquidation_config \<Rightarrow> liquidation_model" where
  "liquidation_new cfg = \<lparr>lm_cfg = cfg, lm_count = 0\<rparr>"

definition liq_price :: "decimal_ops \<Rightarrow> liquidation_model \<Rightarrow> position \<Rightarrow> rat \<Rightarrow> price option" where
  "liq_price D m pos wallet =
     (if p_size pos = 0 \<or> lc_leverage (lm_cfg m) \<le> 0 then None
      else
        let q = p_size pos; s = \<bar>q\<bar>; entry = p_avg_entry pos;
            mmr = lc_maint_margin_rate (lm_cfg m);
            denom = (if 0 < q then dmul D s (dsub D 1 mmr) else dmul D s (dadd D 1 mmr))
        in if denom = 0 then None
           else
             let px = (if 0 < q then ddiv D (dsub D (dmul D entry s) wallet) denom
                       else ddiv D (dadd D wallet (dmul D s entry)) denom)
             in if px \<le> 0 then None else Some (round_dp D px 8))"

definition liq_check ::
    "decimal_ops \<Rightarrow> quote_id \<Rightarrow> liquidation_model \<Rightarrow> position \<Rightarrow> price \<Rightarrow> rat \<Rightarrow> timestamp
      \<Rightarrow> fill option \<times> liquidation_model" where
  "liq_check D nid m pos mark wallet ts =
     (case liq_price D m pos wallet of None \<Rightarrow> (None, m)
      | Some liq \<Rightarrow>
          let long = 0 < p_size pos;
              triggered = (if long then mark \<le> liq else liq \<le> mark)
          in if \<not> triggered then (None, m)
             else
               let s = \<bar>p_size pos\<bar>; close_side = (if long then Ask else Bid);
                   nt = round_dp D (dmul D liq s) 8;
                   fee = round_dp D (ddiv D (dmul D nt (dec_u32 (lc_close_fee_bps (lm_cfg m))))
                           10000) 8
               in (Some \<lparr>f_quote_id = nid, f_price = liq, f_size = s,
                     f_fee_asset = sy_quote (p_symbol pos), f_fee_amount = fee,
                     f_fee_quote = fee, f_side = close_side, f_ts = ts, f_is_full = True,
                     f_trade_id = None\<rparr>,
                   m\<lparr>lm_count := lm_count m + 1\<rparr>))"

text \<open>Binance's rule, with the two sides written out: the margin balance covers maintenance.\<close>

definition margin_balance :: "position \<Rightarrow> rat \<Rightarrow> price \<Rightarrow> rat" where
  "margin_balance pos wallet mark = wallet + (mark - p_avg_entry pos) * p_size pos"

definition maintenance_margin :: "rat \<Rightarrow> position \<Rightarrow> price \<Rightarrow> rat" where
  "maintenance_margin mmr pos mark = \<bar>p_size pos\<bar> * mark * mmr"

lemma margin_root_unique:
  assumes "p_size pos \<noteq> 0" "\<bar>mmr\<bar> < 1"
    and "x = (if 0 < p_size pos
       then (p_avg_entry pos * \<bar>p_size pos\<bar> - wallet) / (\<bar>p_size pos\<bar> * (1 - mmr))
       else (wallet + \<bar>p_size pos\<bar> * p_avg_entry pos) / (\<bar>p_size pos\<bar> * (1 + mmr)))"
  shows "margin_balance pos wallet x = maintenance_margin mmr pos x"
proof -
  let ?s = "\<bar>p_size pos\<bar>" and ?e = "p_avg_entry pos"
  have nz: "?s * (1 - mmr) \<noteq> 0" "?s * (1 + mmr) \<noteq> 0"
    using assms(1,2) by auto
  have "if 0 < p_size pos then x * (?s * (1 - mmr)) = ?e * ?s - wallet
      else x * (?s * (1 + mmr)) = wallet + ?s * ?e"
    unfolding assms(3) using div_mult_nonzero [OF nz(1)] div_mult_nonzero [OF nz(2)]
    by (cases "0 < p_size pos") (simp_all only: if_True if_False)
  then show ?thesis
    by (cases "0 < p_size pos")
      (auto simp: margin_balance_def maintenance_margin_def algebra_simps)
qed

text \<open>The bounds under which the numerator and denominator are computed exactly.\<close>

definition liq_bounds :: "liquidation_model \<Rightarrow> position \<Rightarrow> rat \<Rightarrow> bool" where
  "liq_bounds m pos wallet \<longleftrightarrow>
     (let s = \<bar>p_size pos\<bar>; e = p_avg_entry pos; mmr = lc_maint_margin_rate (lm_cfg m)
      in on_grid 8 s \<and> on_grid 8 e \<and> on_grid 8 mmr \<and> on_grid 16 wallet
         \<and> s * \<bar>e\<bar> \<le> 10 ^ 12 \<and> \<bar>wallet\<bar> \<le> 10 ^ 12 \<and> s * 2 \<le> 10 ^ 12 \<and> 0 \<le> mmr \<and> mmr < 1
         \<and> (s * \<bar>e\<bar> + \<bar>wallet\<bar>) \<le> 10 ^ 18 * (s * (1 - mmr)))"

context decimal_arith
begin

lemma liq_price_near:
  assumes b: "liq_bounds m pos wallet" and lp: "liq_price D m pos wallet = Some px"
  shows "\<exists>x. \<bar>px - x\<bar> \<le> 1 / 10 ^ 8 \<and>
    margin_balance pos wallet x = maintenance_margin (lc_maint_margin_rate (lm_cfg m)) pos x"
proof -
  let ?q = "p_size pos" and ?e = "p_avg_entry pos" and ?mmr = "lc_maint_margin_rate (lm_cfg m)"
  let ?s = "\<bar>?q\<bar>"
  have q: "?q \<noteq> 0" using lp by (auto simp: liq_price_def)
  have g: "on_grid 8 ?s" "on_grid 8 ?e" "on_grid 8 ?mmr" "on_grid 16 wallet"
    and bd: "?s * \<bar>?e\<bar> \<le> 10 ^ 12" "\<bar>wallet\<bar> \<le> 10 ^ 12" "?s * 2 \<le> 10 ^ 12" "0 \<le> ?mmr" "?mmr < 1"
    and quot: "?s * \<bar>?e\<bar> + \<bar>wallet\<bar> \<le> 10 ^ 18 * (?s * (1 - ?mmr))"
    using b by (auto simp: liq_bounds_def Let_def)
  have gse: "on_grid 16 (?s * ?e)" "on_grid 16 (?e * ?s)"
    using on_grid_mult [OF g(1,2)] by (simp_all add: mult.commute)
  have m1: "dmul D ?e ?s = ?e * ?s" "dmul D ?s ?e = ?s * ?e"
    using g bd(1) by (auto intro!: grid8_mul simp: mult.commute [of "\<bar>?e\<bar>"])
  have "\<bar>?e * ?s - wallet\<bar> \<le> 2 * 10 ^ 12" "\<bar>wallet + ?s * ?e\<bar> \<le> 2 * 10 ^ 12"
    using bd(1,2) abs_mult [of ?e ?s] abs_mult [of ?s ?e] by (simp_all add: mult.commute)
  then have num: "dsub D (?e * ?s) wallet = ?e * ?s - wallet"
      "dadd D wallet (?s * ?e) = wallet + ?s * ?e"
    using gse g by (auto intro!: sub_fits add_fits fits_grid [where n = 16])
  have mm: "dsub D 1 ?mmr = 1 - ?mmr" "dadd D 1 ?mmr = 1 + ?mmr"
    using g bd by (auto intro!: grid8_add)
  have den: "dmul D ?s (1 - ?mmr) = ?s * (1 - ?mmr)" "dmul D ?s (1 + ?mmr) = ?s * (1 + ?mmr)"
  proof -
    have "?s * \<bar>1 - ?mmr\<bar> \<le> ?s * 2" "?s * \<bar>1 + ?mmr\<bar> \<le> ?s * 2"
      using bd(4,5) by (intro mult_left_mono; simp)+
    then show "dmul D ?s (1 - ?mmr) = ?s * (1 - ?mmr)" "dmul D ?s (1 + ?mmr) = ?s * (1 + ?mmr)"
      using g bd(3) by (auto intro!: grid8_mul)
  qed
  define nu where "nu = (if 0 < ?q then ?e * ?s - wallet else wallet + ?s * ?e)"
  define de where "de = (if 0 < ?q then ?s * (1 - ?mmr) else ?s * (1 + ?mmr))"
  have "0 < ?s * (1 - ?mmr)" "?s * (1 - ?mmr) \<le> ?s * (1 + ?mmr)"
    using q bd(4,5) by (intro mult_pos_pos mult_left_mono; simp)+
  then have de: "0 < de" "?s * (1 - ?mmr) \<le> de"
    unfolding de_def by (cases "0 < ?q"; simp only: if_True if_False; linarith)+
  have "\<bar>?e * ?s\<bar> = ?s * \<bar>?e\<bar>" "\<bar>?s * ?e\<bar> = ?s * \<bar>?e\<bar>"
    by (simp_all add: abs_mult mult.commute)
  then have "\<bar>nu\<bar> \<le> ?s * \<bar>?e\<bar> + \<bar>wallet\<bar>"
    unfolding nu_def by (cases "0 < ?q"; simp only: if_True if_False; linarith)
  also have "\<dots> \<le> 10 ^ 18 * de"
    using quot mult_left_mono [OF de(2), of "10 ^ 18"] by simp
  finally have "\<bar>nu / de\<bar> \<le> 10 ^ 18" using de(1) by (simp add: pos_divide_le_eq)
  then have "\<bar>ddiv D nu de - nu / de\<bar> \<le> 1 / (2 * 10 ^ 10)" using de(1) by (intro div_near) auto
  then have "\<bar>ddiv D nu de - nu / de\<bar> \<le> 1 / 200000000" by (rule order_trans) simp
  moreover have "px = round_dp D (ddiv D nu de) 8"
    using lp unfolding liq_price_def Let_def m1 mm num den nu_def de_def
    by (auto simp: m1 mm num den split: if_splits)
  then have "\<bar>px - ddiv D nu de\<bar> \<le> 1 / 200000000"
    using order_trans [OF round_near [of "ddiv D nu de" 8], of "1 / 200000000"] by simp
  ultimately have "\<bar>px - nu / de\<bar> \<le> 1 / 100000000" by linarith
  moreover have "margin_balance pos wallet (nu / de) = maintenance_margin ?mmr pos (nu / de)"
    using q bd by (intro margin_root_unique) (auto simp: nu_def de_def)
  ultimately show ?thesis by (intro exI [of _ "nu / de"]) simp
qed

end

text \<open>
  C21: The liquidation price the model reports is, to eight digits, a mark price at which
  the margin balance (wallet plus unrealised profit) equals the maintenance margin, for
  long and short positions alike.
\<close>

theorem liq_price_solves_margin:
  assumes "decimal_arith D" "liq_bounds m pos wallet" "liq_price D m pos wallet = Some px"
  shows "\<exists>x. \<bar>px - x\<bar> \<le> 1 / 10 ^ 8 \<and>
    margin_balance pos wallet x = maintenance_margin (lc_maint_margin_rate (lm_cfg m)) pos x"
  using assms by (rule decimal_arith.liq_price_near)

definition eg_liq_model :: liquidation_model where
  "eg_liq_model = liquidation_new \<lparr>lc_leverage = 5, lc_maint_margin_rate = 1 / 2,
     lc_close_fee_bps = 5\<rparr>"

definition eg_long :: position where
  "eg_long = \<lparr>p_symbol = eg_symbol, p_size = 2, p_avg_entry = 100, p_realized_pnl = 0\<rparr>"

theorem liq_price_solves_margin_witness:
  "\<exists>x. \<bar>100 - x\<bar> \<le> 1 / 10 ^ 8 \<and> margin_balance eg_long 100 x = maintenance_margin (1 / 2) eg_long x"
proof -
  have b: "liq_bounds eg_liq_model eg_long 100"
    by (simp add: liq_bounds_def Let_def eg_liq_model_def liquidation_new_def eg_long_def
        on_grid_def [of _ "1 / 2"])
  have p: "liq_price exact_decimal eg_liq_model eg_long 100 = Some 100"
    by (simp add: liq_price_def Let_def eg_liq_model_def liquidation_new_def eg_long_def)
  show ?thesis
    using liq_price_solves_margin [OF exact.decimal_arith_axioms b p]
    by (simp add: eg_liq_model_def liquidation_new_def)
qed

text \<open>
  A forced close emitted by the checker flattens the position exactly, is priced at the
  liquidation price the mark has reached, and is counted once; when nothing is emitted the
  checker's state is unchanged.
\<close>

theorem liq_check_flattens:
  shows "case liq_check D nid m pos mark wallet ts of
      (None, m') \<Rightarrow> m' = m
    | (Some f, m') \<Rightarrow> p_size pos + side_delta (f_side f) (f_size f) = 0 \<and> 0 < f_size f
        \<and> liq_price D m pos wallet = Some (f_price f)
        \<and> (if 0 < p_size pos then mark \<le> f_price f else f_price f \<le> mark)
        \<and> m' = m\<lparr>lm_count := lm_count m + 1\<rparr>"
  by (auto simp: liq_check_def liq_price_def Let_def split: option.splits)

end
