(* ===== verification/Risk_Gate.thy ===== *)
theory Risk_Gate
  imports Strategy_Api Pnl
begin

text \<open>
  The pre-trade risk gate of \<open>crates/tikr-risk/src/gate.rs\<close>.  A decision's reason is the
  datatype of the arguments its \<open>format!\<close> takes; \<open>Persisted\<close> is a reason restored from a
  saved state.  \<open>gate_ev\<close> is one call on the gate: a check, a recorded fill or a cleared
  halt, and \<open>gate_run\<close> is a sequence of calls with the decisions it returned.
\<close>

datatype halt_reason =
  MaxDrawdown notional notional
| MaxFillsPerMinute nat u32
| MaxPositionSize rat rat
| MaxOpenNotional rat rat
| Persisted string

record risk_context =
  rx_position :: position
  rx_pnl :: pnl_report
  rx_now :: timestamp

text \<open>\<open>Reject\<close> is \<open>"halted: <reason>"\<close>, with \<open>None\<close> for \<open>"unknown"\<close>.\<close>

datatype risk_decision = Allow | Reject "halt_reason option" | Halt halt_reason

record risk_limits =
  rl_max_position_size :: "signed_size option"
  rl_max_open_notional :: "notional option"
  rl_max_drawdown :: "notional option"
  rl_max_fills_per_minute :: "u32 option"

record risk_state =
  rs_halted :: bool
  rs_halt_reason :: "halt_reason option"
  rs_recent_fill_window :: "u64 list"

record risk_gate =
  rg_limits :: risk_limits
  rg_state :: risk_state

definition gate_new :: "risk_limits \<Rightarrow> risk_gate" where
  "gate_new l = \<lparr>rg_limits = l,
     rg_state = \<lparr>rs_halted = False, rs_halt_reason = None, rs_recent_fill_window = []\<rparr>\<rparr>"

definition gate_from_state :: "risk_limits \<Rightarrow> risk_state \<Rightarrow> risk_gate" where
  "gate_from_state l s = \<lparr>rg_limits = l, rg_state = s\<rparr>"

fun action_intent :: "action \<Rightarrow> quote_intent option" where
  "action_intent (Quote i) = Some i"
| "action_intent (Requote _ i) = Some i"
| "action_intent (Cancel _) = None"
| "action_intent CancelAll = None"
| "action_intent NoOp = None"

definition halt_with :: "risk_gate \<Rightarrow> halt_reason \<Rightarrow> risk_decision \<times> risk_gate" where
  "halt_with g r = (Halt r, g\<lparr>rg_state := rg_state g\<lparr>rs_halted := True, rs_halt_reason := Some r\<rparr>\<rparr>)"

definition fill_cutoff :: "timestamp \<Rightarrow> u64" where
  "fill_cutoff now = sat_sub now 60000000000"

text \<open>The four limit tests of \<open>check\<close>, each with the reason it halts for.\<close>

definition drawdown_breach :: "risk_limits \<Rightarrow> risk_context \<Rightarrow> halt_reason option" where
  "drawdown_breach l c = (case rl_max_drawdown l of
     Some t \<Rightarrow> if pr_net (rx_pnl c) \<le> t then Some (MaxDrawdown (pr_net (rx_pnl c)) t) else None
   | None \<Rightarrow> None)"

definition rate_breach :: "risk_limits \<Rightarrow> u64 list \<Rightarrow> halt_reason option" where
  "rate_breach l window = (case rl_max_fills_per_minute l of
     Some n \<Rightarrow> if unat n < length window then Some (MaxFillsPerMinute (length window) n) else None
   | None \<Rightarrow> None)"

definition position_breach :: "risk_limits \<Rightarrow> rat \<Rightarrow> halt_reason option" where
  "position_breach l post_size = (case rl_max_position_size l of
     Some m \<Rightarrow> if \<bar>m\<bar> < \<bar>post_size\<bar> then Some (MaxPositionSize \<bar>post_size\<bar> \<bar>m\<bar>) else None
   | None \<Rightarrow> None)"

definition notional_breach ::
    "decimal_ops \<Rightarrow> risk_limits \<Rightarrow> rat \<Rightarrow> quote_intent \<Rightarrow> halt_reason option" where
  "notional_breach D l post_size i = (case rl_max_open_notional l of
     Some m \<Rightarrow> (let n = dmul D \<bar>post_size\<bar> (qi_price i)
                in if m < n then Some (MaxOpenNotional n m) else None)
   | None \<Rightarrow> None)"

definition post_action_size :: "decimal_ops \<Rightarrow> risk_context \<Rightarrow> quote_intent \<Rightarrow> rat" where
  "post_action_size D c i = dadd D (p_size (rx_position c)) (side_delta (qi_side i) (qi_size i))"

definition prune_window :: "risk_gate \<Rightarrow> timestamp \<Rightarrow> risk_gate" where
  "prune_window g now = g\<lparr>rg_state := rg_state g\<lparr>rs_recent_fill_window :=
     filter (\<lambda>ts. fill_cutoff now \<le> ts) (rs_recent_fill_window (rg_state g))\<rparr>\<rparr>"

definition gate_check ::
    "decimal_ops \<Rightarrow> risk_gate \<Rightarrow> action \<Rightarrow> risk_context \<Rightarrow> risk_decision \<times> risk_gate" where
  "gate_check D g a c =
     (if rs_halted (rg_state g) then (Reject (rs_halt_reason (rg_state g)), g)
      else
        let g1 = prune_window g (rx_now c); l = rg_limits g
        in case drawdown_breach l c of Some r \<Rightarrow> halt_with g1 r | None \<Rightarrow>
           (case rate_breach l (rs_recent_fill_window (rg_state g1)) of Some r \<Rightarrow> halt_with g1 r
            | None \<Rightarrow>
              (case action_intent a of None \<Rightarrow> (Allow, g1)
               | Some i \<Rightarrow>
                   let post_size = post_action_size D c i
                   in case position_breach l post_size of Some r \<Rightarrow> halt_with g1 r | None \<Rightarrow>
                      (case notional_breach D l post_size i of Some r \<Rightarrow> halt_with g1 r
                       | None \<Rightarrow> (Allow, g1)))))"

definition record_fill :: "risk_gate \<Rightarrow> timestamp \<Rightarrow> risk_gate" where
  "record_fill g ts = g\<lparr>rg_state := rg_state g\<lparr>rs_recent_fill_window :=
     rs_recent_fill_window (rg_state g) @ [ts]\<rparr>\<rparr>"

definition clear_halt :: "risk_gate \<Rightarrow> risk_gate" where
  "clear_halt g = g\<lparr>rg_state := rg_state g\<lparr>rs_halted := False, rs_halt_reason := None\<rparr>\<rparr>"

subsection \<open>Sequences of calls\<close>

datatype gate_ev = EvCheck action risk_context | EvFill timestamp | EvClear

fun gate_step :: "decimal_ops \<Rightarrow> risk_gate \<Rightarrow> gate_ev \<Rightarrow> risk_decision option \<times> risk_gate" where
  "gate_step D g (EvCheck a c) = (let (d, g') = gate_check D g a c in (Some d, g'))"
| "gate_step D g (EvFill ts) = (None, record_fill g ts)"
| "gate_step D g EvClear = (None, clear_halt g)"

fun gate_run :: "decimal_ops \<Rightarrow> risk_gate \<Rightarrow> gate_ev list \<Rightarrow> risk_decision option list \<times> risk_gate" where
  "gate_run D g [] = ([], g)"
| "gate_run D g (e # es) =
     (let (d, g1) = gate_step D g e; (ds, g2) = gate_run D g1 es in (d # ds, g2))"

inductive gate_reachable :: "decimal_ops \<Rightarrow> risk_limits \<Rightarrow> risk_gate \<Rightarrow> bool" for D l where
  fresh: "gate_reachable D l (gate_new l)"
| step: "gate_reachable D l g \<Longrightarrow> gate_reachable D l (snd (gate_step D g e))"

inductive_cases gate_reachable_E: "gate_reachable D l g"

definition gate_inv :: "risk_limits \<Rightarrow> risk_gate \<Rightarrow> bool" where
  "gate_inv l g \<longleftrightarrow> rg_limits g = l \<and> (rs_halted (rg_state g) \<longleftrightarrow> rs_halt_reason (rg_state g) \<noteq> None)"

lemmas gate_ops = halt_with_def prune_window_def record_fill_def clear_halt_def

lemma gate_check_halted:
  "rs_halted (rg_state g) \<Longrightarrow> gate_check D g a c = (Reject (rs_halt_reason (rg_state g)), g)"
  by (simp add: gate_check_def)

lemma gate_check_state:
  assumes "\<not> rs_halted (rg_state g)"
  shows "snd (gate_check D g a c) = prune_window g (rx_now c)
    \<or> (\<exists>r. snd (gate_check D g a c) = snd (halt_with (prune_window g (rx_now c)) r)
         \<and> fst (gate_check D g a c) = Halt r)"
  using assms
  by (auto simp: gate_check_def Let_def halt_with_def split: option.splits)

lemma gate_step_inv: "gate_inv l g \<Longrightarrow> gate_inv l (snd (gate_step D g e))"
proof (cases e)
  case (EvCheck a c)
  assume inv: "gate_inv l g"
  show ?thesis
  proof (cases "rs_halted (rg_state g)")
    case True
    with inv EvCheck show ?thesis by (simp add: gate_check_halted)
  next
    case False
    from gate_check_state [OF this, of D a c] inv False EvCheck show ?thesis
      by (auto simp: gate_inv_def gate_ops split: prod.splits)
  qed
qed (auto simp: gate_inv_def gate_ops)

lemma gate_reachable_inv: "gate_reachable D l g \<Longrightarrow> gate_inv l g"
proof (induction rule: gate_reachable.induct)
  case fresh
  show ?case by (simp add: gate_inv_def gate_new_def)
next
  case (step g e)
  from step.IH show ?case by (rule gate_step_inv)
qed

lemma snd_gate_run_Cons [simp]:
  "snd (gate_run D g (e # es)) = snd (gate_run D (snd (gate_step D g e)) es)"
  by (simp add: case_prod_unfold Let_def)

declare gate_run.simps(2) [simp del]

lemma fst_gate_run_Cons [simp]:
  "fst (gate_run D g (e # es)) =
     fst (gate_step D g e) # fst (gate_run D (snd (gate_step D g e)) es)"
  by (simp add: gate_run.simps case_prod_unfold Let_def)

lemma gate_run_reachable:
  "gate_reachable D l g \<Longrightarrow> gate_reachable D l (snd (gate_run D g es))"
  by (induction es arbitrary: g) (simp_all add: gate_reachable.step)

lemma gate_run_append:
  "snd (gate_run D g (es @ fs)) = snd (gate_run D (snd (gate_run D g es)) fs)"
  by (induction es arbitrary: g) simp_all

lemma halted_step:
  assumes "rs_halted (rg_state g)" "e \<noteq> EvClear"
  shows "rs_halted (rg_state (snd (gate_step D g e)))"
    and "rs_halt_reason (rg_state (snd (gate_step D g e))) = rs_halt_reason (rg_state g)"
    and "fst (gate_step D g e) \<in> {None, Some (Reject (rs_halt_reason (rg_state g)))}"
  using assms by (cases e; simp add: gate_check_halted record_fill_def)+

lemma halted_run:
  "rs_halted (rg_state g) \<Longrightarrow> EvClear \<notin> set es \<Longrightarrow>
     rs_halted (rg_state (snd (gate_run D g es)))
     \<and> set (fst (gate_run D g es)) \<subseteq> {None, Some (Reject (rs_halt_reason (rg_state g)))}"
proof (induction es arbitrary: g)
  case (Cons e es)
  then have e: "e \<noteq> EvClear" by auto
  note h = halted_step [OF Cons.prems(1) e, of D]
  show ?case
    using Cons.IH [OF h(1)] Cons.prems(2) h(2,3) by auto
qed simp

subsection \<open>The abstract specification of a check\<close>

text \<open>
  What the operator configured, without the gate's state: the account is above its drawdown
  threshold, the last minute saw at most the allowed fills, and the position the order
  would lead to is within both position limits.
\<close>

definition within_limits ::
    "decimal_ops \<Rightarrow> risk_limits \<Rightarrow> u64 list \<Rightarrow> action \<Rightarrow> risk_context \<Rightarrow> bool" where
  "within_limits D l fills a c \<longleftrightarrow>
     (\<forall>t. rl_max_drawdown l = Some t \<longrightarrow> t < pr_net (rx_pnl c)) \<and>
     (\<forall>n. rl_max_fills_per_minute l = Some n \<longrightarrow>
        length (filter (\<lambda>ts. fill_cutoff (rx_now c) \<le> ts) fills) \<le> unat n) \<and>
     (\<forall>i. action_intent a = Some i \<longrightarrow>
        (\<forall>m. rl_max_position_size l = Some m \<longrightarrow> \<bar>post_action_size D c i\<bar> \<le> \<bar>m\<bar>) \<and>
        (\<forall>m. rl_max_open_notional l = Some m \<longrightarrow>
           dmul D \<bar>post_action_size D c i\<bar> (qi_price i) \<le> m))"

lemmas breach_defs =
  drawdown_breach_def rate_breach_def position_breach_def notional_breach_def

lemma gate_check_iff:
  assumes "\<not> rs_halted (rg_state g)"
  shows "fst (gate_check D g a c) = Allow \<longleftrightarrow>
    within_limits D (rg_limits g) (rs_recent_fill_window (rg_state g)) a c"
  using assms
  by (auto simp: gate_check_def within_limits_def breach_defs prune_window_def halt_with_def
      Let_def not_less not_le split: option.splits if_splits)

text \<open>
  C14: The gate implements its specification: a check is allowed exactly when the gate is not
  halted and the account, the fill rate and the position the order would lead to are within
  every configured limit; any other check is a reject (halted before) or a halt (now).
\<close>

theorem gate_check_refines_limits:
  "(fst (gate_check D g a c) = Allow \<longleftrightarrow> \<not> rs_halted (rg_state g) \<and>
      within_limits D (rg_limits g) (rs_recent_fill_window (rg_state g)) a c)
   \<and> (rs_halted (rg_state (snd (gate_check D g a c))) \<longleftrightarrow> fst (gate_check D g a c) \<noteq> Allow)"
proof (cases "rs_halted (rg_state g)")
  case True
  then show ?thesis by (simp add: gate_check_halted)
next
  case False
  have "rs_halted (rg_state (snd (gate_check D g a c))) \<longleftrightarrow> fst (gate_check D g a c) \<noteq> Allow"
    using False by (auto simp: gate_check_def halt_with_def prune_window_def Let_def
        split: option.splits)
  with gate_check_iff [OF False, of D a c] False show ?thesis by simp
qed

text \<open>
  A halt is sticky: once a check has halted the gate, every later check is rejected with
  the original reason, through any sequence of checks and recorded fills, until the halt is
  cleared; then the gate runs again under the limits it was built with.
\<close>

theorem gate_halt_sticky:
  assumes "gate_reachable D l g" "fst (gate_check D g a c) = Halt r" "EvClear \<notin> set es"
  shows "set (fst (gate_run D (snd (gate_check D g a c)) es)) \<subseteq> {None, Some (Reject (Some r))}
    \<and> gate_inv l (snd (gate_run D (snd (gate_check D g a c)) (es @ [EvClear])))
    \<and> \<not> rs_halted (rg_state (snd (gate_run D (snd (gate_check D g a c)) (es @ [EvClear]))))"
proof (intro conjI)
  have nh: "\<not> rs_halted (rg_state g)"
    using assms(2) by (auto simp: gate_check_halted)
  have "rs_halted (rg_state (snd (gate_check D g a c)))"
      "rs_halt_reason (rg_state (snd (gate_check D g a c))) = Some r"
    using gate_check_state [OF nh, of D a c] assms(2) nh
    by (auto simp: halt_with_def gate_check_def Let_def split: option.splits)
  with halted_run [of "snd (gate_check D g a c)" es D] assms(3)
  show "set (fst (gate_run D (snd (gate_check D g a c)) es)) \<subseteq> {None, Some (Reject (Some r))}"
    by auto
  have "gate_reachable D l (snd (gate_run D g ([EvCheck a c] @ es @ [EvClear])))"
    using assms(1) by (rule gate_run_reachable)
  then have "gate_inv l (snd (gate_run D g ([EvCheck a c] @ es @ [EvClear])))"
    by (rule gate_reachable_inv)
  then show "gate_inv l (snd (gate_run D (snd (gate_check D g a c)) (es @ [EvClear])))"
    by (simp add: case_prod_unfold Let_def)
  show "\<not> rs_halted (rg_state (snd (gate_run D (snd (gate_check D g a c)) (es @ [EvClear]))))"
    by (simp add: gate_run_append clear_halt_def)
qed

subsection \<open>The fill window\<close>

fun recorded :: "gate_ev list \<Rightarrow> u64 list" where
  "recorded [] = []"
| "recorded (EvFill ts # es) = ts # recorded es"
| "recorded (EvCheck a c # es) = recorded es"
| "recorded (EvClear # es) = recorded es"

fun check_time :: "gate_ev \<Rightarrow> timestamp option" where
  "check_time (EvCheck a c) = Some (rx_now c)"
| "check_time (EvFill ts) = None"
| "check_time EvClear = None"

abbreviation window :: "risk_gate \<Rightarrow> u64 list" where
  "window g \<equiv> rs_recent_fill_window (rg_state g)"

definition in_window :: "timestamp \<Rightarrow> u64 list \<Rightarrow> u64 list" where
  "in_window now xs = filter (\<lambda>ts. fill_cutoff now \<le> ts) xs"

lemma fill_cutoff_mono: "t \<le> now \<Longrightarrow> fill_cutoff t \<le> fill_cutoff now"
  by (simp add: fill_cutoff_def word_le_nat_alt saturating)

lemma in_window_prune:
  "t \<le> now \<Longrightarrow> in_window now (filter (\<lambda>ts. fill_cutoff t \<le> ts) xs) = in_window now xs"
  using fill_cutoff_mono [of t now]
  by (auto simp: in_window_def intro!: filter_cong)

lemma in_window_step:
  assumes "\<forall>t. check_time e = Some t \<longrightarrow> t \<le> now"
  shows "in_window now (window (snd (gate_step D g e))) = in_window now (window g @ recorded [e])"
proof (cases e)
  case (EvCheck a c)
  with assms have t: "rx_now c \<le> now" by simp
  show ?thesis
  proof (cases "rs_halted (rg_state g)")
    case True
    with EvCheck show ?thesis by (simp add: gate_check_halted)
  next
    case False
    from gate_check_state [OF this, of D a c] EvCheck in_window_prune [OF t, of "window g"]
    show ?thesis by (auto simp: gate_ops case_prod_unfold Let_def)
  qed
qed (simp_all add: record_fill_def clear_halt_def in_window_def)

lemma in_window_run:
  assumes "\<forall>e \<in> set es. \<forall>t. check_time e = Some t \<longrightarrow> t \<le> now"
  shows "in_window now (window (snd (gate_run D g es))) = in_window now (window g @ recorded es)"
  using assms
proof (induction es arbitrary: g)
  case (Cons e es)
  have "in_window now (window (snd (gate_step D g e)) @ recorded es)
      = in_window now (window g @ recorded (e # es))"
    using in_window_step [of e now D g] Cons.prems by (cases e) (simp_all add: in_window_def)
  with Cons show ?case by simp
qed simp

text \<open>
  C20: The rate limit counts exactly the fills of the last minute: whatever was pruned by the
  checks before, a check at a time no earlier than the previous ones is allowed only when at
  most the configured number of all recorded fills are not older than one minute, although the
  gate keeps a pruned window and never the history.
\<close>

theorem gate_rate_limit_exact:
  assumes "\<forall>e \<in> set es. \<forall>t. check_time e = Some t \<longrightarrow> t \<le> rx_now c"
    and "rl_max_fills_per_minute l = Some n"
    and "fst (gate_check D (snd (gate_run D (gate_new l) es)) a c) = Allow"
  shows "length (filter (\<lambda>ts. sat_sub (rx_now c) 60000000000 \<le> ts) (recorded es)) \<le> unat n"
proof -
  let ?g = "snd (gate_run D (gate_new l) es)"
  have "gate_inv l ?g"
    by (intro gate_reachable_inv [of D] gate_run_reachable gate_reachable.fresh)
  then have l: "rg_limits ?g = l" by (simp add: gate_inv_def)
  from assms(3) have "\<not> rs_halted (rg_state ?g)"
    by (auto simp: gate_check_halted)
  from gate_check_iff [OF this, of D a c] assms(2,3) l
  have "length (in_window (rx_now c) (window ?g)) \<le> unat n"
    by (simp add: within_limits_def in_window_def)
  with in_window_run [OF assms(1), of D "gate_new l"] show ?thesis
    by (simp add: in_window_def gate_new_def fill_cutoff_def)
qed

subsection \<open>Witnesses\<close>

definition eg_limits :: risk_limits where
  "eg_limits = \<lparr>rl_max_position_size = Some 5, rl_max_open_notional = Some 1000,
     rl_max_drawdown = Some (-50), rl_max_fills_per_minute = Some 1\<rparr>"

definition eg_risk_context :: "timestamp \<Rightarrow> notional \<Rightarrow> risk_context" where
  "eg_risk_context now net = \<lparr>rx_position = \<lparr>p_symbol = eg_symbol, p_size = 4, p_avg_entry = 10,
       p_realized_pnl = 0\<rparr>,
     rx_pnl = \<lparr>pr_realized = 0, pr_unrealized = 0, pr_fees = 0, pr_funding = 0,
       pr_net = net\<rparr>, rx_now = now\<rparr>"

definition eg_order :: action where
  "eg_order = Quote \<lparr>qi_symbol = eg_symbol, qi_side = Bid, qi_price = 10, qi_size = 1,
     qi_tif = PostOnly, qi_kind = Point\<rparr>"

lemmas eg_gate_defs = eg_limits_def eg_risk_context_def eg_order_def eg_symbol_def gate_new_def
  gate_check_def breach_defs gate_ops Let_def fill_cutoff_def sat_sub_def post_action_size_def

lemma gate_halt_sticky_witness:
  "set (fst (gate_run rust_decimal
      (snd (gate_check rust_decimal (gate_new eg_limits) CancelAll (eg_risk_context 5 (-60))))
      [EvFill 6, EvCheck eg_order (eg_risk_context 7 0)]))
   \<subseteq> {None, Some (Reject (Some (MaxDrawdown (-60) (-50))))}"
  using gate_halt_sticky [OF gate_reachable.fresh, of rust_decimal eg_limits CancelAll
      "eg_risk_context 5 (-60)" "MaxDrawdown (-60) (-50)" "[EvFill 6, EvCheck eg_order (eg_risk_context 7 0)]"]
  by (simp add: eg_gate_defs)

lemma gate_rate_limit_exact_witness:
  "length (filter (\<lambda>ts. sat_sub 70000000000 60000000000 \<le> ts)
      (recorded [EvFill 6, EvFill 7, EvCheck CancelAll (eg_risk_context 69000000000 0),
        EvFill 69000000000])) \<le> unat (1 :: u32)"
  using gate_rate_limit_exact [of "[EvFill 6, EvFill 7, EvCheck CancelAll (eg_risk_context 69000000000 0),
        EvFill 69000000000]" "eg_risk_context 70000000000 0" eg_limits 1 rust_decimal CancelAll]
  by (simp add: eg_gate_defs)

end
