(* ===== verification/Book_State.thy ===== *)
theory Book_State
  imports Core "HOL-Library.AList" "HOL-Library.Multiset"
begin

text \<open>
  The per-symbol book aggregates of \<open>crates/tikr-backtest/src/fill_sim.rs\<close> (\<open>BookState\<close>).
  A \<open>HashMap\<close> from prices to sizes is an association list in the map's iteration order,
  which the language leaves open; \<open>walk_order_free\<close> shows that the walk does not depend on
  it.  The cached top of the book is a field of its own, as in the code: only a snapshot
  refreshes it.
\<close>

type_synonym levels = "(price \<times> rat) list"

record book_state =
  bs_bids :: levels
  bs_asks :: levels
  bs_best_bid :: "price option"
  bs_best_ask :: "price option"

definition book_default :: book_state where
  "book_default = \<lparr>bs_bids = [], bs_asks = [], bs_best_bid = None, bs_best_ask = None\<rparr>"

definition set_top :: "book_state \<Rightarrow> price option \<Rightarrow> price option \<Rightarrow> book_state" where
  "set_top b bid ask = b\<lparr>bs_best_bid := bid, bs_best_ask := ask\<rparr>"

definition side_map :: "book_state \<Rightarrow> side \<Rightarrow> levels" where
  "side_map b s = (case s of Bid \<Rightarrow> bs_bids b | Ask \<Rightarrow> bs_asks b)"

definition with_side :: "book_state \<Rightarrow> side \<Rightarrow> levels \<Rightarrow> book_state" where
  "with_side b s m = (case s of Bid \<Rightarrow> b\<lparr>bs_bids := m\<rparr> | Ask \<Rightarrow> b\<lparr>bs_asks := m\<rparr>)"

definition size_at :: "levels \<Rightarrow> price \<Rightarrow> rat" where
  "size_at m p = (case map_of m p of Some v \<Rightarrow> v | None \<Rightarrow> 0)"

definition level_size :: "book_state \<Rightarrow> side \<Rightarrow> price \<Rightarrow> rat" where
  "level_size b s p = size_at (side_map b s) p"

definition decrement_level ::
    "decimal_ops \<Rightarrow> book_state \<Rightarrow> side \<Rightarrow> price \<Rightarrow> rat \<Rightarrow> book_state" where
  "decrement_level D b s p amt = (case map_of (side_map b s) p of
     None \<Rightarrow> b
   | Some v \<Rightarrow> (let v' = dsub D v amt
               in if v' \<le> 0 then with_side b s (AList.delete p (side_map b s))
                  else with_side b s (AList.update p v' (side_map b s))))"

definition opposite :: "side \<Rightarrow> side" where
  "opposite s = (case s of Bid \<Rightarrow> Ask | Ask \<Rightarrow> Bid)"

definition breaches :: "side \<Rightarrow> price \<Rightarrow> price \<Rightarrow> bool" where
  "breaches s limit p = (case s of Bid \<Rightarrow> limit < p | Ask \<Rightarrow> p < limit)"

fun walk_levels :: "decimal_ops \<Rightarrow> side \<Rightarrow> price \<Rightarrow> rat \<Rightarrow> levels \<Rightarrow> levels" where
  "walk_levels D s limit remaining [] = []"
| "walk_levels D s limit remaining ((p, sz) # ls) =
     (if remaining \<le> 0 then []
      else if breaches s limit p then []
      else let take = min remaining sz
           in if 0 < take then (p, take) # walk_levels D s limit (dsub D remaining take) ls
              else walk_levels D s limit remaining ls)"

definition walk_key :: "side \<Rightarrow> price \<Rightarrow> rat" where
  "walk_key s p = (case s of Bid \<Rightarrow> p | Ask \<Rightarrow> - p)"

definition walk_sorted :: "side \<Rightarrow> levels \<Rightarrow> levels" where
  "walk_sorted s m = sort_key (\<lambda>(p, sz). walk_key s p) m"

definition walk_book_ioc :: "decimal_ops \<Rightarrow> book_state \<Rightarrow> side \<Rightarrow> rat \<Rightarrow> price \<Rightarrow> levels" where
  "walk_book_ioc D b taker sz limit =
     (let m = side_map b (opposite taker)
      in if m = [] \<or> sz \<le> 0 then []
         else walk_levels D taker limit sz (walk_sorted taker m))"

lemma opposite_simps [simp]: "opposite Bid = Ask" "opposite Ask = Bid"
  by (simp_all add: opposite_def)

lemma opposite_opposite [simp]: "opposite (opposite s) = s"
  by (cases s) simp_all

lemma walk_key_breaches: "breaches s limit p \<longleftrightarrow> walk_key s limit < walk_key s p"
  by (cases s) (auto simp: breaches_def walk_key_def)

lemma inj_walk_key: "walk_key s p = walk_key s q \<longleftrightarrow> p = q"
  by (cases s) (auto simp: walk_key_def)

lemma side_map_with_side [simp]:
  "side_map (with_side b s m) s' = (if s = s' then m else side_map b s')"
  by (cases s; cases s') (simp_all add: side_map_def with_side_def)

lemma with_side_tops [simp]:
  "bs_best_bid (with_side b s m) = bs_best_bid b" "bs_best_ask (with_side b s m) = bs_best_ask b"
  by (cases s; simp add: with_side_def)+

definition book_ok :: "book_state \<Rightarrow> bool" where
  "book_ok b \<longleftrightarrow> distinct (map fst (bs_bids b)) \<and> distinct (map fst (bs_asks b))"

lemma book_ok_side: "book_ok b \<longleftrightarrow> (\<forall>s. distinct (map fst (side_map b s)))"
  unfolding book_ok_def side_map_def by (metis (full_types) side.exhaust side.simps(3,4))

lemma book_ok_default [simp]: "book_ok book_default"
  by (simp add: book_ok_def book_default_def)

lemma book_ok_decrement: "book_ok b \<Longrightarrow> book_ok (decrement_level D b s p amt)"
  by (auto simp: book_ok_side decrement_level_def Let_def distinct_update AList.distinct_delete
      split: option.splits)

text \<open>A decrement changes no level but its own, and removes a level it empties.\<close>

lemma level_size_decrement:
  "level_size (decrement_level D b s p amt) s' p' =
    (if s' = s \<and> p' = p \<and> map_of (side_map b s) p \<noteq> None
     then max 0 (dsub D (level_size b s p) amt) else level_size b s' p')"
  by (auto simp: level_size_def size_at_def decrement_level_def Let_def AList.delete_conv'
      AList.update_conv' max_def split: option.splits)

lemma decrement_tops [simp]:
  "bs_best_bid (decrement_level D b s p amt) = bs_best_bid b"
  "bs_best_ask (decrement_level D b s p amt) = bs_best_ask b"
  by (simp_all add: decrement_level_def Let_def split: option.splits)

subsection \<open>The walk\<close>

text \<open>\<open>liquidity\<close> is what the book offers a taker within its limit price.\<close>

definition liquidity :: "side \<Rightarrow> price \<Rightarrow> levels \<Rightarrow> rat" where
  "liquidity s limit m = (\<Sum>(p, sz) \<leftarrow> m. if breaches s limit p then 0 else sz)"

definition levels_ok :: "nat \<Rightarrow> levels \<Rightarrow> bool" where
  "levels_ok n m \<longleftrightarrow> distinct (map fst m) \<and> (\<forall>(p, sz) \<in> set m. amount n sz)"

abbreviation by_key :: "side \<Rightarrow> price \<times> rat \<Rightarrow> rat" where
  "by_key s \<equiv> (\<lambda>(p, sz). walk_key s p)"

lemma liquidity_simps [simp]:
  "liquidity s limit [] = 0"
  "liquidity s limit ((p, sz) # m) = (if breaches s limit p then 0 else sz) + liquidity s limit m"
  by (simp_all add: liquidity_def)

lemma liquidity_nonneg: "\<forall>(p, sz) \<in> set m. amount n sz \<Longrightarrow> 0 \<le> liquidity s limit m"
  by (induction m) (auto simp: amount_nonneg add_nonneg_nonneg)

lemma liquidity_sorted [simp]: "liquidity s limit (walk_sorted s' m) = liquidity s limit m"
proof -
  have "mset (map f (walk_sorted s' m)) = mset (map f m)" for f :: "price \<times> rat \<Rightarrow> rat"
    by (simp add: walk_sorted_def)
  then show ?thesis unfolding liquidity_def by (metis sum_mset_sum_list)
qed

lemma set_walk_sorted [simp]: "set (walk_sorted s m) = set m"
  by (simp add: walk_sorted_def)

lemma sorted_walk_sorted: "sorted (map (by_key s) (walk_sorted s m))"
  by (simp add: walk_sorted_def)

lemma liquidity_beyond:
  assumes "sorted (map (by_key s) ((p, sz) # ls))" "breaches s limit p"
  shows "liquidity s limit ls = 0"
proof -
  have "\<forall>(q, v) \<in> set ls. breaches s limit q"
    using assms by (fastforce simp: walk_key_breaches)
  then show ?thesis by (induction ls) auto
qed

lemma walk_levels_total:
  assumes D: "decimal_arith D" and "sorted (map (by_key s) ls)"
    "\<forall>(p, sz) \<in> set ls. amount n sz" "amount n remaining"
  shows "sum_list (map snd (walk_levels D s limit remaining ls)) = min remaining (liquidity s limit ls)"
  using assms(2-)
proof (induction ls arbitrary: remaining)
  case Nil
  then show ?case by (simp add: amount_nonneg)
next
  case (Cons l ls)
  obtain p sz where l: "l = (p, sz)" by (cases l)
  let ?take = "min remaining sz"
  have nn: "0 \<le> liquidity s limit ls"
    using Cons.prems(2) by (intro liquidity_nonneg) auto
  have a: "amount n sz" "amount n ?take" using Cons.prems l by auto
  have d: "dsub D remaining ?take = remaining - ?take"
    using decimal_arith.sub_amount [OF D Cons.prems(3) a(2)] by simp
  have IH: "sum_list (map snd (walk_levels D s limit r ls)) = min r (liquidity s limit ls)"
    if "amount n r" for r
    using that Cons.prems(1,2) by (intro Cons.IH) (auto simp: l)
  show ?case
  proof (cases "remaining \<le> 0 \<or> breaches s limit p")
    case True
    then show ?thesis
      using liquidity_beyond [of s p sz ls limit] Cons.prems nn amount_nonneg [OF a(1)]
        amount_nonneg [OF Cons.prems(3)] l by auto
  next
    case False
    have r: "amount n (remaining - ?take)"
      using Cons.prems(3) a(2) by (rule amount_diff) simp
    show ?thesis
      using False l d IH [OF r] IH [OF Cons.prems(3)] amount_nonneg [OF a(1)] nn
      by (auto simp: Let_def min_def not_less)
  qed
qed

lemma walk_levels_subset:
  "(p, q) \<in> set (walk_levels D s limit remaining ls) \<Longrightarrow>
     \<exists>sz. (p, sz) \<in> set ls \<and> 0 < q \<and> q \<le> sz \<and> \<not> breaches s limit p"
  by (induction D s limit remaining ls rule: walk_levels.induct)
    (auto simp: Let_def split: if_splits)

lemma sorted_walk_levels:
  "sorted (map (by_key s) ls) \<Longrightarrow> sorted (map (by_key s) (walk_levels D s limit remaining ls))"
  by (induction D s limit remaining ls rule: walk_levels.induct)
    (auto simp: Let_def dest!: walk_levels_subset)

lemma walk_order_free:
  assumes "distinct (map fst m)" "mset m = mset m'"
  shows "walk_sorted s m = walk_sorted s m'"
proof -
  have "inj_on (by_key s) (set m)"
    using assms(1) by (auto simp: inj_on_def inj_walk_key eq_key_imp_eq_value)
  then show ?thesis
    unfolding walk_sorted_def using assms(2)
    by (intro sort_key_inj_key_eq) auto
qed

lemma walk_levels_nonempty: "(p, q) \<in> set (walk_levels D s limit remaining ls) \<Longrightarrow> 0 < remaining"
  by (cases ls) (auto split: if_splits simp: not_le)

lemma walk_levels_priority:
  assumes D: "decimal_arith D" and "sorted (map (by_key s) ls)"
    "\<forall>(p, sz) \<in> set ls. amount n sz" "amount n remaining"
    "(p, q) \<in> set (walk_levels D s limit remaining ls)"
    "(p', v) \<in> set ls" "walk_key s p' < walk_key s p" "0 < v"
  shows "(p', v) \<in> set (walk_levels D s limit remaining ls)"
  using assms(2-)
proof (induction ls arbitrary: remaining)
  case (Cons l ls)
  obtain p0 sz where l: "l = (p0, sz)" by (cases l)
  let ?take = "min remaining sz"
  have a: "amount n sz" "amount n ?take" using Cons.prems(2,3) l by auto
  have d: "dsub D remaining ?take = remaining - ?take"
    using decimal_arith.sub_amount [OF D Cons.prems(3) a(2)] by simp
  have r: "amount n (remaining - ?take)"
    using Cons.prems(3) a(2) by (rule amount_diff) simp
  have step: "0 < remaining" "\<not> breaches s limit p0"
    using Cons.prems(4) l by (auto split: if_splits simp: not_le)
  have IH: "(p', v) \<in> set (walk_levels D s limit r' ls)"
    if "amount n r'" "(p, q) \<in> set (walk_levels D s limit r' ls)" "(p', v) \<in> set ls" for r'
    using Cons.prems(1,2,6,7) that by (intro Cons.IH) (auto simp: l)
  have head: "walk_key s p0 \<le> walk_key s p'" if "(p', v) \<in> set ls"
    using Cons.prems(1) that l by fastforce
  have tail: "0 < remaining - ?take" if "(p, q) \<in> set (walk_levels D s limit (remaining - ?take) ls)"
    using walk_levels_nonempty [OF that] .
  show ?case
    using Cons.prems(4,5,6,7) step l d head tail IH [OF r] IH [OF Cons.prems(3)]
    by (auto simp: Let_def not_less min_def split: if_splits)
qed simp

text \<open>
  C15: An immediate order takes the best prices the book offers: the total is the smaller of
  the order's size and the liquidity within its limit price, every level is taken within the
  limit and up to its size, no level is touched while a better one has size left, and the
  outcome does not depend on the iteration order of the hash map.
\<close>

theorem walk_takes_best:
  assumes D: "decimal_arith D" and m: "levels_ok n (side_map b (opposite s))" and sz: "amount n sz"
    and c: "c = walk_book_ioc D b s sz limit"
  shows "sum_list (map snd c) = min sz (liquidity s limit (side_map b (opposite s)))
    \<and> (\<forall>(p, q) \<in> set c. \<not> breaches s limit p \<and> 0 < q \<and> q \<le> level_size b (opposite s) p)
    \<and> (\<forall>(p, q) \<in> set c. \<forall>(p', v) \<in> set (side_map b (opposite s)).
         walk_key s p' < walk_key s p \<and> 0 < v \<longrightarrow> (p', v) \<in> set c)
    \<and> (\<forall>m'. mset m' = mset (side_map b (opposite s)) \<longrightarrow>
         walk_book_ioc D (with_side b (opposite s) m') s sz limit = c)"
proof (intro conjI)
  let ?m = "side_map b (opposite s)"
  have am: "\<forall>(p, v) \<in> set (walk_sorted s ?m). amount n v" using m by (auto simp: levels_ok_def)
  have ams: "\<forall>(p, v) \<in> set ?m. amount n v" using m by (auto simp: levels_ok_def)
  have w: "c = (if ?m = [] \<or> sz \<le> 0 then [] else walk_levels D s limit sz (walk_sorted s ?m))"
    by (simp add: c walk_book_ioc_def)
  show "sum_list (map snd c) = min sz (liquidity s limit ?m)"
    using walk_levels_total [OF D sorted_walk_sorted am sz, of limit] liquidity_nonneg [OF ams, of s limit]
      amount_nonneg [OF sz] by (auto simp: w)
  have at: "level_size b (opposite s) p = v" if "(p, v) \<in> set ?m" for p v
    using m that by (simp add: level_size_def size_at_def levels_ok_def)
  show "\<forall>(p, q) \<in> set c. \<not> breaches s limit p \<and> 0 < q \<and> q \<le> level_size b (opposite s) p"
    using at by (auto simp: w dest!: walk_levels_subset split: if_splits)
  show "\<forall>(p, q) \<in> set c. \<forall>(p', v) \<in> set ?m.
      walk_key s p' < walk_key s p \<and> 0 < v \<longrightarrow> (p', v) \<in> set c"
    using walk_levels_priority [OF D sorted_walk_sorted am sz] by (auto simp: w split: if_splits)
  show "\<forall>m'. mset m' = mset ?m \<longrightarrow> walk_book_ioc D (with_side b (opposite s) m') s sz limit = c"
  proof (intro allI impI)
    fix m' assume "mset m' = mset ?m"
    moreover from this have "m' = [] \<longleftrightarrow> ?m = []" by (metis mset_zero_iff)
    ultimately show "walk_book_ioc D (with_side b (opposite s) m') s sz limit = c"
      using walk_order_free [of ?m m' s] m by (simp add: w walk_book_ioc_def levels_ok_def)
  qed
qed

definition eg_book :: book_state where
  "eg_book = \<lparr>bs_bids = [(98, 4), (99, 1)], bs_asks = [(103, 5), (101, 2), (102, 1)],
     bs_best_bid = Some 99, bs_best_ask = Some 101\<rparr>"

lemma amount_numeral: "n \<le> 28 \<Longrightarrow> numeral k * 10 ^ n < (2 ^ 96 :: rat) \<Longrightarrow> amount n (numeral k)"
  by (simp add: amount_def)

lemma walk_takes_best_witness:
  "sum_list (map snd (walk_book_ioc rust_decimal eg_book Bid 4 102)) = min 4 3"
proof -
  have "levels_ok 8 (side_map eg_book (opposite Bid))" "amount 8 (4 :: rat)"
    by (simp_all add: levels_ok_def eg_book_def side_map_def amount_def)
  from walk_takes_best [OF rust.decimal_arith_axioms this refl, of 102]
  show ?thesis by (simp add: eg_book_def side_map_def breaches_def)
qed

end
