(* ===== verification/Fill_Sim.thy ===== *)
theory Fill_Sim
  imports Book_State Strategy_Api
begin

text \<open>
  The simulated fill engine of \<open>crates/tikr-backtest/src/fill_sim.rs\<close>: its state, one
  definition per method, and \<open>sim_call\<close>, a call on its public interface.

  The hash maps keyed by symbol are maps, the set of manager ids is a set.  A rejection's
  reason is a constructor for each of the fixed strings.  What the code takes from outside is
  the record \<open>sim_env\<close>: the decimal and the floating-point operations, the source of fresh
  ids (the n-th \<open>QuoteId::new\<close> of the run is \<open>se_uuid n\<close>), and the mantissa and scale of a
  decimal, which only the fingerprint of the cached view reads.  The audit counters of the
  temporary diagnostics (\<open>FillDiag\<close>, printed by \<open>drop\<close>) feed nothing back and are left out.
\<close>

type_synonym i32 = "32 word"

definition dec_i32 :: "i32 \<Rightarrow> rat" where
  "dec_i32 w = of_int (sint w)"

record sim_env =
  se_dec :: decimal_ops
  se_float :: float_ops
  se_uuid :: "nat \<Rightarrow> quote_id"
  se_mantissa :: "rat \<Rightarrow> u64"
  se_scale :: "rat \<Rightarrow> u64"

record venue_fees =
  vf_maker_bps :: i32
  vf_taker_bps :: u32

definition binance_max_open_orders :: u32 where
  "binance_max_open_orders = 200"

record fill_sim_config =
  fc_submit_latency_ms :: u64
  fc_cancel_latency_ms :: u64
  fc_fees :: venue_fees
  fc_max_position_notional :: "rat option"
  fc_leverage :: rat
  fc_max_position_frac :: rat
  fc_silent_cancel_rate :: rat
  fc_rng_seed :: u64
  fc_latency_jitter_ms :: u64
  fc_max_open_orders :: "u32 option"
  fc_queue_decay :: rat
  fc_spot :: bool

datatype op =
  PlaceOp quote_intent "quote_id option"
| ReplaceOp quote_id quote_intent
| CancelOp quote_id
| CancelAllOp

record pending_op =
  po_at :: u64
  po_op :: op

record live_quote =
  lq_id :: quote_id
  lq_symbol :: symbol
  lq_side :: side
  lq_price :: price
  lq_size :: qsize
  lq_queue_ahead :: rat
  lq_ts :: timestamp

datatype reject_reason =
  TooManyOrders | PostOnlyCross | SpotCash | SpotAsset | MarginInsufficient | PositionCap

type_synonym view = "(quote_id \<times> quote_intent) list"

record fill_sim =
  fs_cfg :: fill_sim_config
  fs_pending :: "pending_op list"
  fs_live :: "live_quote list"
  fs_managers :: "quote_id set"
  fs_book :: "symbol \<Rightarrow> book_state option"
  fs_rejections :: "(quote_intent \<times> reject_reason) list"
  fs_position_units :: "symbol \<Rightarrow> rat option"
  fs_wallet :: rat
  fs_spot_cash :: rat
  fs_spot_units :: rat
  fs_committed :: "symbol \<Rightarrow> (rat \<times> rat \<times> rat) option"
  fs_dirty :: bool
  fs_rng :: u64
  fs_latency_rng :: u64
  fs_last_event :: "u64 option"
  fs_view_cache :: view
  fs_view_sig :: "128 word option"
  fs_view_symbol :: "symbol option"
  fs_live_mirror :: bool
  fs_minted :: nat

unbundle bit_operations_syntax

definition fill_sim_new :: "fill_sim_config \<Rightarrow> fill_sim" where
  "fill_sim_new cfg =
     (let rng = (if fc_rng_seed cfg = 0 then 0x9E3779B97F4A7C15 else fc_rng_seed cfg)
      in \<lparr>fs_cfg = cfg, fs_pending = [], fs_live = [], fs_managers = {}, fs_book = Map.empty,
          fs_rejections = [], fs_position_units = Map.empty, fs_wallet = 0, fs_spot_cash = 0,
          fs_spot_units = 0, fs_committed = Map.empty, fs_dirty = True, fs_rng = rng,
          fs_latency_rng = rng XOR 0xA5A5A5A5A5A5A5A5, fs_last_event = None,
          fs_view_cache = [], fs_view_sig = None, fs_view_symbol = None,
          fs_live_mirror = False, fs_minted = 0\<rparr>)"

definition set_wallet :: "fill_sim \<Rightarrow> rat \<Rightarrow> fill_sim" where
  "set_wallet fs w = fs\<lparr>fs_wallet := w\<rparr>"

definition seed_spot :: "fill_sim \<Rightarrow> rat \<Rightarrow> rat \<Rightarrow> fill_sim" where
  "seed_spot fs cash units = fs\<lparr>fs_spot_cash := cash, fs_spot_units := units\<rparr>"

definition set_live_mirror :: "fill_sim \<Rightarrow> bool \<Rightarrow> fill_sim" where
  "set_live_mirror fs on = fs\<lparr>fs_live_mirror := on\<rparr>"

subsection \<open>Random numbers and latency\<close>

definition next_u64 :: "u64 \<Rightarrow> u64" where
  "next_u64 s = (let x = s XOR push_bit 13 s; y = x XOR drop_bit 7 x in y XOR push_bit 17 y)"

text \<open>The draw and the new state; both conversions to \<open>f64\<close> are exact below \<open>2 ^ 53\<close>.\<close>

definition next_unit_f64 :: "u64 \<Rightarrow> rat \<times> u64" where
  "next_unit_f64 s = (let x = next_u64 s in (of_nat (unat (drop_bit 11 x)) / 2 ^ 53, x))"

text \<open>\<open>f64::round\<close> (half away from zero) and the saturating \<open>as u64\<close>.\<close>

definition f64_round :: "rat \<Rightarrow> rat" where
  "f64_round x = (if 0 \<le> x then dec_floor (x + 1 / 2) else - dec_floor (- x + 1 / 2))"

definition f64_as_u64 :: "rat \<Rightarrow> u64" where
  "f64_as_u64 x = (if x \<le> 0 then 0
     else if 2 ^ 64 - 1 \<le> x then - 1 else of_int \<lfloor>x\<rfloor>)"

definition sample_latency_ns :: "sim_env \<Rightarrow> fill_sim \<Rightarrow> u64 \<Rightarrow> u64 \<times> fill_sim" where
  "sample_latency_ns E fs base =
     (let F = se_float E; jitter = fc_latency_jitter_ms (fs_cfg fs) in
      if jitter = 0 then (sat_mul (sat_add base 0) 1000000, fs)
      else let mean = f_of_nat F (unat jitter);
               (u, st) = next_unit_f64 (fs_latency_rng fs);
               sample = f_mul F (- mean) (f_ln F (1 - u));
               ms = f64_as_u64 (f64_round (min sample (f_mul F mean 20)))
           in (sat_mul (sat_add base ms) 1000000, fs\<lparr>fs_latency_rng := st\<rparr>))"

subsection \<open>The resting commitment and its cache\<close>

definition add_commitment ::
    "decimal_ops \<Rightarrow> (symbol \<Rightarrow> (rat \<times> rat \<times> rat) option) \<Rightarrow> live_quote \<Rightarrow>
       symbol \<Rightarrow> (rat \<times> rat \<times> rat) option" where
  "add_commitment D m q =
     (let (b, a, z) = (case m (lq_symbol q) of Some e \<Rightarrow> e | None \<Rightarrow> (0, 0, 0));
          n = round_dp D (dmul D (lq_price q) (lq_size q)) 8
      in m(lq_symbol q \<mapsto> (case lq_side q of
             Bid \<Rightarrow> (round_dp D (dadd D b n) 8, a, z)
           | Ask \<Rightarrow> (b, round_dp D (dadd D a n) 8, dadd D z (lq_size q)))))"

definition committed_scan ::
    "decimal_ops \<Rightarrow> live_quote list \<Rightarrow> symbol \<Rightarrow> (rat \<times> rat \<times> rat) option" where
  "committed_scan D qs = foldl (add_commitment D) Map.empty qs"

definition committed_for ::
    "decimal_ops \<Rightarrow> fill_sim \<Rightarrow> symbol \<Rightarrow> (rat \<times> rat \<times> rat) \<times> fill_sim" where
  "committed_for D fs sy =
     (let fs1 = (if fs_dirty fs
                 then fs\<lparr>fs_committed := committed_scan D (fs_live fs), fs_dirty := False\<rparr>
                 else fs)
      in (case fs_committed fs1 sy of Some e \<Rightarrow> e | None \<Rightarrow> (0, 0, 0), fs1))"

definition position_notional :: "decimal_ops \<Rightarrow> fill_sim \<Rightarrow> symbol \<Rightarrow> price \<Rightarrow> rat" where
  "position_notional D fs sy fallback =
     (let units = (case fs_position_units fs sy of Some u \<Rightarrow> u | None \<Rightarrow> 0);
          mark = (case fs_book fs sy of
              None \<Rightarrow> fallback
            | Some b \<Rightarrow> (case (bs_best_bid b, bs_best_ask b) of
                  (Some bid, Some ask) \<Rightarrow> ddiv D (dadd D bid ask) 2
                | (Some p, None) \<Rightarrow> p
                | (None, Some p) \<Rightarrow> p
                | (None, None) \<Rightarrow> fallback))
      in round_dp D (dmul D units mark) 8)"

subsection \<open>Views\<close>

definition drain_rejections ::
    "fill_sim \<Rightarrow> (quote_intent \<times> reject_reason) list \<times> fill_sim" where
  "drain_rejections fs = (fs_rejections fs, fs\<lparr>fs_rejections := []\<rparr>)"

definition mark_manager :: "fill_sim \<Rightarrow> quote_id \<Rightarrow> fill_sim" where
  "mark_manager fs i = fs\<lparr>fs_managers := insert i (fs_managers fs)\<rparr>"

definition unmark_manager :: "fill_sim \<Rightarrow> quote_id \<Rightarrow> fill_sim" where
  "unmark_manager fs i = fs\<lparr>fs_managers := fs_managers fs - {i}\<rparr>"

definition quote_view :: "live_quote \<Rightarrow> quote_id \<times> quote_intent" where
  "quote_view q = (lq_id q, \<lparr>qi_symbol = lq_symbol q, qi_side = lq_side q, qi_price = lq_price q,
     qi_size = lq_size q, qi_tif = PostOnly, qi_kind = Point\<rparr>)"

definition all_live_quotes_for :: "fill_sim \<Rightarrow> symbol \<Rightarrow> view" where
  "all_live_quotes_for fs sy = map quote_view (filter (\<lambda>q. lq_symbol q = sy) (fs_live fs))"

definition managed :: "fill_sim \<Rightarrow> quote_id option \<Rightarrow> bool" where
  "managed fs oid = (case oid of Some i \<Rightarrow> i \<in> fs_managers fs | None \<Rightarrow> False)"

fun pending_view :: "fill_sim \<Rightarrow> symbol \<Rightarrow> op \<Rightarrow> view" where
  "pending_view fs sy (PlaceOp i oid) =
     (if qi_symbol i = sy \<and> \<not> managed fs oid
      then [(case oid of Some k \<Rightarrow> k | None \<Rightarrow> quote_id_nil, i)] else [])"
| "pending_view fs sy (ReplaceOp k i) = (if qi_symbol i = sy then [(k, i)] else [])"
| "pending_view fs sy (CancelOp k) = []"
| "pending_view fs sy CancelAllOp = []"

definition live_quotes_for :: "fill_sim \<Rightarrow> symbol \<Rightarrow> view" where
  "live_quotes_for fs sy =
     map quote_view (filter (\<lambda>q. lq_symbol q = sy \<and> lq_id q \<notin> fs_managers fs) (fs_live fs))
     @ concat (map (\<lambda>p. pending_view fs sy (po_op p)) (fs_pending fs))"

definition add_by_side :: "decimal_ops \<Rightarrow> side \<Rightarrow> rat \<Rightarrow> rat \<times> rat \<Rightarrow> rat \<times> rat" where
  "add_by_side D s n acc = (case s of
     Bid \<Rightarrow> (dadd D (fst acc) n, snd acc) | Ask \<Rightarrow> (fst acc, dadd D (snd acc) n))"

definition committed_notional_by_side :: "decimal_ops \<Rightarrow> fill_sim \<Rightarrow> symbol \<Rightarrow> rat \<times> rat" where
  "committed_notional_by_side D fs sy =
     (let resting = foldl (\<lambda>acc q. if lq_symbol q = sy \<and> lq_id q \<notin> fs_managers fs
              then add_by_side D (lq_side q) (dmul D (lq_price q) (lq_size q)) acc else acc)
            (0, 0) (fs_live fs)
      in foldl (\<lambda>acc p. case po_op p of
              PlaceOp i oid \<Rightarrow> if qi_symbol i = sy \<and> \<not> managed fs oid
                then add_by_side D (qi_side i) (dmul D (qi_price i) (qi_size i)) acc else acc
            | _ \<Rightarrow> acc) resting (fs_pending fs))"

text \<open>The fingerprint: two accumulators, and a counter.\<close>

type_synonym folds = "u64 \<times> u64 \<times> u64"

definition mix :: "u64 \<Rightarrow> u64 \<Rightarrow> u64" where
  "mix h x = (h XOR x) * 0x100000001b3"

definition side_bit :: "side \<Rightarrow> u64" where
  "side_bit s = (case s of Bid \<Rightarrow> 0 | Ask \<Rightarrow> 1)"

definition fold_order ::
    "sim_env \<Rightarrow> quote_id \<Rightarrow> side \<Rightarrow> price \<Rightarrow> qsize \<Rightarrow> folds \<Rightarrow> folds" where
  "fold_order E i s p z h =
     (case h of (h1, h2, n) \<Rightarrow>
       (mix (mix (mix h1 (ucast i)) (se_mantissa E p)) (se_mantissa E z),
        mix (mix (mix h2 (ucast (drop_bit 64 i))) (push_bit 1 (se_scale E p) OR side_bit s)) (se_scale E z),
        n + 1))"

definition open_quotes_signature :: "sim_env \<Rightarrow> fill_sim \<Rightarrow> symbol \<Rightarrow> 128 word" where
  "open_quotes_signature E fs sy =
     (let h = foldl (\<lambda>h q. fold_order E (lq_id q) (lq_side q) (lq_price q) (lq_size q) h)
            (0xcbf29ce484222325, 0x1000000001b327d4, 0)
            (filter (\<lambda>q. lq_symbol q = sy) (fs_live fs));
          (h1, h2, n) = foldl (\<lambda>h p. case po_op p of
              PlaceOp i oid \<Rightarrow> if qi_symbol i = sy
                then fold_order E (case oid of Some k \<Rightarrow> k | None \<Rightarrow> 0) (qi_side i) (qi_price i) (qi_size i) h
                else h
            | ReplaceOp k i \<Rightarrow> if qi_symbol i = sy
                then fold_order E k (qi_side i) (qi_price i) (qi_size i) h else h
            | _ \<Rightarrow> h) h (fs_pending fs)
      in push_bit 64 (ucast (mix h1 n)) OR ucast (mix h2 n))"

definition open_quotes :: "sim_env \<Rightarrow> fill_sim \<Rightarrow> symbol \<Rightarrow> view \<times> fill_sim" where
  "open_quotes E fs sy =
     (let sg = open_quotes_signature E fs sy;
          fresh = (fs_view_sig fs = Some sg \<and> fs_view_symbol fs = Some sy);
          fs1 = (if fresh then fs
                 else fs\<lparr>fs_view_cache := live_quotes_for fs sy, fs_view_sig := Some sg,
                         fs_view_symbol := Some sy\<rparr>)
      in (fs_view_cache fs1, fs1))"

subsection \<open>Submission\<close>

definition enqueue :: "fill_sim \<Rightarrow> u64 \<Rightarrow> op \<Rightarrow> fill_sim" where
  "enqueue fs at_ns o1 = fs\<lparr>fs_pending :=
     sort_key po_at (fs_pending fs @ [\<lparr>po_at = at_ns, po_op = o1\<rparr>])\<rparr>"

text \<open>A place or a replace is delayed by at least one nanosecond, a cancel may be immediate.\<close>

definition submit :: "sim_env \<Rightarrow> fill_sim \<Rightarrow> timestamp \<Rightarrow> op \<Rightarrow> fill_sim" where
  "submit E fs now o1 =
     (let (l, fs1) = sample_latency_ns E fs (fc_submit_latency_ms (fs_cfg fs))
      in enqueue fs1 (sat_add now (max l 1)) o1)"

definition submit_cancel :: "sim_env \<Rightarrow> fill_sim \<Rightarrow> timestamp \<Rightarrow> op \<Rightarrow> fill_sim" where
  "submit_cancel E fs now o1 =
     (let (l, fs1) = sample_latency_ns E fs (fc_cancel_latency_ms (fs_cfg fs))
      in enqueue fs1 (sat_add now l) o1)"

fun on_action :: "sim_env \<Rightarrow> fill_sim \<Rightarrow> action \<Rightarrow> timestamp \<Rightarrow> fill_sim" where
  "on_action E fs (Quote i) now = submit E fs now (PlaceOp i None)"
| "on_action E fs (Requote k i) now = submit E fs now (ReplaceOp k i)"
| "on_action E fs (Cancel k) now = submit_cancel E fs now (CancelOp k)"
| "on_action E fs CancelAll now = submit_cancel E fs now CancelAllOp"
| "on_action E fs NoOp now = fs"

definition enqueue_place_with_id ::
    "sim_env \<Rightarrow> fill_sim \<Rightarrow> quote_intent \<Rightarrow> timestamp \<Rightarrow> quote_id \<Rightarrow> fill_sim" where
  "enqueue_place_with_id E fs i now k = submit E fs now (PlaceOp i (Some k))"

subsection \<open>Cancels and the registry\<close>

fun op_survives :: "quote_id \<Rightarrow> op \<Rightarrow> bool" where
  "op_survives k (PlaceOp i (Some k')) \<longleftrightarrow> k' \<noteq> k"
| "op_survives k (PlaceOp i None) \<longleftrightarrow> True"
| "op_survives k (ReplaceOp k' i) \<longleftrightarrow> k' \<noteq> k"
| "op_survives k (CancelOp k') \<longleftrightarrow> True"
| "op_survives k CancelAllOp \<longleftrightarrow> True"

definition purge_pending_id :: "fill_sim \<Rightarrow> quote_id \<Rightarrow> fill_sim" where
  "purge_pending_id fs k = fs\<lparr>fs_pending := filter (\<lambda>p. op_survives k (po_op p)) (fs_pending fs)\<rparr>"

definition cancel_id :: "fill_sim \<Rightarrow> quote_id \<Rightarrow> fill_sim" where
  "cancel_id fs k = purge_pending_id
     (fs\<lparr>fs_live := filter (\<lambda>q. lq_id q \<noteq> k) (fs_live fs), fs_dirty := True\<rparr>) k"

definition drop_quote :: "fill_sim \<Rightarrow> quote_id \<Rightarrow> fill_sim" where
  "drop_quote fs k = cancel_id fs k"

fun drop_keeps :: "fill_sim \<Rightarrow> symbol \<Rightarrow> op \<Rightarrow> bool" where
  "drop_keeps fs sy (PlaceOp i oid) \<longleftrightarrow> qi_symbol i \<noteq> sy \<or> managed fs oid"
| "drop_keeps fs sy (ReplaceOp k i) \<longleftrightarrow> qi_symbol i \<noteq> sy"
| "drop_keeps fs sy (CancelOp k) \<longleftrightarrow> True"
| "drop_keeps fs sy CancelAllOp \<longleftrightarrow> True"

definition drop_quotes_for :: "fill_sim \<Rightarrow> symbol \<Rightarrow> fill_sim" where
  "drop_quotes_for fs sy = fs\<lparr>
     fs_live := filter (\<lambda>q. lq_symbol q \<noteq> sy \<or> lq_id q \<in> fs_managers fs) (fs_live fs),
     fs_dirty := True,
     fs_pending := filter (\<lambda>p. drop_keeps fs sy (po_op p)) (fs_pending fs)\<rparr>"

fun op_tracks :: "quote_id \<Rightarrow> op \<Rightarrow> bool" where
  "op_tracks k (PlaceOp i oid) \<longleftrightarrow> oid = Some k"
| "op_tracks k (ReplaceOp k' i) \<longleftrightarrow> k' = k"
| "op_tracks k (CancelOp k') \<longleftrightarrow> False"
| "op_tracks k CancelAllOp \<longleftrightarrow> False"

definition is_tracked :: "fill_sim \<Rightarrow> quote_id \<Rightarrow> bool" where
  "is_tracked fs k \<longleftrightarrow> list_ex (\<lambda>q. lq_id q = k) (fs_live fs)
     \<or> list_ex (\<lambda>p. op_tracks k (po_op p)) (fs_pending fs)"

definition retain_quotes_for :: "fill_sim \<Rightarrow> symbol \<Rightarrow> quote_id set \<Rightarrow> nat \<times> fill_sim" where
  "retain_quotes_for fs sy valid =
     (let kept = filter (\<lambda>q. lq_symbol q \<noteq> sy \<or> lq_id q \<in> valid) (fs_live fs);
          removed = length (fs_live fs) - length kept;
          fs1 = fs\<lparr>fs_live := kept\<rparr>
      in (removed, if 0 < removed then fs1\<lparr>fs_dirty := True\<rparr> else fs1))"

definition imported :: "open_order \<Rightarrow> live_quote" where
  "imported r = \<lparr>lq_id = oo_id r, lq_symbol = oo_symbol r, lq_side = oo_side r,
     lq_price = oo_price r, lq_size = oo_size r, lq_queue_ahead = 0, lq_ts = 0\<rparr>"

fun import_missing ::
    "symbol \<Rightarrow> quote_id set \<Rightarrow> open_order list \<Rightarrow> live_quote list" where
  "import_missing sy known [] = []"
| "import_missing sy known (r # rs) =
     (if oo_symbol r \<noteq> sy \<or> oo_id r \<in> known then import_missing sy known rs
      else imported r # import_missing sy (insert (oo_id r) known) rs)"

fun pending_place_id :: "symbol \<Rightarrow> op \<Rightarrow> quote_id set" where
  "pending_place_id sy (PlaceOp i (Some k)) = (if qi_symbol i = sy then {k} else {})"
| "pending_place_id sy (PlaceOp i None) = {}"
| "pending_place_id sy (ReplaceOp k i) = {}"
| "pending_place_id sy (CancelOp k) = {}"
| "pending_place_id sy CancelAllOp = {}"

definition known_ids :: "fill_sim \<Rightarrow> symbol \<Rightarrow> quote_id set" where
  "known_ids fs sy = set (map lq_id (filter (\<lambda>q. lq_symbol q = sy) (fs_live fs)))
     \<union> \<Union> (set (map (\<lambda>p. pending_place_id sy (po_op p)) (fs_pending fs)))"

definition reconcile_quotes_for ::
    "fill_sim \<Rightarrow> symbol \<Rightarrow> open_order list \<Rightarrow> (nat \<times> nat) \<times> fill_sim" where
  "reconcile_quotes_for fs sy orders =
     (let (removed, fs1) = retain_quotes_for fs sy (set (map oo_id orders));
          new = import_missing sy (known_ids fs1 sy) orders
      in ((removed, length new), fs1\<lparr>fs_live := fs_live fs1 @ new, fs_dirty := True\<rparr>))"

subsection \<open>Placement\<close>

definition immediate :: "time_in_force \<Rightarrow> bool" where
  "immediate t \<longleftrightarrow> t = IOC \<or> t = FOK"

definition would_cross :: "fill_sim \<Rightarrow> quote_intent \<Rightarrow> bool" where
  "would_cross fs i = (case fs_book fs (qi_symbol i) of
     None \<Rightarrow> False
   | Some b \<Rightarrow> (case qi_side i of
        Bid \<Rightarrow> (case bs_best_ask b of Some a \<Rightarrow> a \<le> qi_price i | None \<Rightarrow> False)
      | Ask \<Rightarrow> (case bs_best_bid b of Some p \<Rightarrow> qi_price i \<le> p | None \<Rightarrow> False)))"

definition resting_count :: "fill_sim \<Rightarrow> symbol \<Rightarrow> nat" where
  "resting_count fs sy = length (filter (\<lambda>q. lq_symbol q = sy) (fs_live fs))"

definition order_cap_hit :: "fill_sim \<Rightarrow> quote_intent \<Rightarrow> bool" where
  "order_cap_hit fs i = (case fc_max_open_orders (fs_cfg fs) of
     Some cap \<Rightarrow> \<not> immediate (qi_tif i) \<and> unat cap \<le> resting_count fs (qi_symbol i)
   | None \<Rightarrow> False)"

definition intent_notional :: "decimal_ops \<Rightarrow> quote_intent \<Rightarrow> rat" where
  "intent_notional D i = round_dp D (dmul D (qi_price i) (qi_size i)) 8"

definition maker_fraction :: "decimal_ops \<Rightarrow> fill_sim \<Rightarrow> rat" where
  "maker_fraction D fs = ddiv D (dec_i32 (vf_maker_bps (fc_fees (fs_cfg fs)))) 10000"

definition spot_gate ::
    "decimal_ops \<Rightarrow> fill_sim \<Rightarrow> quote_intent \<Rightarrow> reject_reason option \<times> fill_sim" where
  "spot_gate D fs i =
     (let ((bids, _, asks), fs1) = (if immediate (qi_tif i) then ((0, 0, 0), fs)
                                    else committed_for D fs (qi_symbol i))
      in (case qi_side i of
            Bid \<Rightarrow> (let reserved = round_dp D (dmul D (intent_notional D i)
                        (dadd D 1 (maker_fraction D fs1))) 8
                    in if fs_spot_cash fs1 < round_dp D (dadd D bids reserved) 8
                       then Some SpotCash else None)
          | Ask \<Rightarrow> (if fs_spot_units fs1 < dadd D asks (qi_size i) then Some SpotAsset else None),
          fs1))"

definition margin_gate ::
    "decimal_ops \<Rightarrow> fill_sim \<Rightarrow> quote_intent \<Rightarrow> rat \<Rightarrow> bool \<times> fill_sim" where
  "margin_gate D fs i pos =
     (if 0 < fc_leverage (fs_cfg fs) \<and> 0 < fs_wallet fs then
        let power = round_dp D (dmul D (fs_wallet fs) (fc_leverage (fs_cfg fs))) 8;
            ((bids0, asks0, _), fs1) = committed_for D fs (qi_symbol i);
            bids = (if qi_side i = Bid then round_dp D (dadd D bids0 (intent_notional D i)) 8 else bids0);
            asks = (if qi_side i = Ask then round_dp D (dadd D asks0 (intent_notional D i)) 8 else asks0)
        in (power < dadd D pos bids \<or> dsub D pos asks < - power, fs1)
      else (False, fs))"

definition position_cap :: "decimal_ops \<Rightarrow> fill_sim \<Rightarrow> rat option" where
  "position_cap D fs =
     (let frac = (if 0 < fc_max_position_frac (fs_cfg fs) \<and> 0 < fs_wallet fs
                  then Some (round_dp D (dmul D (fs_wallet fs) (fc_max_position_frac (fs_cfg fs))) 8)
                  else None)
      in (case (fc_max_position_notional (fs_cfg fs), frac) of
            (Some a, Some b) \<Rightarrow> Some (min a b)
          | (Some a, None) \<Rightarrow> Some a
          | (None, b) \<Rightarrow> b))"

definition projected_position :: "decimal_ops \<Rightarrow> quote_intent \<Rightarrow> rat \<Rightarrow> rat" where
  "projected_position D i pos = (case qi_side i of
     Bid \<Rightarrow> dadd D pos (intent_notional D i) | Ask \<Rightarrow> dsub D pos (intent_notional D i))"

definition position_cap_hit :: "decimal_ops \<Rightarrow> fill_sim \<Rightarrow> quote_intent \<Rightarrow> rat \<Rightarrow> bool" where
  "position_cap_hit D fs i pos = (case position_cap D fs of
     Some cap \<Rightarrow> cap < projected_position D i pos \<or> projected_position D i pos < - cap
   | None \<Rightarrow> False)"

definition futures_gate ::
    "decimal_ops \<Rightarrow> fill_sim \<Rightarrow> quote_intent \<Rightarrow> reject_reason option \<times> fill_sim" where
  "futures_gate D fs i =
     (let pos = position_notional D fs (qi_symbol i) (qi_price i);
          (short, fs1) = margin_gate D fs i pos
      in (if short then Some MarginInsufficient
          else if position_cap_hit D fs1 i pos then Some PositionCap else None, fs1))"

definition place_gates ::
    "decimal_ops \<Rightarrow> fill_sim \<Rightarrow> quote_intent \<Rightarrow> reject_reason option \<times> fill_sim" where
  "place_gates D fs i =
     (if order_cap_hit fs i then (Some TooManyOrders, fs)
      else if qi_tif i = PostOnly \<and> would_cross fs i then (Some PostOnlyCross, fs)
      else if fc_spot (fs_cfg fs) then spot_gate D fs i
      else futures_gate D fs i)"

definition reject :: "fill_sim \<Rightarrow> quote_intent \<Rightarrow> reject_reason \<Rightarrow> fill_sim" where
  "reject fs i r = fs\<lparr>fs_rejections := fs_rejections fs @ [(i, r)]\<rparr>"

end
