(* ===== verification/Sim_Events.thy ===== *)
theory Sim_Events
  imports Fill_Sim
begin

text \<open>
  The part of \<open>crates/tikr-backtest/src/fill_sim.rs\<close> that fills: the taker arm of a
  placement, the queue model of resting orders, the application of the pending operations and
  the handler of a market event.
\<close>

subsection \<open>Balances\<close>

definition add_units :: "decimal_ops \<Rightarrow> fill_sim \<Rightarrow> symbol \<Rightarrow> side \<Rightarrow> rat \<Rightarrow> fill_sim" where
  "add_units D fs sy s amt =
     (let u = (case fs_position_units fs sy of Some u \<Rightarrow> u | None \<Rightarrow> 0)
      in fs\<lparr>fs_position_units := (fs_position_units fs)(sy \<mapsto>
            (case s of Bid \<Rightarrow> dadd D u amt | Ask \<Rightarrow> dsub D u amt))\<rparr>)"

definition spot_settle ::
    "decimal_ops \<Rightarrow> fill_sim \<Rightarrow> side \<Rightarrow> rat \<Rightarrow> rat \<Rightarrow> rat \<Rightarrow> fill_sim" where
  "spot_settle D fs s value amt fee =
     (if fc_spot (fs_cfg fs) then
        (let cash = (case s of Bid \<Rightarrow> round_dp D (dsub D (fs_spot_cash fs) value) 8
                             | Ask \<Rightarrow> round_dp D (dadd D (fs_spot_cash fs) value) 8);
             units = (case s of Bid \<Rightarrow> round_dp D (dadd D (fs_spot_units fs) amt) 8
                              | Ask \<Rightarrow> round_dp D (dsub D (fs_spot_units fs) amt) 8)
         in fs\<lparr>fs_spot_cash := round_dp D (dsub D cash fee) 8, fs_spot_units := units\<rparr>)
      else fs)"

subsection \<open>Immediate orders\<close>

definition dec_sum :: "decimal_ops \<Rightarrow> rat list \<Rightarrow> rat" where
  "dec_sum D xs = foldl (dadd D) 0 xs"

definition book_of :: "fill_sim \<Rightarrow> symbol \<Rightarrow> book_state" where
  "book_of fs sy = (case fs_book fs sy of Some b \<Rightarrow> b | None \<Rightarrow> book_default)"

definition put_book :: "fill_sim \<Rightarrow> symbol \<Rightarrow> book_state \<Rightarrow> fill_sim" where
  "put_book fs sy b = fs\<lparr>fs_book := (fs_book fs)(sy \<mapsto> b)\<rparr>"

definition take_levels :: "decimal_ops \<Rightarrow> side \<Rightarrow> levels \<Rightarrow> book_state \<Rightarrow> book_state" where
  "take_levels D s consumed b =
     foldl (\<lambda>b (p, q). decrement_level D b (opposite s) p q) b consumed"

definition fill_immediate ::
    "sim_env \<Rightarrow> fill_sim \<Rightarrow> quote_intent \<Rightarrow> timestamp \<Rightarrow> fill option \<times> fill_sim" where
  "fill_immediate E fs i ts =
     (let D = se_dec E; sy = qi_symbol i; b = book_of fs sy; fs1 = put_book fs sy b;
          consumed = walk_book_ioc D b (qi_side i) (qi_size i) (qi_price i)
      in if consumed = [] then (None, fs1)
         else let total = dec_sum D (map snd consumed)
         in if qi_tif i = FOK \<and> total < qi_size i then (None, fs1)
         else
           let value = dec_sum D (map (\<lambda>(p, q). round_dp D (dmul D p q) 8) consumed);
               avg = round_dp D (ddiv D value total) 8;
               fee = round_dp D (ddiv D (dmul D value
                       (dec_u32 (vf_taker_bps (fc_fees (fs_cfg fs))))) 10000) 8;
               fs2 = put_book fs1 sy (take_levels D (qi_side i) consumed b);
               fs3 = add_units D fs2 sy (qi_side i) total;
               fs4 = spot_settle D fs3 (qi_side i) value total fee
           in (Some \<lparr>f_quote_id = se_uuid E (fs_minted fs4), f_price = avg, f_size = total,
                 f_fee_asset = sy_quote sy, f_fee_amount = fee, f_fee_quote = fee,
                 f_side = qi_side i, f_ts = ts, f_is_full = (qi_size i \<le> total),
                 f_trade_id = None\<rparr>,
               fs4\<lparr>fs_minted := Suc (fs_minted fs4)\<rparr>))"

subsection \<open>Resting orders\<close>

definition rest_quote ::
    "sim_env \<Rightarrow> fill_sim \<Rightarrow> quote_intent \<Rightarrow> timestamp \<Rightarrow> quote_id option \<Rightarrow> fill_sim" where
  "rest_quote E fs i ts oid =
     (let ahead = (case fs_book fs (qi_symbol i) of
            Some b \<Rightarrow> level_size b (qi_side i) (qi_price i) | None \<Rightarrow> 0);
          (k, fs1) = (case oid of Some k \<Rightarrow> (k, fs)
            | None \<Rightarrow> (se_uuid E (fs_minted fs), fs\<lparr>fs_minted := Suc (fs_minted fs)\<rparr>))
      in fs1\<lparr>fs_live := fs_live fs1 @ [\<lparr>lq_id = k, lq_symbol = qi_symbol i, lq_side = qi_side i,
             lq_price = qi_price i, lq_size = qi_size i, lq_queue_ahead = ahead, lq_ts = ts\<rparr>],
             fs_dirty := True\<rparr>)"

definition place_or_reject ::
    "sim_env \<Rightarrow> fill_sim \<Rightarrow> quote_intent \<Rightarrow> timestamp \<Rightarrow> quote_id option \<Rightarrow>
       fill option \<times> fill_sim" where
  "place_or_reject E fs i ts oid =
     (case place_gates (se_dec E) fs i of
        (Some r, fs1) \<Rightarrow> (None, reject fs1 i r)
      | (None, fs1) \<Rightarrow> if immediate (qi_tif i) then fill_immediate E fs1 i ts
                       else (None, rest_quote E fs1 i ts oid))"

subsection \<open>The pending queue\<close>

fun take_quote :: "quote_id \<Rightarrow> live_quote list \<Rightarrow> live_quote option \<times> live_quote list" where
  "take_quote k [] = (None, [])"
| "take_quote k (q # qs) =
     (if lq_id q = k then (Some q, qs)
      else let (r, qs') = take_quote k qs in (r, q # qs'))"

definition evict :: "fill_sim \<Rightarrow> quote_id \<Rightarrow> live_quote option \<times> fill_sim" where
  "evict fs k =
     (let (r, qs) = take_quote k (fs_live fs);
          fs1 = fs\<lparr>fs_live := qs\<rparr>;
          fs2 = (if r \<noteq> None then fs1\<lparr>fs_dirty := True\<rparr> else fs1)
      in (r, purge_pending_id fs2 k))"

definition restore :: "fill_sim \<Rightarrow> live_quote option \<Rightarrow> fill_sim" where
  "restore fs r = (case r of Some q \<Rightarrow> fs\<lparr>fs_live := fs_live fs @ [q], fs_dirty := True\<rparr>
                          | None \<Rightarrow> fs)"

fun apply_op :: "sim_env \<Rightarrow> fill_sim \<Rightarrow> pending_op \<Rightarrow> fill list \<times> fill_sim" where
  "apply_op E fs \<lparr>po_at = t, po_op = PlaceOp i oid\<rparr> =
     (let (f, fs1) = place_or_reject E fs i t oid
      in (case f of Some x \<Rightarrow> [x] | None \<Rightarrow> [], fs1))"
| "apply_op E fs \<lparr>po_at = t, po_op = ReplaceOp k i\<rparr> =
     (let (r, fs1) = evict fs k;
          before = length (fs_rejections fs1);
          (f, fs2) = place_or_reject E fs1 i t (Some k)
      in (case f of
            Some x \<Rightarrow> ([x], fs2)
          | None \<Rightarrow> ([], if before < length (fs_rejections fs2) then restore fs2 r else fs2)))"
| "apply_op E fs \<lparr>po_at = t, po_op = CancelOp k\<rparr> = ([], cancel_id fs k)"
| "apply_op E fs \<lparr>po_at = t, po_op = CancelAllOp\<rparr> =
     ([], fs\<lparr>fs_live := filter (\<lambda>q. lq_id q \<in> fs_managers fs) (fs_live fs), fs_dirty := True\<rparr>)"

fun apply_ops :: "sim_env \<Rightarrow> fill_sim \<Rightarrow> pending_op list \<Rightarrow> fill list \<times> fill_sim" where
  "apply_ops E fs [] = ([], fs)"
| "apply_ops E fs (p # ps) =
     (let (xs, fs1) = apply_op E fs p; (ys, fs2) = apply_ops E fs1 ps in (xs @ ys, fs2))"

text \<open>\<open>partition_point\<close> on the queue, which is sorted, splits it at the first later operation.\<close>

definition apply_pending :: "sim_env \<Rightarrow> fill_sim \<Rightarrow> timestamp \<Rightarrow> fill list \<times> fill_sim" where
  "apply_pending E fs now =
     apply_ops E (fs\<lparr>fs_pending := dropWhile (\<lambda>p. po_at p \<le> now) (fs_pending fs)\<rparr>)
       (takeWhile (\<lambda>p. po_at p \<le> now) (fs_pending fs))"

subsection \<open>Queue decay and silent cancels\<close>

definition decay_queue_ahead :: "sim_env \<Rightarrow> fill_sim \<Rightarrow> timestamp \<Rightarrow> fill_sim" where
  "decay_queue_ahead E fs now =
     (let F = se_float E; rate = fc_queue_decay (fs_cfg fs) in
      if rate \<le> 0 \<or> fs_live fs = [] then fs
      else case fs_last_event fs of None \<Rightarrow> fs | Some prev \<Rightarrow>
        let dt = sat_sub now prev in
        if dt = 0 then fs
        else let secs = f_div F (f_of_nat F (unat dt)) 1000000000;
                 factor = f_exp F (f_mul F (- rate) secs)
        in if 1 \<le> factor then fs
           else case from_f64 (se_dec E) factor of None \<Rightarrow> fs | Some f \<Rightarrow>
             fs\<lparr>fs_live := map (\<lambda>q. if 0 < lq_queue_ahead q
                 then q\<lparr>lq_queue_ahead := dmul (se_dec E) (lq_queue_ahead q) f\<rparr> else q) (fs_live fs)\<rparr>)"

fun roll_quotes :: "rat \<Rightarrow> u64 \<Rightarrow> live_quote list \<Rightarrow> live_quote list \<times> u64" where
  "roll_quotes p st [] = ([], st)"
| "roll_quotes p st (q # qs) =
     (let (r, st1) = next_unit_f64 st; (kept, st2) = roll_quotes p st1 qs
      in (if p \<le> r then q # kept else kept, st2))"

definition silent_cancel_tick :: "sim_env \<Rightarrow> fill_sim \<Rightarrow> timestamp \<Rightarrow> fill_sim" where
  "silent_cancel_tick E fs now =
     (let F = se_float E; rate = fc_silent_cancel_rate (fs_cfg fs);
          fs1 = fs\<lparr>fs_last_event := Some now\<rparr> in
      if rate \<le> 0 then fs1
      else let elapsed = (case fs_last_event fs of Some prev \<Rightarrow> sat_sub now prev | None \<Rightarrow> 0) in
        if elapsed = 0 \<or> fs_live fs = [] then fs1
        else let mins = f_div F (f_of_nat F (unat elapsed)) 60000000000;
                 p = max 0 (min 1 (f_mul F rate mins))
        in if p \<le> 0 then fs1
           else let (kept, st) = roll_quotes p (fs_rng fs) (fs_live fs)
                in fs1\<lparr>fs_live := kept, fs_rng := st, fs_dirty := True\<rparr>)"

subsection \<open>Book updates\<close>

definition level_map :: "level list \<Rightarrow> levels" where
  "level_map ls = foldl (\<lambda>m l. AList.update (lv_price l) (lv_size l) m) [] ls"

definition in_depth :: "snapshot \<Rightarrow> live_quote \<Rightarrow> bool" where
  "in_depth sn q = (case lq_side q of
     Bid \<Rightarrow> (case last_opt (sn_bids sn) of Some l \<Rightarrow> lv_price l \<le> lq_price q | None \<Rightarrow> False)
   | Ask \<Rightarrow> (case last_opt (sn_asks sn) of Some l \<Rightarrow> lq_price q \<le> lv_price l | None \<Rightarrow> False))"

definition attribute_cancels ::
    "decimal_ops \<Rightarrow> snapshot \<Rightarrow> book_state \<Rightarrow> book_state \<Rightarrow> live_quote \<Rightarrow> live_quote" where
  "attribute_cancels D sn old new q =
     (let prev_agg = level_size old (lq_side q) (lq_price q);
          new_agg = level_size new (lq_side q) (lq_price q)
      in if lq_symbol q = sn_symbol sn \<and> in_depth sn q \<and> 0 < prev_agg
            \<and> new_agg < prev_agg \<and> 0 < new_agg
         then q\<lparr>lq_queue_ahead := ddiv D (dmul D (lq_queue_ahead q) new_agg) prev_agg\<rparr>
         else q)"

definition update_book_state :: "decimal_ops \<Rightarrow> fill_sim \<Rightarrow> snapshot \<Rightarrow> fill_sim" where
  "update_book_state D fs sn =
     (let sy = sn_symbol sn; old = book_of fs sy;
          new = set_top (old\<lparr>bs_bids := level_map (sn_bids sn), bs_asks := level_map (sn_asks sn)\<rparr>)
                  (map_option lv_price (first_opt (sn_bids sn)))
                  (map_option lv_price (first_opt (sn_asks sn)))
      in put_book (fs\<lparr>fs_live := map (attribute_cancels D sn old new) (fs_live fs)\<rparr>) sy new)"

subsection \<open>Trades\<close>

definition quote_takes_trade :: "side \<Rightarrow> price \<Rightarrow> side \<Rightarrow> price \<Rightarrow> bool" where
  "quote_takes_trade qs qp taker tp = (case (qs, taker) of
     (Bid, Ask) \<Rightarrow> tp \<le> qp
   | (Ask, Bid) \<Rightarrow> qp \<le> tp
   | _ \<Rightarrow> False)"

definition eligible :: "fill_sim \<Rightarrow> symbol \<Rightarrow> price \<Rightarrow> side \<Rightarrow> nat list" where
  "eligible fs sy tp taker =
     sort_key (\<lambda>i. walk_key taker (lq_price (fs_live fs ! i)))
       (filter (\<lambda>i. lq_symbol (fs_live fs ! i) = sy
           \<and> quote_takes_trade (lq_side (fs_live fs ! i)) (lq_price (fs_live fs ! i)) taker tp)
         [0..<length (fs_live fs)])"

definition eat_queue ::
    "decimal_ops \<Rightarrow> symbol \<Rightarrow> price \<Rightarrow> fill_sim \<Rightarrow> rat \<Rightarrow> nat \<Rightarrow> rat \<times> fill_sim" where
  "eat_queue D sy tp fs remaining i =
     (let q = fs_live fs ! i in
      if tp = lq_price q then
        let ate = min (lq_queue_ahead q) remaining in
        if 0 < ate then
          (dsub D remaining ate,
           fs\<lparr>fs_live := (fs_live fs)[i := q\<lparr>lq_queue_ahead := dsub D (lq_queue_ahead q) ate\<rparr>],
              fs_book := (case fs_book fs sy of None \<Rightarrow> fs_book fs
                | Some b \<Rightarrow> (fs_book fs)(sy \<mapsto> decrement_level D b (lq_side q) (lq_price q) ate))\<rparr>)
        else (remaining, fs)
      else if 0 < lq_queue_ahead q
        then (remaining, fs\<lparr>fs_live := (fs_live fs)[i := q\<lparr>lq_queue_ahead := 0\<rparr>]\<rparr>)
        else (remaining, fs))"

definition maker_fee :: "decimal_ops \<Rightarrow> fill_sim \<Rightarrow> price \<Rightarrow> rat \<Rightarrow> rat" where
  "maker_fee D fs p amt = round_dp D (ddiv D (dmul D (dmul D (round_dp D p 8) (round_dp D amt 8))
     (dec_i32 (vf_maker_bps (fc_fees (fs_cfg fs))))) 10000) 8"

definition fill_quote ::
    "decimal_ops \<Rightarrow> symbol \<Rightarrow> timestamp \<Rightarrow> fill_sim \<Rightarrow> rat \<Rightarrow> nat \<Rightarrow> fill \<times> rat \<times> bool \<times> fill_sim" where
  "fill_quote D sy ts fs remaining i =
     (let q = fs_live fs ! i;
          amt = min (lq_size q) remaining;
          fee = maker_fee D fs (lq_price q) amt;
          f = \<lparr>f_quote_id = lq_id q, f_price = lq_price q, f_size = amt,
               f_fee_asset = sy_quote sy, f_fee_amount = fee, f_fee_quote = fee,
               f_side = lq_side q, f_ts = ts, f_is_full = (lq_size q \<le> amt), f_trade_id = None\<rparr>;
          fs1 = add_units D fs sy (lq_side q) amt;
          fs2 = spot_settle D fs1 (lq_side q) (round_dp D (dmul D (lq_price q) amt) 8) amt fee;
          left = dsub D (lq_size q) amt
      in (f, dsub D remaining amt, left = 0,
          fs2\<lparr>fs_live := (fs_live fs2)[i := q\<lparr>lq_size := left\<rparr>], fs_dirty := True\<rparr>))"

fun match_loop ::
    "decimal_ops \<Rightarrow> symbol \<Rightarrow> price \<Rightarrow> timestamp \<Rightarrow> fill_sim \<Rightarrow> rat \<Rightarrow> nat list \<Rightarrow>
       fill list \<times> nat list \<times> fill_sim" where
  "match_loop D sy tp ts fs remaining [] = ([], [], fs)"
| "match_loop D sy tp ts fs remaining (i # is) =
     (if remaining \<le> 0 then ([], [], fs)
      else let (r1, fs1) = eat_queue D sy tp fs remaining i in
        if r1 = 0 then ([], [], fs1)
        else let (f, r2, full, fs2) = fill_quote D sy ts fs1 r1 i;
                 (out, drained, fs3) = match_loop D sy tp ts fs2 r2 is
             in (f # out, if full then i # drained else drained, fs3))"

definition remove_nth :: "'a list \<Rightarrow> nat \<Rightarrow> 'a list" where
  "remove_nth xs i = take i xs @ drop (Suc i) xs"

definition match_trade ::
    "decimal_ops \<Rightarrow> fill_sim \<Rightarrow> symbol \<Rightarrow> price \<Rightarrow> qsize \<Rightarrow> side \<Rightarrow> timestamp \<Rightarrow>
       fill list \<times> fill_sim" where
  "match_trade D fs sy tp sz taker ts =
     (if tp \<le> 0 \<or> sz \<le> 0 then ([], fs)
      else let (out, drained, fs1) = match_loop D sy tp ts fs sz (eligible fs sy tp taker)
           in (out, fs1\<lparr>fs_live := foldl remove_nth (fs_live fs1) (rev (sort drained))\<rparr>))"

definition on_market_event ::
    "sim_env \<Rightarrow> fill_sim \<Rightarrow> market_event \<Rightarrow> timestamp \<Rightarrow> fill list \<times> fill_sim" where
  "on_market_event E fs ev now =
     (if fs_live_mirror fs then
        let (fills, fs1) = apply_pending E (fs\<lparr>fs_last_event := Some now\<rparr>) now
        in (fills, case ev of BookUpdate sn \<Rightarrow> update_book_state (se_dec E) fs1 sn | _ \<Rightarrow> fs1)
      else
        let fs1 = silent_cancel_tick E (decay_queue_ahead E fs now) now;
            (fills, fs2) = apply_pending E fs1 now
        in case ev of
             BookUpdate sn \<Rightarrow> (fills, update_book_state (se_dec E) fs2 sn)
           | Trade sy p sz s ts \<Rightarrow>
               (let (more, fs3) = match_trade (se_dec E) fs2 sy p sz s ts in (fills @ more, fs3))
           | Heartbeat _ \<Rightarrow> (fills, fs2)
           | FillEv _ \<Rightarrow> (fills, fs2))"

end
