(* ===== verification/Sim_Laws.thy ===== *)
theory Sim_Laws
  imports Sim_Events
begin

text \<open>
  The invariants of the fill engine under its whole public interface: the pending queue stays
  sorted, the cached commitment is current unless its flag is raised, and the books have one
  entry per price.  \<open>sim_call\<close> is a call, \<open>sim_step\<close> its effect.
\<close>

datatype sim_call =
  ActCall action timestamp
| EnqueueCall quote_intent timestamp quote_id
| EventCall market_event timestamp
| WalletCall rat
| SeedCall rat rat
| MirrorCall bool
| DrainCall
| MarkCall quote_id
| UnmarkCall quote_id
| ViewCall symbol
| DropCall quote_id
| DropForCall symbol
| RetainCall symbol "quote_id set"
| ReconcileCall symbol "open_order list"

fun sim_step :: "sim_env \<Rightarrow> fill_sim \<Rightarrow> sim_call \<Rightarrow> fill_sim" where
  "sim_step E fs (ActCall a now) = on_action E fs a now"
| "sim_step E fs (EnqueueCall i now k) = enqueue_place_with_id E fs i now k"
| "sim_step E fs (EventCall ev now) = snd (on_market_event E fs ev now)"
| "sim_step E fs (WalletCall w) = set_wallet fs w"
| "sim_step E fs (SeedCall c u) = seed_spot fs c u"
| "sim_step E fs (MirrorCall on) = set_live_mirror fs on"
| "sim_step E fs DrainCall = snd (drain_rejections fs)"
| "sim_step E fs (MarkCall k) = mark_manager fs k"
| "sim_step E fs (UnmarkCall k) = unmark_manager fs k"
| "sim_step E fs (ViewCall sy) = snd (open_quotes E fs sy)"
| "sim_step E fs (DropCall k) = drop_quote fs k"
| "sim_step E fs (DropForCall sy) = drop_quotes_for fs sy"
| "sim_step E fs (RetainCall sy ks) = snd (retain_quotes_for fs sy ks)"
| "sim_step E fs (ReconcileCall sy rs) = snd (reconcile_quotes_for fs sy rs)"

definition sim_run :: "sim_env \<Rightarrow> fill_sim \<Rightarrow> sim_call list \<Rightarrow> fill_sim" where
  "sim_run E fs cs = foldl (sim_step E) fs cs"

subsection \<open>The commitment cache\<close>

definition refresh_committed :: "decimal_ops \<Rightarrow> fill_sim \<Rightarrow> fill_sim" where
  "refresh_committed D fs =
     (if fs_dirty fs then fs\<lparr>fs_committed := committed_scan D (fs_live fs), fs_dirty := False\<rparr>
      else fs)"

definition commitment_at :: "(symbol \<Rightarrow> (rat \<times> rat \<times> rat) option) \<Rightarrow> symbol \<Rightarrow> rat \<times> rat \<times> rat" where
  "commitment_at m sy = (case m sy of Some e \<Rightarrow> e | None \<Rightarrow> (0, 0, 0))"

lemma committed_for_eq:
  "committed_for D fs sy =
     (commitment_at (fs_committed (refresh_committed D fs)) sy, refresh_committed D fs)"
  by (simp add: committed_for_def refresh_committed_def commitment_at_def Let_def)

interpretation commitment: lazy_cache "\<lambda>fs. committed_scan D (fs_live fs)" fs_dirty fs_committed
    "refresh_committed D" for D
  by unfold_locales (simp_all add: refresh_committed_def)

definition lq_core :: "live_quote \<Rightarrow> symbol \<times> side \<times> price \<times> qsize" where
  "lq_core q = (lq_symbol q, lq_side q, lq_price q, lq_size q)"

fun core_quote :: "symbol \<times> side \<times> price \<times> qsize \<Rightarrow> live_quote" where
  "core_quote (sy, s, p, z) = \<lparr>lq_id = 0, lq_symbol = sy, lq_side = s, lq_price = p, lq_size = z,
     lq_queue_ahead = 0, lq_ts = 0\<rparr>"

lemma lq_core_core_quote [simp]: "lq_core (core_quote c) = c"
  by (cases c) (simp add: lq_core_def)

lemma add_commitment_core: "add_commitment D m q = add_commitment D m (core_quote (lq_core q))"
  by (cases "lq_side q") (simp_all add: lq_core_def add_commitment_def)

lemma committed_scan_map_core:
  "committed_scan D qs = foldl (\<lambda>m c. add_commitment D m (core_quote c)) Map.empty (map lq_core qs)"
  by (simp add: committed_scan_def foldl_map flip: add_commitment_core)

lemma committed_scan_core: "map lq_core qs = map lq_core qs' \<Longrightarrow> committed_scan D qs = committed_scan D qs'"
  by (simp only: committed_scan_map_core)

subsection \<open>The invariant\<close>

definition queue_sorted :: "fill_sim \<Rightarrow> bool" where
  "queue_sorted fs \<longleftrightarrow> sorted (map po_at (fs_pending fs))"

definition books_distinct :: "fill_sim \<Rightarrow> bool" where
  "books_distinct fs \<longleftrightarrow> (\<forall>sy b. fs_book fs sy = Some b \<longrightarrow> book_ok b)"

definition cache_current :: "decimal_ops \<Rightarrow> fill_sim \<Rightarrow> bool" where
  "cache_current D fs \<longleftrightarrow> (\<not> fs_dirty fs \<longrightarrow> fs_committed fs = committed_scan D (fs_live fs))"

definition sim_ok :: "decimal_ops \<Rightarrow> fill_sim \<Rightarrow> bool" where
  "sim_ok D fs \<longleftrightarrow> queue_sorted fs \<and> books_distinct fs \<and> cache_current D fs"

lemmas ok_defs = sim_ok_def queue_sorted_def books_distinct_def cache_current_def

lemma sim_ok_frame:
  assumes "sim_ok D fs" "sorted (map po_at (fs_pending fs'))" "fs_book fs' = fs_book fs"
    "fs_dirty fs' \<or> fs_dirty fs' = fs_dirty fs \<and> fs_committed fs' = fs_committed fs
       \<and> map lq_core (fs_live fs') = map lq_core (fs_live fs)"
  shows "sim_ok D fs'"
  using assms committed_scan_core [of "fs_live fs'" "fs_live fs" D] by (auto simp: ok_defs)

lemma sim_ok_new: "sim_ok D (fill_sim_new cfg)"
  by (simp add: fill_sim_new_def ok_defs Let_def)

lemma sim_ok_enqueue: "sim_ok D fs \<Longrightarrow> sim_ok D (enqueue fs t p)"
  by (rule sim_ok_frame [of D fs]) (simp_all add: enqueue_def)

lemma sample_latency_state:
  "\<exists>st. snd (sample_latency_ns E fs base) = fs\<lparr>fs_latency_rng := st\<rparr>"
  by (auto simp: sample_latency_ns_def Let_def split: prod.splits
      intro: exI [of _ "fs_latency_rng fs"])

lemma sim_ok_latency: "sim_ok D fs \<Longrightarrow> sim_ok D (fs\<lparr>fs_latency_rng := st\<rparr>)"
  by (simp add: ok_defs)

lemma sim_ok_submit: "sim_ok D fs \<Longrightarrow> sim_ok D (submit E fs now p)"
  using sample_latency_state [of E fs "fc_submit_latency_ms (fs_cfg fs)"]
  by (auto simp: submit_def case_prod_unfold Let_def intro!: sim_ok_enqueue sim_ok_latency)

lemma sim_ok_submit_cancel: "sim_ok D fs \<Longrightarrow> sim_ok D (submit_cancel E fs now p)"
  using sample_latency_state [of E fs "fc_cancel_latency_ms (fs_cfg fs)"]
  by (auto simp: submit_cancel_def case_prod_unfold Let_def intro!: sim_ok_enqueue sim_ok_latency)

lemma sim_ok_on_action: "sim_ok D fs \<Longrightarrow> sim_ok D (on_action E fs a now)"
  by (cases a) (simp_all add: sim_ok_submit sim_ok_submit_cancel)

lemma sorted_po_filter [simp]:
  "sim_ok D fs \<Longrightarrow> sorted (map po_at (filter P (fs_pending fs)))"
  by (auto simp: ok_defs intro: sorted_key_filter)

lemma sim_ok_purge: "sim_ok D fs \<Longrightarrow> sim_ok D (purge_pending_id fs k)"
  by (rule sim_ok_frame [of D fs]) (simp_all add: purge_pending_id_def)

lemma sim_ok_live: "sim_ok D fs \<Longrightarrow> sim_ok D (fs\<lparr>fs_live := qs, fs_dirty := True\<rparr>)"
  by (simp add: ok_defs)

lemma sim_ok_cancel: "sim_ok D fs \<Longrightarrow> sim_ok D (cancel_id fs k)"
  unfolding cancel_id_def by (intro sim_ok_purge sim_ok_live)

lemma sim_ok_drop_for: "sim_ok D fs \<Longrightarrow> sim_ok D (drop_quotes_for fs sy)"
  by (rule sim_ok_frame [of D fs]) (simp_all add: drop_quotes_for_def)

lemma filter_same_length: "length (filter P xs) = length xs \<Longrightarrow> filter P xs = xs"
  by (metis filter_True length_filter_less less_irrefl)

lemma retain_nothing:
  assumes "\<not> 0 < length xs - length (filter P xs)" shows "filter P xs = xs"
  using assms length_filter_le [of P xs] by (intro filter_same_length) simp

lemma sim_ok_retain: "sim_ok D fs \<Longrightarrow> sim_ok D (snd (retain_quotes_for fs sy ks))"
  using retain_nothing [of "fs_live fs" "\<lambda>q. lq_symbol q \<noteq> sy \<or> lq_id q \<in> ks"]
  unfolding retain_quotes_for_def Let_def
  by (cases "0 < length (fs_live fs) - length (filter (\<lambda>q. lq_symbol q \<noteq> sy \<or> lq_id q \<in> ks) (fs_live fs))")
    (simp_all only: snd_conv if_True if_False sim_ok_live ok_defs, simp_all)

lemma sim_ok_reconcile: "sim_ok D fs \<Longrightarrow> sim_ok D (snd (reconcile_quotes_for fs sy rs))"
  using sim_ok_retain [of D fs sy "set (map oo_id rs)"]
  by (auto simp: reconcile_quotes_for_def case_prod_unfold Let_def intro: sim_ok_live)

subsection \<open>Placement keeps the invariant\<close>

text \<open>The gates read the state; the only thing they may change is the cache.\<close>

lemma spot_gate_state: "snd (spot_gate D fs i) \<in> {fs, refresh_committed D fs}"
  by (simp add: spot_gate_def committed_for_eq case_prod_unfold Let_def)

lemma margin_gate_state: "snd (margin_gate D fs i pos) \<in> {fs, refresh_committed D fs}"
  by (simp add: margin_gate_def committed_for_eq case_prod_unfold Let_def)

lemma futures_gate_state: "snd (futures_gate D fs i) \<in> {fs, refresh_committed D fs}"
  using margin_gate_state [of D fs i] by (simp add: futures_gate_def case_prod_unfold Let_def)

lemma place_gates_state: "snd (place_gates D fs i) \<in> {fs, refresh_committed D fs}"
  using spot_gate_state [of D fs i] futures_gate_state [of D fs i] by (simp add: place_gates_def)

lemma refresh_committed_fields [simp]:
  "fs_cfg (refresh_committed D fs) = fs_cfg fs"
  "fs_pending (refresh_committed D fs) = fs_pending fs"
  "fs_live (refresh_committed D fs) = fs_live fs"
  "fs_managers (refresh_committed D fs) = fs_managers fs"
  "fs_book (refresh_committed D fs) = fs_book fs"
  "fs_rejections (refresh_committed D fs) = fs_rejections fs"
  "fs_position_units (refresh_committed D fs) = fs_position_units fs"
  "fs_wallet (refresh_committed D fs) = fs_wallet fs"
  "fs_spot_cash (refresh_committed D fs) = fs_spot_cash fs"
  "fs_spot_units (refresh_committed D fs) = fs_spot_units fs"
  "fs_rng (refresh_committed D fs) = fs_rng fs"
  "fs_latency_rng (refresh_committed D fs) = fs_latency_rng fs"
  "fs_last_event (refresh_committed D fs) = fs_last_event fs"
  "fs_live_mirror (refresh_committed D fs) = fs_live_mirror fs"
  "fs_minted (refresh_committed D fs) = fs_minted fs"
  by (simp_all add: refresh_committed_def)

lemma sim_ok_refresh: "sim_ok D fs \<Longrightarrow> sim_ok D (refresh_committed D fs)"
  using commitment.coherent_refresh [of fs D] by (auto simp: ok_defs)

lemma sim_ok_gates: "sim_ok D fs \<Longrightarrow> sim_ok D (snd (place_gates D fs i))"
  using place_gates_state [of D fs i] sim_ok_refresh [of D fs] by auto

lemma sim_ok_reject: "sim_ok D fs \<Longrightarrow> sim_ok D (reject fs i r)"
  by (rule sim_ok_frame [of D fs]) (simp_all add: reject_def ok_defs)

lemma sim_ok_put_book: "sim_ok D fs \<Longrightarrow> book_ok b \<Longrightarrow> sim_ok D (put_book fs sy b)"
  by (simp add: ok_defs put_book_def)

lemma book_ok_of: "sim_ok D fs \<Longrightarrow> book_ok (book_of fs sy)"
  by (auto simp: ok_defs book_of_def split: option.splits)

lemma book_ok_take: "book_ok b \<Longrightarrow> book_ok (take_levels D s ls b)"
  unfolding take_levels_def
  by (induction ls arbitrary: b) (auto simp: book_ok_decrement)

lemma sim_ok_units: "sim_ok D fs \<Longrightarrow> sim_ok D (add_units D' fs sy s amt)"
  by (rule sim_ok_frame [of D fs]) (simp_all add: add_units_def ok_defs Let_def)

lemma sim_ok_settle: "sim_ok D fs \<Longrightarrow> sim_ok D (spot_settle D' fs s v amt fee)"
  by (rule sim_ok_frame [of D fs]) (simp_all add: spot_settle_def ok_defs Let_def)

lemma sim_ok_minted: "sim_ok D fs \<Longrightarrow> sim_ok D (fs\<lparr>fs_minted := n\<rparr>)"
  by (simp add: ok_defs)

lemma sim_ok_fill_immediate:
  assumes "sim_ok D fs" shows "sim_ok D (snd (fill_immediate E fs i ts))"
  using book_ok_of [OF assms]
  by (auto simp: fill_immediate_def Let_def intro!: sim_ok_minted sim_ok_settle sim_ok_units
      sim_ok_put_book assms book_ok_take)

lemma sim_ok_rest: "sim_ok D fs \<Longrightarrow> sim_ok D (rest_quote E fs i ts oid)"
  by (simp add: rest_quote_def ok_defs Let_def split: option.splits prod.splits)

lemma sim_ok_place: "sim_ok (se_dec E) fs \<Longrightarrow> sim_ok (se_dec E) (snd (place_or_reject E fs i ts oid))"
  using sim_ok_gates [of "se_dec E" fs i]
  by (auto simp: place_or_reject_def sim_ok_reject sim_ok_fill_immediate sim_ok_rest
      split: prod.splits option.splits)

lemma sim_ok_evict: "sim_ok D fs \<Longrightarrow> sim_ok D (snd (evict fs k))"
proof -
  have none: "qs' = qs" if "take_quote k qs = (None, qs')" for qs qs'
    using that by (induction qs arbitrary: qs') (auto split: if_splits prod.splits)
  assume "sim_ok D fs"
  then show ?thesis
    by (cases "take_quote k (fs_live fs)")
      (auto simp: evict_def Let_def intro!: sim_ok_purge sim_ok_live dest: none)
qed

lemma sim_ok_restore: "sim_ok D fs \<Longrightarrow> sim_ok D (restore fs r)"
  by (cases r) (simp_all add: restore_def sim_ok_live)

lemma sim_ok_apply_op: "sim_ok (se_dec E) fs \<Longrightarrow> sim_ok (se_dec E) (snd (apply_op E fs p))"
proof (cases p)
  case (fields t o1)
  assume ok: "sim_ok (se_dec E) fs"
  show ?thesis
  proof (cases o1)
    case (PlaceOp i oid)
    with fields sim_ok_place [OF ok, of i t oid] show ?thesis
      by (simp add: case_prod_unfold Let_def)
  next
    case (ReplaceOp k i)
    with fields sim_ok_place [OF sim_ok_evict [OF ok, of k], of i t "Some k"] show ?thesis
      by (auto simp: case_prod_unfold Let_def sim_ok_restore split: option.splits)
  next
    case (CancelOp k)
    with fields ok show ?thesis by (simp add: sim_ok_cancel)
  next
    case CancelAllOp
    with fields ok show ?thesis by (simp add: sim_ok_live)
  qed
qed

lemma sim_ok_apply_ops: "sim_ok (se_dec E) fs \<Longrightarrow> sim_ok (se_dec E) (snd (apply_ops E fs ps))"
  by (induction ps arbitrary: fs) (simp_all add: case_prod_unfold Let_def sim_ok_apply_op)

lemma sim_ok_apply_pending: "sim_ok (se_dec E) fs \<Longrightarrow> sim_ok (se_dec E) (snd (apply_pending E fs now))"
  unfolding apply_pending_def
  by (intro sim_ok_apply_ops, rule sim_ok_frame [of _ fs])
    (auto simp: ok_defs intro: sorted_key_dropWhile)

subsection \<open>Market events keep the invariant\<close>

lemma sim_ok_core:
  "sim_ok D fs \<Longrightarrow> map lq_core qs = map lq_core (fs_live fs) \<Longrightarrow> sim_ok D (fs\<lparr>fs_live := qs\<rparr>)"
  by (rule sim_ok_frame [of D fs]) (simp_all add: ok_defs)

lemma sim_ok_last: "sim_ok D fs \<Longrightarrow> sim_ok D (fs\<lparr>fs_last_event := t\<rparr>)"
  by (simp add: ok_defs)

lemma sim_ok_decay: "sim_ok D fs \<Longrightarrow> sim_ok D (decay_queue_ahead E fs now)"
  by (auto simp: decay_queue_ahead_def Let_def lq_core_def intro!: sim_ok_core split: option.splits)

lemma sim_ok_silent: "sim_ok D fs \<Longrightarrow> sim_ok D (silent_cancel_tick E fs now)"
  by (simp add: silent_cancel_tick_def Let_def ok_defs split: prod.splits)

lemma distinct_level_map: "distinct (map fst (level_map ls))"
proof -
  have "distinct (map fst (foldl (\<lambda>m l. AList.update (lv_price l) (lv_size l) m) m ls))"
    if "distinct (map fst m)" for m
    using that by (induction ls arbitrary: m) (simp_all add: AList.distinct_update)
  then show ?thesis by (simp add: level_map_def)
qed

lemma sim_ok_update_book: "sim_ok D fs \<Longrightarrow> sim_ok D (update_book_state D' fs sn)"
  unfolding update_book_state_def Let_def
  by (intro sim_ok_put_book sim_ok_core)
    (auto simp: book_ok_def set_top_def distinct_level_map attribute_cancels_def lq_core_def Let_def)

lemma core_queue [simp]: "lq_core (q\<lparr>lq_queue_ahead := x\<rparr>) = lq_core q"
  by (simp add: lq_core_def)

lemma map_core_queue [simp]:
  "map lq_core (qs[i := (qs ! i)\<lparr>lq_queue_ahead := x\<rparr>]) = map lq_core qs"
  by (simp add: map_update) (metis list_update_id map_update)

lemma sim_ok_eat: "sim_ok D fs \<Longrightarrow> sim_ok D (snd (eat_queue D' sy tp fs r i))"
proof -
  assume ok: "sim_ok D fs"
  then have "sim_ok D (fs\<lparr>fs_live := (fs_live fs)[i := (fs_live fs ! i)\<lparr>lq_queue_ahead := x\<rparr>]\<rparr>)" for x
    by (rule sim_ok_core) simp
  with ok show ?thesis
    by (auto simp: eat_queue_def Let_def ok_defs book_ok_decrement split: option.splits)
qed

lemma sim_ok_fill_quote: "sim_ok D fs \<Longrightarrow> sim_ok D (snd (snd (snd (fill_quote D' sy ts fs r i))))"
  by (simp add: fill_quote_def Let_def sim_ok_live sim_ok_settle sim_ok_units)

text \<open>One round of the matching loop, and the rule for a property that every round keeps.\<close>

definition round_queue :: "decimal_ops \<Rightarrow> symbol \<Rightarrow> price \<Rightarrow> fill_sim \<Rightarrow> rat \<Rightarrow> nat \<Rightarrow> fill_sim" where
  "round_queue D sy tp fs r i = snd (eat_queue D sy tp fs r i)"

definition round_left :: "decimal_ops \<Rightarrow> symbol \<Rightarrow> price \<Rightarrow> fill_sim \<Rightarrow> rat \<Rightarrow> nat \<Rightarrow> rat" where
  "round_left D sy tp fs r i = fst (eat_queue D sy tp fs r i)"

lemma match_loop_Cons:
  "match_loop D sy tp ts fs r (i # is) =
     (if r \<le> 0 then ([], [], fs)
      else if round_left D sy tp fs r i = 0 then ([], [], round_queue D sy tp fs r i)
      else let x = fill_quote D sy ts (round_queue D sy tp fs r i) (round_left D sy tp fs r i) i;
               m = match_loop D sy tp ts (snd (snd (snd x))) (fst (snd x)) is
           in (fst x # fst m, if fst (snd (snd x)) then i # fst (snd m) else fst (snd m), snd (snd m)))"
  by (simp add: round_queue_def round_left_def case_prod_unfold Let_def)

declare match_loop.simps(2) [simp del]

lemma match_loop_keeps:
  assumes queue: "\<And>fs r i. P fs \<Longrightarrow> P (round_queue D sy tp fs r i)"
    and fill: "\<And>fs r i. P fs \<Longrightarrow> P (snd (snd (snd (fill_quote D sy ts fs r i))))"
  shows "P fs \<Longrightarrow> P (snd (snd (match_loop D sy tp ts fs r is)))"
proof (induction "is" arbitrary: fs r)
  case (Cons i "is")
  then show ?case by (simp add: match_loop_Cons Let_def queue fill)
qed simp

lemma sim_ok_match_loop:
  "sim_ok D fs \<Longrightarrow> sim_ok D (snd (snd (match_loop D' sy tp ts fs r is)))"
  by (rule match_loop_keeps [where P = "sim_ok D"])
    (simp_all add: round_queue_def sim_ok_eat sim_ok_fill_quote)

lemma match_loop_dirty:
  "fst (snd (match_loop D sy tp ts fs r is)) = [] \<or> fs_dirty (snd (snd (match_loop D sy tp ts fs r is)))"
proof (cases "is")
  case (Cons i js)
  have "fs_dirty (snd (snd (match_loop D sy tp ts fs' r' js)))" if "fs_dirty fs'" for fs' r'
    using that
    by (rule match_loop_keeps [where P = fs_dirty, rotated 2])
      (auto simp: round_queue_def eat_queue_def fill_quote_def Let_def)
  then show ?thesis using Cons
    by (simp add: match_loop_Cons Let_def fill_quote_def)
qed simp

lemma sim_ok_match_trade:
  assumes "sim_ok D fs" shows "sim_ok D (snd (match_trade D' fs sy tp sz taker ts))"
proof -
  let ?m = "match_loop D' sy tp ts fs sz (eligible fs sy tp taker)"
  have ok: "sim_ok D (snd (snd ?m))" by (rule sim_ok_match_loop) (rule assms)
  have "sim_ok D ((snd (snd ?m))\<lparr>fs_live := foldl remove_nth (fs_live (snd (snd ?m)))
      (rev (sort (fst (snd ?m))))\<rparr>)"
  proof (cases "fst (snd ?m) = []")
    case True
    with ok show ?thesis by simp
  next
    case False
    with match_loop_dirty [of D' sy tp ts fs sz "eligible fs sy tp taker"] ok show ?thesis
      by (simp add: ok_defs)
  qed
  with assms show ?thesis
    by (simp add: match_trade_def case_prod_unfold Let_def)
qed

lemma sim_ok_event:
  assumes "sim_ok (se_dec E) fs" shows "sim_ok (se_dec E) (snd (on_market_event E fs ev now))"
proof -
  note live = sim_ok_apply_pending [OF sim_ok_last [OF assms], of "Some now" now]
  note paper = sim_ok_apply_pending [OF sim_ok_silent [OF sim_ok_decay [OF assms]]]
  show ?thesis
    using live paper
    by (cases ev) (auto simp: on_market_event_def case_prod_unfold Let_def sim_ok_update_book
        sim_ok_match_trade)
qed

lemma sim_ok_views:
  "sim_ok D fs \<Longrightarrow> sim_ok D (snd (open_quotes E fs sy))"
  by (simp add: open_quotes_def ok_defs Let_def)

lemma sim_ok_step: "sim_ok (se_dec E) fs \<Longrightarrow> sim_ok (se_dec E) (sim_step E fs c)"
proof (cases c)
  case (EventCall ev now)
  assume "sim_ok (se_dec E) fs"
  with EventCall show ?thesis by (simp add: sim_ok_event)
qed (simp_all add: sim_ok_on_action enqueue_place_with_id_def sim_ok_submit sim_ok_views drop_quote_def
    sim_ok_cancel sim_ok_drop_for sim_ok_retain sim_ok_reconcile,
    simp_all add: ok_defs set_wallet_def seed_spot_def set_live_mirror_def drain_rejections_def
      mark_manager_def unmark_manager_def)

interpretation sim: call_invariant "sim_step E" "\<lambda>_. True" "sim_ok (se_dec E)" for E
  by unfold_locales (rule sim_ok_step)

lemma sim_ok_run: "sim_ok (se_dec E) (sim_run E (fill_sim_new cfg) cs)"
  unfolding sim_run_def by (rule sim.run_inv [OF sim_ok_new]) simp

text \<open>
  C12: The cached commitment is exact: after any sequence of calls on the engine, what the
  placement gates read through the cache is the commitment recomputed from the orders resting
  now, whatever was filled, cancelled, replaced, imported or dropped in between.
\<close>

theorem commitment_cache_exact:
  "fst (committed_for (se_dec E) (sim_run E (fill_sim_new cfg) cs) sy) =
     commitment_at (committed_scan (se_dec E) (fs_live (sim_run E (fill_sim_new cfg) cs))) sy"
  using sim_ok_run [of E cfg cs] commitment.read_exact [of "sim_run E (fill_sim_new cfg) cs" "se_dec E"]
  by (auto simp: ok_defs committed_for_eq)

text \<open>
  The pending queue keeps its discipline: after any sequence of calls it is sorted by due
  time, so a market event takes exactly the operations that are due, in the order of their
  due times; operations due at the same time keep the order in which they were submitted.
\<close>

theorem pending_queue_fifo:
  "let fs = sim_run E (fill_sim_new cfg) cs in
     takeWhile (\<lambda>p. po_at p \<le> now) (fs_pending fs) = filter (\<lambda>p. po_at p \<le> now) (fs_pending fs)
     \<and> filter (\<lambda>p. po_at p = t) (fs_pending (enqueue fs t x)) =
         filter (\<lambda>p. po_at p = t) (fs_pending fs) @ [\<lparr>po_at = t, po_op = x\<rparr>]"
proof -
  have "sorted (map po_at (fs_pending (sim_run E (fill_sim_new cfg) cs)))"
    using sim_ok_run [of E cfg cs] by (simp add: ok_defs)
  then show ?thesis
    by (simp add: Let_def enqueue_def sort_key_stable sorted_takeWhile_le)
qed

end
