(* ===== verification/Sim_Place.thy ===== *)
theory Sim_Place
  imports Sim_Laws
begin

text \<open>
  What a placement guarantees: the post-only rule, the balance and margin gates, the cap on
  resting orders, and the atomic replace.
\<close>

lemma place_gates_fields:
  "fs_live (snd (place_gates D fs i)) = fs_live fs"
  "fs_pending (snd (place_gates D fs i)) = fs_pending fs"
  "fs_managers (snd (place_gates D fs i)) = fs_managers fs"
  "fs_book (snd (place_gates D fs i)) = fs_book fs"
  "fs_cfg (snd (place_gates D fs i)) = fs_cfg fs"
  "fs_rejections (snd (place_gates D fs i)) = fs_rejections fs"
  "fs_position_units (snd (place_gates D fs i)) = fs_position_units fs"
  "fs_wallet (snd (place_gates D fs i)) = fs_wallet fs"
  "fs_spot_cash (snd (place_gates D fs i)) = fs_spot_cash fs"
  "fs_spot_units (snd (place_gates D fs i)) = fs_spot_units fs"
  using place_gates_state [of D fs i] by auto

lemma add_units_fields [simp]:
  "fs_live (add_units D fs sy s a) = fs_live fs"
  "fs_pending (add_units D fs sy s a) = fs_pending fs"
  "fs_cfg (add_units D fs sy s a) = fs_cfg fs"
  "fs_managers (add_units D fs sy s a) = fs_managers fs"
  "fs_rejections (add_units D fs sy s a) = fs_rejections fs"
  "fs_book (add_units D fs sy s a) = fs_book fs"
  "fs_spot_cash (add_units D fs sy s a) = fs_spot_cash fs"
  "fs_spot_units (add_units D fs sy s a) = fs_spot_units fs"
  "fs_minted (add_units D fs sy s a) = fs_minted fs"
  "fs_live_mirror (add_units D fs sy s a) = fs_live_mirror fs"
  by (simp_all add: add_units_def Let_def)

lemma spot_settle_fields [simp]:
  "fs_live (spot_settle D fs s v a f) = fs_live fs"
  "fs_pending (spot_settle D fs s v a f) = fs_pending fs"
  "fs_cfg (spot_settle D fs s v a f) = fs_cfg fs"
  "fs_managers (spot_settle D fs s v a f) = fs_managers fs"
  "fs_rejections (spot_settle D fs s v a f) = fs_rejections fs"
  "fs_book (spot_settle D fs s v a f) = fs_book fs"
  "fs_position_units (spot_settle D fs s v a f) = fs_position_units fs"
  "fs_minted (spot_settle D fs s v a f) = fs_minted fs"
  "fs_live_mirror (spot_settle D fs s v a f) = fs_live_mirror fs"
  by (simp_all add: spot_settle_def Let_def)

lemma put_book_fields [simp]:
  "fs_live (put_book fs sy b) = fs_live fs"
  "fs_pending (put_book fs sy b) = fs_pending fs"
  "fs_cfg (put_book fs sy b) = fs_cfg fs"
  "fs_managers (put_book fs sy b) = fs_managers fs"
  "fs_rejections (put_book fs sy b) = fs_rejections fs"
  "fs_position_units (put_book fs sy b) = fs_position_units fs"
  "fs_spot_cash (put_book fs sy b) = fs_spot_cash fs"
  "fs_spot_units (put_book fs sy b) = fs_spot_units fs"
  "fs_live_mirror (put_book fs sy b) = fs_live_mirror fs"
  by (simp_all add: put_book_def)

lemma fill_immediate_fields:
  "fs_live (snd (fill_immediate E fs i ts)) = fs_live fs"
  "fs_pending (snd (fill_immediate E fs i ts)) = fs_pending fs"
  "fs_cfg (snd (fill_immediate E fs i ts)) = fs_cfg fs"
  "fs_managers (snd (fill_immediate E fs i ts)) = fs_managers fs"
  "fs_rejections (snd (fill_immediate E fs i ts)) = fs_rejections fs"
  by (simp_all add: fill_immediate_def Let_def)

lemma rest_quote_fields [simp]:
  "fs_pending (rest_quote E fs i ts oid) = fs_pending fs"
  "fs_cfg (rest_quote E fs i ts oid) = fs_cfg fs"
  "fs_managers (rest_quote E fs i ts oid) = fs_managers fs"
  "fs_rejections (rest_quote E fs i ts oid) = fs_rejections fs"
  "fs_book (rest_quote E fs i ts oid) = fs_book fs"
  "fs_position_units (rest_quote E fs i ts oid) = fs_position_units fs"
  "fs_wallet (rest_quote E fs i ts oid) = fs_wallet fs"
  "fs_spot_cash (rest_quote E fs i ts oid) = fs_spot_cash fs"
  "fs_spot_units (rest_quote E fs i ts oid) = fs_spot_units fs"
  by (simp_all add: rest_quote_def Let_def split: option.splits prod.splits)

text \<open>The order that a resting placement appends.\<close>

definition rested :: "sim_env \<Rightarrow> fill_sim \<Rightarrow> quote_intent \<Rightarrow> timestamp \<Rightarrow> quote_id option \<Rightarrow> live_quote" where
  "rested E fs i ts oid = \<lparr>lq_id = (case oid of Some k \<Rightarrow> k | None \<Rightarrow> se_uuid E (fs_minted fs)),
     lq_symbol = qi_symbol i, lq_side = qi_side i, lq_price = qi_price i, lq_size = qi_size i,
     lq_queue_ahead = (case fs_book fs (qi_symbol i) of
        Some b \<Rightarrow> level_size b (qi_side i) (qi_price i) | None \<Rightarrow> 0), lq_ts = ts\<rparr>"

lemma rest_quote_live: "fs_live (rest_quote E fs i ts oid) = fs_live fs @ [rested E fs i ts oid]"
  by (simp add: rest_quote_def rested_def Let_def split: option.splits)

lemma rested_core: "lq_core (rested E fs i ts oid) = (qi_symbol i, qi_side i, qi_price i, qi_size i)"
  by (simp add: rested_def lq_core_def)

lemma reject_fields [simp]:
  "fs_live (reject fs i r) = fs_live fs"
  "fs_pending (reject fs i r) = fs_pending fs"
  "fs_cfg (reject fs i r) = fs_cfg fs"
  "fs_managers (reject fs i r) = fs_managers fs"
  "fs_rejections (reject fs i r) = fs_rejections fs @ [(i, r)]"
  "fs_book (reject fs i r) = fs_book fs"
  "fs_position_units (reject fs i r) = fs_position_units fs"
  "fs_spot_cash (reject fs i r) = fs_spot_cash fs"
  "fs_spot_units (reject fs i r) = fs_spot_units fs"
  by (simp_all add: reject_def)

text \<open>The three outcomes of a placement.\<close>

lemma place_rejected:
  "fst (place_gates (se_dec E) fs i) = Some r \<Longrightarrow>
     place_or_reject E fs i ts oid = (None, reject (snd (place_gates (se_dec E) fs i)) i r)"
  by (cases "place_gates (se_dec E) fs i") (simp add: place_or_reject_def)

lemma place_immediate:
  "fst (place_gates (se_dec E) fs i) = None \<Longrightarrow> immediate (qi_tif i) \<Longrightarrow>
     place_or_reject E fs i ts oid = fill_immediate E (snd (place_gates (se_dec E) fs i)) i ts"
  by (cases "place_gates (se_dec E) fs i") (simp add: place_or_reject_def)

lemma place_rests:
  "fst (place_gates (se_dec E) fs i) = None \<Longrightarrow> \<not> immediate (qi_tif i) \<Longrightarrow>
     place_or_reject E fs i ts oid = (None, rest_quote E (snd (place_gates (se_dec E) fs i)) i ts oid)"
  by (cases "place_gates (se_dec E) fs i") (simp add: place_or_reject_def)

lemma place_outcomes [consumes 0, case_names rejected immediate rests]:
  assumes "\<And>r. fst (place_gates (se_dec E) fs i) = Some r \<Longrightarrow> P"
    and "fst (place_gates (se_dec E) fs i) = None \<Longrightarrow> immediate (qi_tif i) \<Longrightarrow> P"
    and "fst (place_gates (se_dec E) fs i) = None \<Longrightarrow> \<not> immediate (qi_tif i) \<Longrightarrow> P"
  shows P
  using assms by (cases "fst (place_gates (se_dec E) fs i)") auto

lemma place_live:
  "fs_live (snd (place_or_reject E fs i ts oid)) = fs_live fs
   \<or> (fst (place_gates (se_dec E) fs i) = None \<and> \<not> immediate (qi_tif i)
      \<and> (\<exists>q. fs_live (snd (place_or_reject E fs i ts oid)) = fs_live fs @ [q] \<and> lq_symbol q = qi_symbol i))"
  by (cases E fs i rule: place_outcomes)
    (auto simp: place_rejected place_immediate place_rests rest_quote_live place_gates_fields
      fill_immediate_fields rested_def)

lemma place_fields [simp]:
  "fs_pending (snd (place_or_reject E fs i ts oid)) = fs_pending fs"
  "fs_cfg (snd (place_or_reject E fs i ts oid)) = fs_cfg fs"
  "fs_managers (snd (place_or_reject E fs i ts oid)) = fs_managers fs"
  by (cases E fs i rule: place_outcomes; simp add: place_rejected place_immediate place_rests
      place_gates_fields fill_immediate_fields)+

lemma place_rejections:
  "fs_rejections (snd (place_or_reject E fs i ts oid)) = fs_rejections fs @
     (case fst (place_gates (se_dec E) fs i) of Some r \<Rightarrow> [(i, r)] | None \<Rightarrow> [])"
  by (cases E fs i rule: place_outcomes)
    (auto simp: place_rejected place_immediate place_rests place_gates_fields fill_immediate_fields)

subsection \<open>Post-only orders\<close>

text \<open>
  C17: A post-only order never takes: its placement produces no fill and changes neither the
  position nor the balances nor the book, and when it would cross the touch it does not rest
  either, but is reported back as one rejection.
\<close>

theorem post_only_never_takes:
  assumes "qi_tif i = PostOnly"
  shows "fst (place_or_reject E fs i ts oid) = None
    \<and> fs_position_units (snd (place_or_reject E fs i ts oid)) = fs_position_units fs
    \<and> fs_spot_cash (snd (place_or_reject E fs i ts oid)) = fs_spot_cash fs
    \<and> fs_spot_units (snd (place_or_reject E fs i ts oid)) = fs_spot_units fs
    \<and> fs_book (snd (place_or_reject E fs i ts oid)) = fs_book fs
    \<and> (would_cross fs i \<longrightarrow> fs_live (snd (place_or_reject E fs i ts oid)) = fs_live fs
         \<and> fs_rejections (snd (place_or_reject E fs i ts oid)) \<in>
             {fs_rejections fs @ [(i, TooManyOrders)], fs_rejections fs @ [(i, PostOnlyCross)]})"
proof -
  have ni: "\<not> immediate (qi_tif i)" using assms by (simp add: immediate_def)
  have cross: "fst (place_gates (se_dec E) fs i) \<in> {Some TooManyOrders, Some PostOnlyCross}"
    if "would_cross fs i"
    using that assms by (simp add: place_gates_def)
  show ?thesis
    using ni cross
    by (cases E fs i rule: place_outcomes)
      (auto simp: place_rejected place_rests place_gates_fields)
qed

subsection \<open>Balance gates\<close>

lemma committed_scan_snoc: "committed_scan D (qs @ [q]) = add_commitment D (committed_scan D qs) q"
  by (simp add: committed_scan_def)

lemma commitment_snoc:
  "commitment_at (committed_scan D (qs @ [q])) (lq_symbol q) =
     (case commitment_at (committed_scan D qs) (lq_symbol q) of (b, a, z) \<Rightarrow>
        (case lq_side q of
           Bid \<Rightarrow> (round_dp D (dadd D b (round_dp D (dmul D (lq_price q) (lq_size q)) 8)) 8, a, z)
         | Ask \<Rightarrow> (b, round_dp D (dadd D a (round_dp D (dmul D (lq_price q) (lq_size q)) 8)) 8,
             dadd D z (lq_size q))))"
  by (simp add: committed_scan_snoc add_commitment_def commitment_at_def Let_def split: option.splits
      prod.splits side.splits)

lemma committed_read:
  assumes "sim_ok D fs"
  shows "commitment_at (fs_committed (refresh_committed D fs)) sy = commitment_at (committed_scan D (fs_live fs)) sy"
  using assms commitment.read_exact [of fs D] by (simp add: ok_defs)

text \<open>
  Resting asks never exceed the holdings: in spot mode, when an ask comes to rest, all the
  asks of its symbol resting then, the new one included, are covered by the units held at that
  moment, so the asks that rest can all fill without a short position.
\<close>

theorem spot_asks_covered:
  assumes "sim_ok (se_dec E) fs" "fc_spot (fs_cfg fs)" "qi_side i = Ask"
    and "fs_live (snd (place_or_reject E fs i ts oid)) \<noteq> fs_live fs"
  shows "snd (snd (commitment_at (committed_scan (se_dec E)
      (fs_live (snd (place_or_reject E fs i ts oid)))) (qi_symbol i)))
    \<le> fs_spot_units (snd (place_or_reject E fs i ts oid))"
proof -
  have g: "fst (place_gates (se_dec E) fs i) = None" "\<not> immediate (qi_tif i)"
    using place_live [of E fs i ts oid] assms(4) by auto
  then have "fst (spot_gate (se_dec E) fs i) = None"
    using assms(2) by (simp add: place_gates_def split: if_splits)
  with g(2) assms(1,3) have le: "dadd (se_dec E) (snd (snd (commitment_at (committed_scan (se_dec E)
      (fs_live fs)) (qi_symbol i)))) (qi_size i) \<le> fs_spot_units fs"
    by (simp add: spot_gate_def committed_for_eq committed_read case_prod_unfold Let_def not_less
        split: if_splits)
  have core: "committed_scan (se_dec E) (fs_live fs @ [rested E (snd (place_gates (se_dec E) fs i)) i ts oid])
      = committed_scan (se_dec E) (fs_live fs @ [core_quote (qi_symbol i, qi_side i, qi_price i, qi_size i)])"
    by (rule committed_scan_core) (simp add: rested_core, simp add: lq_core_def)
  show ?thesis
    using le g core commitment_snoc [of "se_dec E" "fs_live fs"
        "core_quote (qi_symbol i, qi_side i, qi_price i, qi_size i)"] assms(3)
    by (simp add: place_rests rest_quote_live place_gates_fields case_prod_unfold)
qed

text \<open>
  C19: Resting orders stay within the buying power: in futures mode, with a wallet and a
  leverage set, when an order comes to rest the position together with all the bids of the
  symbol is at most the buying power, and together with all its asks at least its negative.
\<close>

theorem resting_within_buying_power:
  assumes "sim_ok (se_dec E) fs" "\<not> fc_spot (fs_cfg fs)" "0 < fc_leverage (fs_cfg fs)" "0 < fs_wallet fs"
    and "fs_live (snd (place_or_reject E fs i ts oid)) \<noteq> fs_live fs"
  shows "dadd (se_dec E) (position_notional (se_dec E) fs (qi_symbol i) (qi_price i))
        (fst (commitment_at (committed_scan (se_dec E)
          (fs_live (snd (place_or_reject E fs i ts oid)))) (qi_symbol i)))
      \<le> round_dp (se_dec E) (dmul (se_dec E) (fs_wallet fs) (fc_leverage (fs_cfg fs))) 8
    \<and> - round_dp (se_dec E) (dmul (se_dec E) (fs_wallet fs) (fc_leverage (fs_cfg fs))) 8
      \<le> dsub (se_dec E) (position_notional (se_dec E) fs (qi_symbol i) (qi_price i))
        (fst (snd (commitment_at (committed_scan (se_dec E)
          (fs_live (snd (place_or_reject E fs i ts oid)))) (qi_symbol i))))"
proof -
  have g: "fst (place_gates (se_dec E) fs i) = None" "\<not> immediate (qi_tif i)"
    using place_live [of E fs i ts oid] assms(5) by auto
  then have "\<not> fst (margin_gate (se_dec E) fs i
      (position_notional (se_dec E) fs (qi_symbol i) (qi_price i)))"
    using assms(2) by (simp add: place_gates_def futures_gate_def case_prod_unfold Let_def split: if_splits)
  moreover have core: "committed_scan (se_dec E) (fs_live fs @ [rested E (snd (place_gates (se_dec E) fs i)) i ts oid])
      = committed_scan (se_dec E) (fs_live fs @ [core_quote (qi_symbol i, qi_side i, qi_price i, qi_size i)])"
    by (rule committed_scan_core) (simp add: rested_core, simp add: lq_core_def)
  ultimately show ?thesis
    using g assms(1,3,4) commitment_snoc [of "se_dec E" "fs_live fs"
        "core_quote (qi_symbol i, qi_side i, qi_price i, qi_size i)"]
    by (cases "qi_side i")
      (simp_all add: margin_gate_def committed_for_eq committed_read intent_notional_def
        place_rests rest_quote_live place_gates_fields case_prod_unfold Let_def not_less)
qed

subsection \<open>Replaces\<close>

lemma take_quote_mset:
  "take_quote k qs = (r, rest) \<Longrightarrow>
     mset qs = mset rest + (case r of Some q \<Rightarrow> {#q#} | None \<Rightarrow> {#})
     \<and> (\<forall>q. r = Some q \<longrightarrow> lq_id q = k)"
  by (induction qs arbitrary: r rest) (auto split: if_splits prod.splits)

lemma evict_mset:
  "mset (fs_live (snd (evict fs k))) + (case fst (evict fs k) of Some q \<Rightarrow> {#q#} | None \<Rightarrow> {#})
     = mset (fs_live fs)"
  by (cases "take_quote k (fs_live fs)")
    (use take_quote_mset in \<open>auto simp: evict_def purge_pending_id_def Let_def\<close>)

lemma evict_fields [simp]:
  "fs_cfg (snd (evict fs k)) = fs_cfg fs"
  "fs_rejections (snd (evict fs k)) = fs_rejections fs"
  "fs_managers (snd (evict fs k)) = fs_managers fs"
  "fs_book (snd (evict fs k)) = fs_book fs"
  "fs_position_units (snd (evict fs k)) = fs_position_units fs"
  "fs_spot_cash (snd (evict fs k)) = fs_spot_cash fs"
  "fs_spot_units (snd (evict fs k)) = fs_spot_units fs"
  by (simp_all add: evict_def purge_pending_id_def Let_def split: prod.splits)

lemma restore_fields [simp]:
  "fs_cfg (restore fs r) = fs_cfg fs"
  "fs_pending (restore fs r) = fs_pending fs"
  "fs_rejections (restore fs r) = fs_rejections fs"
  "fs_managers (restore fs r) = fs_managers fs"
  "fs_book (restore fs r) = fs_book fs"
  "fs_position_units (restore fs r) = fs_position_units fs"
  "fs_spot_cash (restore fs r) = fs_spot_cash fs"
  "fs_spot_units (restore fs r) = fs_spot_units fs"
  "mset (fs_live (restore fs r)) = mset (fs_live fs) + (case r of Some q \<Rightarrow> {#q#} | None \<Rightarrow> {#})"
  by (simp_all add: restore_def split: option.splits)

lemma apply_replace:
  "apply_op E fs \<lparr>po_at = t, po_op = ReplaceOp k i\<rparr> =
     (let x = place_or_reject E (snd (evict fs k)) i t (Some k) in
      (case fst x of Some f \<Rightarrow> [f] | None \<Rightarrow> [],
       if fst (place_gates (se_dec E) (snd (evict fs k)) i) \<noteq> None
       then restore (snd x) (fst (evict fs k)) else snd x))"
proof -
  have "fst (place_or_reject E (snd (evict fs k)) i t (Some k)) = None"
    if "fst (place_gates (se_dec E) (snd (evict fs k)) i) \<noteq> None"
    using that by (auto simp: place_rejected)
  then show ?thesis
    by (auto simp: case_prod_unfold Let_def place_rejections split: option.splits)
qed

declare apply_op.simps(2) [simp del]


end
