(* ===== verification/Sim_Registry.thy ===== *)
theory Sim_Registry
  imports Sim_Place
begin

text \<open>
  The registry of resting orders: the cap on their number, the protection of the manager's
  orders, cancels, and the reconciliation with the venue's list.
\<close>

subsection \<open>The cap on resting orders\<close>

definition cap_ok :: "fill_sim \<Rightarrow> bool" where
  "cap_ok fs \<longleftrightarrow>
     (\<forall>cap sy. fc_max_open_orders (fs_cfg fs) = Some cap \<longrightarrow> resting_count fs sy \<le> unat cap)"

text \<open>\<open>shrinks\<close>: the same configuration, and no symbol has more orders resting.\<close>

definition shrinks :: "fill_sim \<Rightarrow> fill_sim \<Rightarrow> bool" where
  "shrinks fs fs' \<longleftrightarrow> fs_cfg fs' = fs_cfg fs \<and> (\<forall>sy. resting_count fs' sy \<le> resting_count fs sy)"

lemma cap_ok_shrinks: "cap_ok fs \<Longrightarrow> shrinks fs fs' \<Longrightarrow> cap_ok fs'"
  by (auto simp: cap_ok_def shrinks_def intro: order_trans)

lemma shrinks_refl [simp]: "shrinks fs fs"
  by (simp add: shrinks_def)

lemma shrinks_trans: "shrinks fs fs' \<Longrightarrow> shrinks fs' fs'' \<Longrightarrow> shrinks fs fs''"
  unfolding shrinks_def by (metis order_trans)

lemma resting_count_mset: "resting_count fs sy = size (filter_mset (\<lambda>q. lq_symbol q = sy) (mset (fs_live fs)))"
  by (simp add: resting_count_def flip: mset_filter)

lemma shrinksI: "fs_cfg fs' = fs_cfg fs \<Longrightarrow> mset (fs_live fs') \<subseteq># mset (fs_live fs) \<Longrightarrow> shrinks fs fs'"
  by (simp add: shrinks_def resting_count_mset multiset_filter_mono size_mset_mono)

lemma shrinks_map:
  assumes "fs_cfg fs' = fs_cfg fs" "map lq_symbol (fs_live fs') = map lq_symbol (fs_live fs)"
  shows "shrinks fs fs'"
proof -
  have "resting_count x sy = length (filter (\<lambda>s. s = sy) (map lq_symbol (fs_live x)))" for x sy
    by (simp add: resting_count_def filter_map comp_def)
  then show ?thesis unfolding shrinks_def by (simp only: assms order_refl simp_thms)
qed

lemma shrinks_filter:
  "fs_cfg fs' = fs_cfg fs \<Longrightarrow> fs_live fs' = filter P (fs_live fs) \<Longrightarrow> shrinks fs fs'"
  by (rule shrinksI) (simp_all add: multiset_filter_subset)

lemma cap_ok_place: "cap_ok fs \<Longrightarrow> cap_ok (snd (place_or_reject E fs i ts oid))"
proof -
  assume ok: "cap_ok fs"
  let ?fs' = "snd (place_or_reject E fs i ts oid)"
  consider "fs_live ?fs' = fs_live fs"
    | q where "fs_live ?fs' = fs_live fs @ [q]" "lq_symbol q = qi_symbol i"
        "fst (place_gates (se_dec E) fs i) = None" "\<not> immediate (qi_tif i)"
    using place_live [of E fs i ts oid] by auto
  then show ?thesis
  proof cases
    case 1
    with ok show ?thesis by (simp add: cap_ok_def resting_count_def)
  next
    case (2 q)
    then have "\<not> order_cap_hit fs i" by (simp add: place_gates_def split: if_splits)
    with ok 2 show ?thesis
      by (auto simp: cap_ok_def order_cap_hit_def resting_count_def split: option.splits)
  qed
qed

lemma shrinks_evict: "shrinks fs (snd (evict fs k))"
  using evict_mset [of fs k] by (intro shrinksI) (simp_all, metis mset_subset_eq_add_left)

lemma cap_ok_apply_op: "cap_ok fs \<Longrightarrow> cap_ok (snd (apply_op E fs p))"
proof (cases p)
  case (fields t o1)
  assume ok: "cap_ok fs"
  show ?thesis
  proof (cases o1)
    case (PlaceOp i oid)
    with fields cap_ok_place [OF ok] show ?thesis by (simp add: case_prod_unfold Let_def)
  next
    case (ReplaceOp k i)
    let ?x = "place_or_reject E (snd (evict fs k)) i t (Some k)"
    have "cap_ok (snd ?x)"
      by (rule cap_ok_place [OF cap_ok_shrinks [OF ok shrinks_evict]])
    moreover have "cap_ok (restore (snd ?x) (fst (evict fs k)))"
      if "fst (place_gates (se_dec E) (snd (evict fs k)) i) \<noteq> None"
      using that evict_mset [of fs k]
      by (intro cap_ok_shrinks [OF ok shrinksI]) (auto simp: place_rejected place_gates_fields)
    ultimately show ?thesis using fields ReplaceOp by (simp add: apply_replace Let_def)
  next
    case (CancelOp k)
    with fields show ?thesis
      by (simp, intro cap_ok_shrinks [OF ok shrinks_filter])
        (simp_all add: cancel_id_def purge_pending_id_def)
  next
    case CancelAllOp
    with fields show ?thesis by (simp, intro cap_ok_shrinks [OF ok shrinks_filter]) simp_all
  qed
qed

lemma cap_ok_apply_ops: "cap_ok fs \<Longrightarrow> cap_ok (snd (apply_ops E fs ps))"
  by (induction ps arbitrary: fs) (simp_all add: case_prod_unfold Let_def cap_ok_apply_op)

lemma cap_ok_apply_pending: "cap_ok fs \<Longrightarrow> cap_ok (snd (apply_pending E fs now))"
  unfolding apply_pending_def by (intro cap_ok_apply_ops) (simp add: cap_ok_def resting_count_def)

lemma shrinks_decay: "shrinks fs (decay_queue_ahead E fs now)"
  by (rule shrinks_map) (auto simp: decay_queue_ahead_def Let_def split: option.splits)

lemma subset_add_mset: "A \<subseteq># B \<Longrightarrow> A \<subseteq># add_mset x B"
  by (meson multi_psub_of_add_self subset_mset.dual_order.trans subset_mset.less_imp_le)

lemma roll_quotes_subset: "mset (fst (roll_quotes p st qs)) \<subseteq># mset qs"
proof (induction qs arbitrary: st)
  case (Cons q qs)
  from Cons [of "snd (next_unit_f64 st)"] show ?case
    by (simp add: case_prod_unfold Let_def subset_add_mset)
qed simp

lemma shrinks_silent: "shrinks fs (silent_cancel_tick E fs now)"
  by (rule shrinksI)
    (use roll_quotes_subset in \<open>auto simp: silent_cancel_tick_def Let_def case_prod_unfold\<close>)

lemma shrinks_update_book: "shrinks fs (update_book_state D fs sn)"
  by (rule shrinks_map) (auto simp: update_book_state_def attribute_cancels_def Let_def)

lemma map_symbol_update [simp]:
  "lq_symbol q = lq_symbol (qs ! i) \<Longrightarrow> map lq_symbol (qs[i := q]) = map lq_symbol qs"
  by (simp add: map_update) (metis list_update_id map_update)

lemma mset_remove_nth: "mset (remove_nth xs i) \<subseteq># mset xs"
proof (cases "i < length xs")
  case True
  then have "xs = take i xs @ xs ! i # drop (Suc i) xs" by (rule id_take_nth_drop)
  then have "mset xs = mset (remove_nth xs i) + {#xs ! i#}"
    by (metis (no_types) mset_append mset.simps(2) remove_nth_def union_mset_add_mset_right add.right_neutral)
  then show ?thesis by simp
qed (simp add: remove_nth_def)

lemma mset_remove_all: "mset (foldl remove_nth xs is) \<subseteq># mset xs"
  by (induction "is" arbitrary: xs) (auto intro: subset_mset.order_trans mset_remove_nth)

lemma shrinks_match: "shrinks fs (snd (match_trade D fs sy tp sz taker ts))"
proof (cases "tp \<le> 0 \<or> sz \<le> 0")
  case False
  let ?m = "match_loop D sy tp ts fs sz (eligible fs sy tp taker)"
  have "shrinks fs (snd (snd ?m))"
  proof (rule match_loop_keeps [where P = "shrinks fs"])
    fix fs1 r i assume s: "shrinks fs fs1"
    show "shrinks fs (round_queue D sy tp fs1 r i)"
      by (rule shrinks_trans [OF s], rule shrinks_map)
        (simp_all add: round_queue_def eat_queue_def Let_def)
    show "shrinks fs (snd (snd (snd (fill_quote D sy ts fs1 r i))))"
      by (rule shrinks_trans [OF s], rule shrinks_map) (simp_all add: fill_quote_def Let_def)
  qed simp
  moreover have "shrinks (snd (snd ?m))
      ((snd (snd ?m))\<lparr>fs_live := foldl remove_nth (fs_live (snd (snd ?m))) is\<rparr>)" for "is"
    by (rule shrinksI) (simp_all add: mset_remove_all)
  ultimately show ?thesis
    using False by (simp add: match_trade_def case_prod_unfold Let_def) (rule shrinks_trans)
qed (simp add: match_trade_def)

lemma cap_ok_event: "cap_ok fs \<Longrightarrow> cap_ok (snd (on_market_event E fs ev now))"
proof -
  assume ok: "cap_ok fs"
  have "cap_ok (fs\<lparr>fs_last_event := t\<rparr>)" for t using ok by (simp add: cap_ok_def resting_count_def)
  note live = cap_ok_apply_pending [OF this, of E "Some now" now]
  note paper = cap_ok_apply_pending [OF cap_ok_shrinks [OF cap_ok_shrinks [OF ok shrinks_decay] shrinks_silent]]
  show ?thesis
    using live paper
    by (cases ev) (auto simp: on_market_event_def case_prod_unfold Let_def
        intro: cap_ok_shrinks [OF _ shrinks_update_book] cap_ok_shrinks [OF _ shrinks_match])
qed

lemma submit_fields [simp]:
  "fs_live (submit E fs now p) = fs_live fs" "fs_cfg (submit E fs now p) = fs_cfg fs"
  "fs_live (submit_cancel E fs now p) = fs_live fs" "fs_cfg (submit_cancel E fs now p) = fs_cfg fs"
  by (simp_all add: submit_def submit_cancel_def enqueue_def sample_latency_ns_def case_prod_unfold Let_def)

lemma shrinks_same: "fs_cfg fs' = fs_cfg fs \<Longrightarrow> fs_live fs' = fs_live fs \<Longrightarrow> shrinks fs fs'"
  by (rule shrinksI) simp_all

lemma shrinks_on_action: "shrinks fs (on_action E fs a now)"
  by (cases a) (simp_all add: shrinks_same)

fun paper_call :: "sim_call \<Rightarrow> bool" where
  "paper_call (ReconcileCall sy rs) = False"
| "paper_call c = True"

lemma cap_ok_step: "cap_ok fs \<Longrightarrow> paper_call c \<Longrightarrow> cap_ok (sim_step E fs c)"
proof (cases c)
  case (EventCall ev now)
  assume "cap_ok fs"
  with EventCall show ?thesis by (simp add: cap_ok_event)
next
  case (RetainCall sy ks)
  assume "cap_ok fs"
  with RetainCall show ?thesis
    by (simp, elim cap_ok_shrinks)
      (rule shrinks_filter [where P = "\<lambda>q. lq_symbol q \<noteq> sy \<or> lq_id q \<in> ks"],
        simp_all add: retain_quotes_for_def Let_def)
next
  case (DropCall k)
  assume "cap_ok fs"
  with DropCall show ?thesis
    by (simp, elim cap_ok_shrinks)
      (rule shrinks_filter, simp_all add: drop_quote_def cancel_id_def purge_pending_id_def)
next
  case (DropForCall sy)
  assume "cap_ok fs"
  with DropForCall show ?thesis
    by (simp, elim cap_ok_shrinks) (rule shrinks_filter, simp_all add: drop_quotes_for_def)
qed (auto elim!: cap_ok_shrinks intro: shrinks_on_action shrinks_same simp: enqueue_place_with_id_def
    set_wallet_def seed_spot_def set_live_mirror_def drain_rejections_def mark_manager_def
    unmark_manager_def open_quotes_def Let_def)

interpretation paper: call_invariant "sim_step E" paper_call cap_ok for E
  by unfold_locales (rule cap_ok_step)

lemma apply_op_cfg [simp]: "fs_cfg (snd (apply_op E fs p)) = fs_cfg fs"
proof (cases p)
  case (fields t o1)
  then show ?thesis
    by (cases o1) (auto simp: apply_replace cancel_id_def purge_pending_id_def case_prod_unfold Let_def)
qed

lemma apply_ops_cfg [simp]: "fs_cfg (snd (apply_ops E fs ps)) = fs_cfg fs"
  by (induction ps arbitrary: fs) (simp_all add: case_prod_unfold Let_def)

lemma event_cfg: "fs_cfg (snd (on_market_event E fs ev now)) = fs_cfg fs"
proof -
  have "fs_cfg (snd (apply_pending E fs' now)) = fs_cfg fs'" for fs'
    by (simp add: apply_pending_def)
  moreover have "fs_cfg (silent_cancel_tick E (decay_queue_ahead E fs now) now) = fs_cfg fs"
    using shrinks_silent [of "decay_queue_ahead E fs now" E now] shrinks_decay [of fs E now]
    by (simp add: shrinks_def)
  moreover have "fs_cfg (update_book_state D fs' sn) = fs_cfg fs'"
      "fs_cfg (snd (match_trade D fs' sy p z s t)) = fs_cfg fs'" for D fs' sn sy p z s t
    using shrinks_update_book [of fs' D sn] shrinks_match [of fs' D sy p z s t]
    by (simp_all add: shrinks_def)
  ultimately show ?thesis
    by (cases ev) (simp_all add: on_market_event_def case_prod_unfold Let_def)
qed

lemma sim_step_cfg: "fs_cfg (sim_step E fs c) = fs_cfg fs"
proof (cases c)
  case (ActCall a now)
  then show ?thesis using shrinks_on_action [of fs E a now] by (simp add: shrinks_def)
next
  case (ReconcileCall sy rs)
  then show ?thesis
    by (simp add: reconcile_quotes_for_def retain_quotes_for_def case_prod_unfold Let_def)
next
  case (RetainCall sy ks)
  then show ?thesis by (simp add: retain_quotes_for_def Let_def)
qed (simp_all add: event_cfg enqueue_place_with_id_def set_wallet_def seed_spot_def
    set_live_mirror_def drain_rejections_def mark_manager_def unmark_manager_def open_quotes_def
    drop_quote_def drop_quotes_for_def cancel_id_def purge_pending_id_def Let_def)

text \<open>
  C13: The open-order cap holds: with a cap configured, no sequence of calls that leaves the
  venue's list out of it ever has more orders of a symbol resting than the cap allows, so
  the venue's limit on open orders is respected through placements, replaces that are rejected
  and restored, fills and cancels.
\<close>

theorem open_order_cap:
  assumes "\<forall>c \<in> set cs. paper_call c" "fc_max_open_orders cfg = Some cap"
  shows "length (filter (\<lambda>q. lq_symbol q = sy) (fs_live (sim_run E (fill_sim_new cfg) cs))) \<le> unat cap"
proof -
  have cfg: "call_invariant (sim_step E) paper_call (\<lambda>fs. cap_ok fs \<and> fs_cfg fs = cfg)"
    by (rule call_invariant.intro)
      (auto simp: paper.step_inv intro: sim_step_cfg)
  have "cap_ok (fill_sim_new cfg)"
    by (simp add: cap_ok_def resting_count_def fill_sim_new_def Let_def)
  with call_invariant.run_inv [OF cfg, of "fill_sim_new cfg" cs] assms show ?thesis
    by (simp add: sim_run_def cap_ok_def resting_count_def fill_sim_new_def Let_def)
qed

subsection \<open>Cancels and the manager's orders\<close>

lemma tracks_iff: "op_tracks k p \<longleftrightarrow> \<not> op_survives k p"
  by (cases "(k, p)" rule: op_survives.cases) auto

text \<open>
  A cancel removes an order for good: afterwards the id neither rests nor waits in the
  pending queue, and no other id changes its status.
\<close>

theorem cancel_untracks:
  "is_tracked (cancel_id fs k) k' \<longleftrightarrow> k' \<noteq> k \<and> is_tracked fs k'"
proof -
  have "op_survives k p" if "op_tracks k' p" "k' \<noteq> k" for p
    using that by (cases p) auto
  then show ?thesis
    by (auto simp: is_tracked_def cancel_id_def purge_pending_id_def list_ex_iff tracks_iff)
qed

text \<open>
  A strategy's cancel-all cannot touch the manager: after all orders of a symbol are
  dropped the strategy sees none, in the book or in flight, while every resting order of the
  manager and every order of another symbol is still there, in the same order.
\<close>

theorem manager_survives_cancel_all:
  "live_quotes_for (drop_quotes_for fs sy) sy = []
   \<and> all_live_quotes_for (drop_quotes_for fs sy) sy =
       filter (\<lambda>(k, i). k \<in> fs_managers fs) (all_live_quotes_for fs sy)
   \<and> filter (\<lambda>q. lq_symbol q \<noteq> sy) (fs_live (drop_quotes_for fs sy)) =
       filter (\<lambda>q. lq_symbol q \<noteq> sy) (fs_live fs)
   \<and> fs_live (snd (apply_op E fs \<lparr>po_at = t, po_op = CancelAllOp\<rparr>)) =
       filter (\<lambda>q. lq_id q \<in> fs_managers fs) (fs_live fs)"
proof (intro conjI)
  let ?d = "drop_quotes_for fs sy"
  have m: "fs_managers (drop_quotes_for fs sx) = fs_managers fs" for sx
    by (simp add: drop_quotes_for_def)
  have "pending_view ?d sy p = []" if "drop_keeps fs sy p" for p
    using that m by (cases p) (auto simp: managed_def split: option.splits)
  then show "live_quotes_for ?d sy = []"
    by (auto simp: live_quotes_for_def drop_quotes_for_def filter_empty_conv)
  show "all_live_quotes_for ?d sy = filter (\<lambda>(k, i). k \<in> fs_managers fs) (all_live_quotes_for fs sy)"
    by (auto simp: all_live_quotes_for_def drop_quotes_for_def filter_map comp_def quote_view_def
        intro!: filter_cong arg_cong [of _ _ "map quote_view"])
  show "filter (\<lambda>q. lq_symbol q \<noteq> sy) (fs_live ?d) = filter (\<lambda>q. lq_symbol q \<noteq> sy) (fs_live fs)"
    by (auto simp: drop_quotes_for_def intro!: filter_cong)
qed simp

subsection \<open>Reconciliation\<close>

definition resting_ids :: "fill_sim \<Rightarrow> symbol \<Rightarrow> quote_id set" where
  "resting_ids fs sy = lq_id ` {q \<in> set (fs_live fs). lq_symbol q = sy}"

definition inflight_ids :: "fill_sim \<Rightarrow> symbol \<Rightarrow> quote_id set" where
  "inflight_ids fs sy = (\<Union>p \<in> set (fs_pending fs). pending_place_id sy (po_op p))"

lemma known_ids_eq: "known_ids fs sy = resting_ids fs sy \<union> inflight_ids fs sy"
  by (auto simp: known_ids_def resting_ids_def inflight_ids_def)

lemma import_missing_symbol: "q \<in> set (import_missing sy known rs) \<Longrightarrow> lq_symbol q = sy"
  by (induction sy known rs rule: import_missing.induct) (auto simp: imported_def split: if_splits)

lemma import_missing_ids:
  "lq_id ` set (import_missing sy known rs) = oo_id ` {r \<in> set rs. oo_symbol r = sy} - known"
proof (induction rs arbitrary: known)
  case (Cons r rs)
  have set: "{x \<in> set (r # rs). oo_symbol x = sy} =
      (if oo_symbol r = sy then insert r {x \<in> set rs. oo_symbol x = sy} else {x \<in> set rs. oo_symbol x = sy})"
    by auto
  show ?case unfolding set by (auto simp: Cons.IH imported_def)
qed simp

lemma import_missing_none:
  "\<forall>r \<in> set rs. oo_symbol r = sy \<longrightarrow> oo_id r \<in> known \<Longrightarrow> import_missing sy known rs = []"
  by (induction sy known rs rule: import_missing.induct) auto

lemma reconcile_state:
  "snd (reconcile_quotes_for fs sy rs) = fs\<lparr>fs_dirty := True,
     fs_live := filter (\<lambda>q. lq_symbol q \<noteq> sy \<or> lq_id q \<in> oo_id ` set rs) (fs_live fs) @
       import_missing sy (known_ids (snd (retain_quotes_for fs sy (oo_id ` set rs))) sy) rs\<rparr>"
  by (simp add: reconcile_quotes_for_def retain_quotes_for_def Let_def)

lemma reconcile_counts:
  "fst (reconcile_quotes_for fs sy rs) =
     (length (fs_live fs) - length (filter (\<lambda>q. lq_symbol q \<noteq> sy \<or> lq_id q \<in> oo_id ` set rs) (fs_live fs)),
      length (import_missing sy (known_ids (snd (retain_quotes_for fs sy (oo_id ` set rs))) sy) rs))"
  by (simp add: reconcile_quotes_for_def retain_quotes_for_def Let_def)

lemma retain_live:
  "fs_live (snd (retain_quotes_for fs sy ks)) = filter (\<lambda>q. lq_symbol q \<noteq> sy \<or> lq_id q \<in> ks) (fs_live fs)"
  "fs_pending (snd (retain_quotes_for fs sy ks)) = fs_pending fs"
  by (simp_all add: retain_quotes_for_def Let_def)

text \<open>
  Reconciliation makes the mirror agree with the venue in both directions: afterwards
  every order resting for the symbol is in the venue's list, every listed order of the symbol
  rests or is in flight, the other symbols are untouched, and doing it again changes nothing.
\<close>

theorem reconcile_agrees:
  fixes fs sy rs
  shows "resting_ids (snd (reconcile_quotes_for fs sy rs)) sy \<subseteq> oo_id ` set rs
    \<and> oo_id ` {r \<in> set rs. oo_symbol r = sy} \<subseteq>
        resting_ids (snd (reconcile_quotes_for fs sy rs)) sy \<union> inflight_ids fs sy
    \<and> filter (\<lambda>q. lq_symbol q \<noteq> sy) (fs_live (snd (reconcile_quotes_for fs sy rs))) =
        filter (\<lambda>q. lq_symbol q \<noteq> sy) (fs_live fs)
    \<and> fst (reconcile_quotes_for (snd (reconcile_quotes_for fs sy rs)) sy rs) = (0, 0)
    \<and> fs_live (snd (reconcile_quotes_for (snd (reconcile_quotes_for fs sy rs)) sy rs)) =
        fs_live (snd (reconcile_quotes_for fs sy rs))"
proof -
  let ?ks = "oo_id ` set rs"
  let ?k = "known_ids (snd (retain_quotes_for fs sy ?ks)) sy"
  let ?f = "snd (reconcile_quotes_for fs sy rs)"
  have k: "?k = {k \<in> resting_ids fs sy. k \<in> ?ks} \<union> inflight_ids fs sy"
    by (auto simp: known_ids_eq resting_ids_def inflight_ids_def retain_live)
  have rest: "resting_ids ?f sy = {k \<in> resting_ids fs sy. k \<in> ?ks} \<union>
      (oo_id ` {r \<in> set rs. oo_symbol r = sy} - ?k)"
    unfolding import_missing_ids [symmetric]
    by (auto simp: reconcile_state resting_ids_def dest: import_missing_symbol)
  have a: "resting_ids ?f sy \<subseteq> ?ks" and b: "oo_id ` {r \<in> set rs. oo_symbol r = sy} \<subseteq>
      resting_ids ?f sy \<union> inflight_ids fs sy"
    by (auto simp: rest k)
  have other: "filter (\<lambda>q. lq_symbol q \<noteq> sy) (import_missing sy ?k rs) = []"
    by (auto simp: filter_empty_conv dest: import_missing_symbol)
  have c: "filter (\<lambda>q. lq_symbol q \<noteq> sy) (fs_live ?f) = filter (\<lambda>q. lq_symbol q \<noteq> sy) (fs_live fs)"
    by (auto simp: reconcile_state other intro: filter_cong)
  have keep: "filter (\<lambda>q. lq_symbol q \<noteq> sy \<or> lq_id q \<in> ?ks) (fs_live ?f) = fs_live ?f"
    using a by (auto simp: filter_id_conv resting_ids_def)
  have "inflight_ids (snd (retain_quotes_for ?f sy ?ks)) sy = inflight_ids fs sy"
    by (simp add: inflight_ids_def retain_live reconcile_state)
  moreover have "resting_ids (snd (retain_quotes_for ?f sy ?ks)) sy = resting_ids ?f sy"
    unfolding resting_ids_def retain_live keep ..
  ultimately have none: "import_missing sy (known_ids (snd (retain_quotes_for ?f sy ?ks)) sy) rs = []"
    using b by (intro import_missing_none) (auto simp: known_ids_eq)
  have d: "fs_live (snd (reconcile_quotes_for ?f sy rs)) = fs_live ?f"
    by (subst reconcile_state, simp only: none keep) simp
  have "fst (reconcile_quotes_for ?f sy rs) = (0, 0)"
    by (simp only: reconcile_counts none keep) simp
  with a b c d show ?thesis by blast
qed

end
