(* ===== verification/Sim_Match.thy ===== *)
theory Sim_Match
  imports Sim_Registry
begin

text \<open>
  The matching of a public trade against the resting orders.  The specification \<open>allocate\<close>
  works on the eligible orders in price-time priority, without indices, books or balances;
  the loop of the code implements it.
\<close>

fun allocate :: "price \<Rightarrow> rat \<Rightarrow> live_quote list \<Rightarrow> (live_quote \<times> rat) list" where
  "allocate tp r [] = []"
| "allocate tp r (q # qs) =
     (if r \<le> 0 then []
      else let r1 = (if tp = lq_price q then r - min (lq_queue_ahead q) r else r) in
        if r1 = 0 then [] else (q, min (lq_size q) r1) # allocate tp (r1 - min (lq_size q) r1) qs)"

definition takes :: "symbol \<Rightarrow> price \<Rightarrow> side \<Rightarrow> live_quote \<Rightarrow> bool" where
  "takes sy tp taker q \<longleftrightarrow> lq_symbol q = sy \<and> quote_takes_trade (lq_side q) (lq_price q) taker tp"

definition priority_list :: "symbol \<Rightarrow> price \<Rightarrow> side \<Rightarrow> live_quote list \<Rightarrow> live_quote list" where
  "priority_list sy tp taker qs = sort_key (\<lambda>q. walk_key taker (lq_price q)) (filter (takes sy tp taker) qs)"

definition fill_terms :: "fill \<Rightarrow> quote_id \<times> side \<times> price \<times> qsize" where
  "fill_terms f = (f_quote_id f, f_side f, f_price f, f_size f)"

definition alloc_terms :: "live_quote \<times> rat \<Rightarrow> quote_id \<times> side \<times> price \<times> qsize" where
  "alloc_terms x = (lq_id (fst x), lq_side (fst x), lq_price (fst x), snd x)"

lemma alloc_terms_pair [simp]: "alloc_terms (q, a) = (lq_id q, lq_side q, lq_price q, a)"
  by (simp add: alloc_terms_def)

definition quote_ok :: "nat \<Rightarrow> live_quote \<Rightarrow> bool" where
  "quote_ok n q \<longleftrightarrow> amount n (lq_size q) \<and> 0 < lq_size q \<and> amount n (lq_queue_ahead q)"

subsection \<open>Price-time priority\<close>

lemma map_insort_key: "map f (insort_key (\<lambda>x. g (f x)) x xs) = insort_key g (f x) (map f xs)"
  by (induction xs) auto

lemma map_sort_key: "map f (sort_key (\<lambda>x. g (f x)) xs) = sort_key g (map f xs)"
  by (induction xs) (simp_all add: map_insort_key)

lemma map_nth_filter: "map ((!) xs) (filter (\<lambda>i. P (xs ! i)) [0..<length xs]) = filter P xs"
proof -
  have "filter P (map ((!) xs) [0..<length xs]) = map ((!) xs) (filter (P \<circ> (!) xs) [0..<length xs])"
    by (rule filter_map)
  then show ?thesis by (simp add: map_nth comp_def)
qed

lemma eligible_priority: "map ((!) (fs_live fs)) (eligible fs sy tp taker) = priority_list sy tp taker (fs_live fs)"
  unfolding eligible_def priority_list_def takes_def [abs_def]
  by (simp add: map_sort_key [where f = "(!) (fs_live fs)" and g = "\<lambda>q. walk_key taker (lq_price q)"]
      map_nth_filter [where P = "\<lambda>q. lq_symbol q = sy \<and> quote_takes_trade (lq_side q) (lq_price q) taker tp"])

lemma eligible_indices: "distinct (eligible fs sy tp taker)" "set (eligible fs sy tp taker) \<subseteq> {..<length (fs_live fs)}"
  by (auto simp: eligible_def)

lemma sorted_priority: "sorted (map (\<lambda>q. walk_key taker (lq_price q)) (priority_list sy tp taker qs))"
  by (simp add: priority_list_def)

lemma set_priority: "set (priority_list sy tp taker qs) = {q \<in> set qs. takes sy tp taker q}"
  by (auto simp: priority_list_def)

subsection \<open>One round\<close>

text \<open>What a round eats from the queue ahead, and what it fills, with exact amounts.\<close>

definition eaten :: "price \<Rightarrow> live_quote \<Rightarrow> rat \<Rightarrow> rat" where
  "eaten tp q r = (if tp = lq_price q then min (lq_queue_ahead q) r else 0)"

lemma eaten_bounds: "amount n (lq_queue_ahead q) \<Longrightarrow> amount n r \<Longrightarrow> amount n (eaten tp q r) \<and> eaten tp q r \<le> r"
  by (auto simp: eaten_def amount_nonneg)

lemma round_left_eq:
  assumes "decimal_arith D" "quote_ok n (fs_live fs ! i)" "amount n r"
  shows "round_left D sy tp fs r i = r - eaten tp (fs_live fs ! i) r"
    and "amount n (round_left D sy tp fs r i)"
proof -
  let ?q = "fs_live fs ! i"
  have e: "amount n (eaten tp ?q r)" "eaten tp ?q r \<le> r"
    using eaten_bounds [of n ?q r tp] assms by (auto simp: quote_ok_def)
  have "dsub D r (min (lq_queue_ahead ?q) r) = r - min (lq_queue_ahead ?q) r"
    using assms by (intro decimal_arith.sub_amount [of D n]) (auto simp: quote_ok_def)
  moreover have "0 \<le> min (lq_queue_ahead ?q) r"
    using assms by (auto simp: quote_ok_def amount_nonneg)
  ultimately show l: "round_left D sy tp fs r i = r - eaten tp ?q r"
    by (auto simp: round_left_def eat_queue_def eaten_def Let_def)
  show "amount n (round_left D sy tp fs r i)"
    unfolding l using assms(3) e by (rule amount_diff)
qed

lemma round_queue_live:
  "\<exists>x. fs_live (round_queue D sy tp fs r i) = (fs_live fs)[i := (fs_live fs ! i)\<lparr>lq_queue_ahead := x\<rparr>]"
proof -
  have "(fs_live fs)[i := (fs_live fs ! i)\<lparr>lq_queue_ahead := lq_queue_ahead (fs_live fs ! i)\<rparr>] = fs_live fs"
    by simp
  then have "\<exists>x. fs_live fs = (fs_live fs)[i := (fs_live fs ! i)\<lparr>lq_queue_ahead := x\<rparr>]"
    by metis
  then show ?thesis by (auto simp: round_queue_def eat_queue_def Let_def)
qed

lemma round_queue_length [simp]: "length (fs_live (round_queue D sy tp fs r i)) = length (fs_live fs)"
  using round_queue_live [of D sy tp fs r i] by auto

lemma round_queue_other: "j \<noteq> i \<Longrightarrow> fs_live (round_queue D sy tp fs r i) ! j = fs_live fs ! j"
  using round_queue_live [of D sy tp fs r i] by auto

lemma round_queue_fields [simp]:
  "fs_position_units (round_queue D sy tp fs r i) = fs_position_units fs"
  "fs_cfg (round_queue D sy tp fs r i) = fs_cfg fs"
  by (simp_all add: round_queue_def eat_queue_def Let_def)

lemma round_quote [simp]:
  assumes "j < length (fs_live fs)"
  shows "lq_size (fs_live (round_queue D sy tp fs r i) ! j) = lq_size (fs_live fs ! j)"
    and "lq_id (fs_live (round_queue D sy tp fs r i) ! j) = lq_id (fs_live fs ! j)"
    and "lq_side (fs_live (round_queue D sy tp fs r i) ! j) = lq_side (fs_live fs ! j)"
    and "lq_price (fs_live (round_queue D sy tp fs r i) ! j) = lq_price (fs_live fs ! j)"
  using round_queue_live [of D sy tp fs r i] assms by (cases "i = j"; auto)+

lemma fill_quote_eq:
  assumes D: "decimal_arith D" and a: "amount n (lq_size (fs_live fs ! i))" "amount n r"
  defines "amt \<equiv> min (lq_size (fs_live fs ! i)) r"
  shows "fill_terms (fst (fill_quote D sy ts fs r i)) =
      (lq_id (fs_live fs ! i), lq_side (fs_live fs ! i), lq_price (fs_live fs ! i), amt)"
    and "fst (snd (fill_quote D sy ts fs r i)) = r - amt"
    and "fst (snd (snd (fill_quote D sy ts fs r i))) \<longleftrightarrow> lq_size (fs_live fs ! i) - amt = 0"
    and "fs_live (snd (snd (snd (fill_quote D sy ts fs r i)))) =
      (fs_live fs)[i := (fs_live fs ! i)\<lparr>lq_size := lq_size (fs_live fs ! i) - amt\<rparr>]"
    and "fs_position_units (snd (snd (snd (fill_quote D sy ts fs r i)))) =
      fs_position_units (add_units D fs sy (lq_side (fs_live fs ! i)) amt)"
    and "amount n (r - amt)"
proof -
  have m: "amount n amt" using a by (auto simp: amt_def)
  have d: "dsub D r amt = r - amt" "dsub D (lq_size (fs_live fs ! i)) amt = lq_size (fs_live fs ! i) - amt"
    using decimal_arith.sub_amount [OF D a(2) m] decimal_arith.sub_amount [OF D a(1) m]
    by (auto simp: amt_def)
  note simps = fill_quote_def Let_def fill_terms_def amt_def [symmetric] d
  show "fill_terms (fst (fill_quote D sy ts fs r i)) =
      (lq_id (fs_live fs ! i), lq_side (fs_live fs ! i), lq_price (fs_live fs ! i), amt)"
    "fst (snd (fill_quote D sy ts fs r i)) = r - amt"
    "fst (snd (snd (fill_quote D sy ts fs r i))) \<longleftrightarrow> lq_size (fs_live fs ! i) - amt = 0"
    "fs_live (snd (snd (snd (fill_quote D sy ts fs r i)))) =
      (fs_live fs)[i := (fs_live fs ! i)\<lparr>lq_size := lq_size (fs_live fs ! i) - amt\<rparr>]"
    "fs_position_units (snd (snd (snd (fill_quote D sy ts fs r i)))) =
      fs_position_units (add_units D fs sy (lq_side (fs_live fs ! i)) amt)"
    by (simp_all add: simps)
  show "amount n (r - amt)"
    using a(2) m by (rule amount_diff) (simp add: amt_def)
qed

lemma fill_quote_other:
  "j \<noteq> i \<Longrightarrow> fs_live (snd (snd (snd (fill_quote D sy ts fs r i)))) ! j = fs_live fs ! j"
  by (simp add: fill_quote_def Let_def)

lemma fill_quote_length [simp]:
  "length (fs_live (snd (snd (snd (fill_quote D sy ts fs r i))))) = length (fs_live fs)"
  by (simp add: fill_quote_def Let_def)

subsection \<open>The loop implements the specification\<close>

lemma allocate_Cons:
  "allocate tp r (q # qs) = (if r \<le> 0 \<or> r - eaten tp q r = 0 then []
     else (q, min (lq_size q) (r - eaten tp q r)) #
       allocate tp (r - eaten tp q r - min (lq_size q) (r - eaten tp q r)) qs)"
  by (simp add: eaten_def Let_def)

declare allocate.simps(2) [simp del]

lemma match_loop_allocates:
  assumes D: "decimal_arith D" and "distinct is" "set is \<subseteq> {..<length (fs_live fs)}"
    "\<forall>i \<in> set is. quote_ok n (fs_live fs ! i)" "amount n r"
  shows "map fill_terms (fst (match_loop D sy tp ts fs r is)) =
    map alloc_terms (allocate tp r (map ((!) (fs_live fs)) is))"
  using assms(2-)
proof (induction "is" arbitrary: fs r)
  case (Cons i "is")
  let ?q = "fs_live fs ! i"
  let ?fs1 = "round_queue D sy tp fs r i" and ?r1 = "round_left D sy tp fs r i"
  let ?x = "fill_quote D sy ts ?fs1 ?r1 i"
  have i: "i < length (fs_live fs)" "quote_ok n ?q" "i \<notin> set is" using Cons.prems by auto
  note left = round_left_eq [OF D i(2) Cons.prems(4), of sy tp]
  show ?case
  proof (cases "r \<le> 0 \<or> ?r1 = 0")
    case True
    then show ?thesis by (auto simp: match_loop_Cons allocate_Cons left(1))
  next
    case False
    have sz: "amount n (lq_size (fs_live ?fs1 ! i))" using i by (simp add: quote_ok_def)
    note fill = fill_quote_eq [OF D sz left(2), unfolded round_quote [OF i(1)]]
    have same: "map ((!) (fs_live (snd (snd (snd ?x))))) is = map ((!) (fs_live fs)) is"
    proof (rule map_cong [OF refl])
      fix j assume "j \<in> set is"
      with i(3) have "j \<noteq> i" by auto
      then show "fs_live (snd (snd (snd ?x))) ! j = fs_live fs ! j"
        by (simp add: fill_quote_other round_queue_other)
    qed
    have "map fill_terms (fst (match_loop D sy tp ts (snd (snd (snd ?x))) (fst (snd ?x)) is)) =
        map alloc_terms (allocate tp (fst (snd ?x)) (map ((!) (fs_live (snd (snd (snd ?x))))) is))"
    proof (rule Cons.IH)
      show "\<forall>j \<in> set is. quote_ok n (fs_live (snd (snd (snd ?x))) ! j)"
        using Cons.prems(3) same by (metis (no_types, lifting) list.set_intros(2) map_eq_conv)
      show "amount n (fst (snd ?x))" unfolding fill(2) by (rule fill(6))
    qed (use Cons.prems fill(4) in auto)
    note rec = this [unfolded same fill(2)]
    show ?thesis
      using False i(1)
      by (simp add: match_loop_Cons allocate_Cons Let_def fill(1,2) rec flip: left(1))
  qed
qed simp

text \<open>
  C1: Matching is price-time priority: the fills of a trade are exactly those of the
  specification, which serves the orders the trade reaches from the best price to the worst,
  in arrival order within a price, each after the queue ahead of it when the trade prints at
  its price, until the traded volume is used up.
\<close>

theorem match_refines_allocation:
  assumes "decimal_arith D" "\<forall>q \<in> set (fs_live fs). quote_ok n q" "amount n sz" "0 < tp"
  shows "map fill_terms (fst (match_trade D fs sy tp sz taker ts)) =
    map alloc_terms (allocate tp sz (priority_list sy tp taker (fs_live fs)))"
proof (cases "sz \<le> 0")
  case True
  then show ?thesis using assms(4)
    by (cases "priority_list sy tp taker (fs_live fs)") (simp_all add: match_trade_def allocate_Cons)
next
  case False
  have "map fill_terms (fst (match_loop D sy tp ts fs sz (eligible fs sy tp taker))) =
      map alloc_terms (allocate tp sz (map ((!) (fs_live fs)) (eligible fs sy tp taker)))"
    using assms(2) eligible_indices(2) [of fs sy tp taker]
    by (intro match_loop_allocates [OF assms(1) eligible_indices(1) _ _ assms(3)]) auto
  with False assms(4) show ?thesis
    by (simp add: match_trade_def case_prod_unfold Let_def eligible_priority)
qed

subsection \<open>Prices and volumes\<close>

lemma eaten_nonneg: "quote_ok n q \<Longrightarrow> amount n r \<Longrightarrow> 0 \<le> eaten tp q r"
  by (auto simp: eaten_def quote_ok_def dest!: amount_nonneg)

lemma allocate_prefix: "\<exists>k. map fst (allocate tp r qs) = take k qs"
proof (induction qs arbitrary: r)
  case (Cons q qs)
  show ?case
  proof (cases "r \<le> 0 \<or> r - eaten tp q r = 0")
    case False
    obtain k where "map fst (allocate tp (r - eaten tp q r - min (lq_size q) (r - eaten tp q r)) qs) = take k qs"
      using Cons.IH by blast
    with False show ?thesis
      by (intro exI [of _ "Suc k"]) (simp add: allocate_Cons)
  qed (auto simp: allocate_Cons intro: exI [of _ 0])
qed (simp add: exI [of _ 0])

lemma allocate_volume:
  assumes "\<forall>q \<in> set qs. quote_ok n q" "amount n r"
  shows "sum_list (map snd (allocate tp r qs)) \<le> r
    \<and> (\<forall>(q, a) \<in> set (allocate tp r qs). q \<in> set qs \<and> 0 < a \<and> a \<le> lq_size q)"
  using assms
proof (induction qs arbitrary: r)
  case (Cons q qs)
  let ?r1 = "r - eaten tp q r"
  let ?a = "min (lq_size q) ?r1"
  have q: "quote_ok n q" using Cons.prems by simp
  show ?case
  proof (cases "r \<le> 0 \<or> ?r1 = 0")
    case True
    then show ?thesis using amount_nonneg [OF Cons.prems(2)] by (simp add: allocate_Cons)
  next
    case False
    have e: "amount n (eaten tp q r)" "eaten tp q r \<le> r" "0 \<le> eaten tp q r"
      using eaten_bounds [of n q r tp] eaten_nonneg [OF q Cons.prems(2)] q Cons.prems(2)
      by (auto simp: quote_ok_def)
    then have r1: "amount n ?r1" using Cons.prems(2) amount_diff by blast
    then have "amount n (?r1 - ?a)"
      using q by (intro amount_diff [OF r1] amount_min) (auto simp: quote_ok_def)
    note IH = Cons.IH [OF _ this]
    have pos: "0 < ?r1" using False amount_nonneg [OF r1] by simp
    show ?thesis
      using IH Cons.prems(1) False q pos e(3) by (auto simp: allocate_Cons quote_ok_def)
  qed
qed (simp add: amount_nonneg)

text \<open>
  C16: A trade fills fairly: the fills together are at most the traded volume, each fills one
  order the trade reaches, on the side the taker hits, at the order's own price, which the printed price
  reaches, by a positive amount of at most what rests; and they come best price first.
\<close>

theorem match_fair:
  assumes "decimal_arith D" "\<forall>q \<in> set (fs_live fs). quote_ok n q" "amount n sz" "0 < tp"
    and out: "out = fst (match_trade D fs sy tp sz taker ts)"
  shows "sum_list (map f_size out) \<le> sz
    \<and> (\<forall>f \<in> set out. \<exists>q \<in> set (fs_live fs). lq_id q = f_quote_id f \<and> lq_symbol q = sy
         \<and> lq_side q = opposite taker \<and> f_side f = opposite taker \<and> f_price f = lq_price q
         \<and> \<not> breaches taker tp (lq_price q) \<and> 0 < f_size f \<and> f_size f \<le> lq_size q)
    \<and> sorted (map (\<lambda>f. walk_key taker (f_price f)) out)"
proof -
  let ?qs = "priority_list sy tp taker (fs_live fs)"
  let ?al = "allocate tp sz ?qs"
  have ok: "\<forall>q \<in> set ?qs. quote_ok n q" using assms(2) by (simp add: set_priority)
  have t: "map fill_terms out = map alloc_terms ?al"
    unfolding out by (rule match_refines_allocation [OF assms(1-4)])
  have s: "map f_size out = map snd ?al" and p: "map f_price out = map (\<lambda>x. lq_price (fst x)) ?al"
    using arg_cong [OF t, of "map (\<lambda>x. snd (snd (snd x)))"] arg_cong [OF t, of "map (\<lambda>x. fst (snd (snd x)))"]
    by (simp_all add: fill_terms_def alloc_terms_def comp_def)
  note vol = allocate_volume [OF ok assms(3), of tp]
  have each: "\<exists>q \<in> set (fs_live fs). lq_id q = f_quote_id f \<and> lq_symbol q = sy
         \<and> lq_side q = opposite taker \<and> f_side f = opposite taker \<and> f_price f = lq_price q
         \<and> \<not> breaches taker tp (lq_price q) \<and> 0 < f_size f \<and> f_size f \<le> lq_size q" if "f \<in> set out" for f
  proof -
    from that t have "fill_terms f \<in> set (map alloc_terms ?al)" by (metis imageI list.set_map)
    then obtain q a where qa: "(q, a) \<in> set ?al" and ft: "fill_terms f = alloc_terms (q, a)" by auto
    from qa vol have "q \<in> set ?qs" "0 < a" "a \<le> lq_size q" by auto
    then show ?thesis using ft
      by (intro bexI [of _ q]) (cases taker; cases "lq_side q"; auto simp: fill_terms_def set_priority
          takes_def quote_takes_trade_def breaches_def)+
  qed
  obtain k where k: "map fst ?al = take k ?qs" using allocate_prefix by blast
  have "map (\<lambda>f. walk_key taker (f_price f)) out = map (walk_key taker) (map f_price out)"
    by simp
  also have "\<dots> = map (\<lambda>q. walk_key taker (lq_price q)) (map fst ?al)"
    unfolding p by simp
  also have "\<dots> = take k (map (\<lambda>q. walk_key taker (lq_price q)) ?qs)"
    unfolding k by (simp add: take_map)
  finally have "sorted (map (\<lambda>f. walk_key taker (f_price f)) out)"
    by (simp add: sorted_priority sorted_wrt_take)
  with s vol each show ?thesis by auto
qed

subsection \<open>What a trade leaves behind\<close>

definition units_of :: "fill_sim \<Rightarrow> symbol \<Rightarrow> rat" where
  "units_of fs sy = (case fs_position_units fs sy of Some u \<Rightarrow> u | None \<Rightarrow> 0)"

definition total_resting :: "live_quote list \<Rightarrow> rat" where
  "total_resting qs = sum_list (map lq_size qs)"

definition signed_fills :: "fill list \<Rightarrow> rat" where
  "signed_fills out = sum_list (map (\<lambda>f. side_delta (f_side f) (f_size f)) out)"

lemma sum_list_replace:
  "i < length xs \<Longrightarrow> sum_list (map f (xs[i := y])) = sum_list (map f xs) - f (xs ! i) + (f y :: rat)"
  by (induction xs arbitrary: i) (auto split: nat.splits)

lemma match_loop_frame:
  "j \<notin> set is \<Longrightarrow> fs_live (snd (snd (match_loop D sy tp ts fs r is))) ! j = fs_live fs ! j"
proof (induction "is" arbitrary: fs r)
  case (Cons i "is")
  then show ?case by (simp add: match_loop_Cons Let_def fill_quote_other round_queue_other)
qed simp

lemma match_loop_length [simp]:
  "length (fs_live (snd (snd (match_loop D sy tp ts fs r is)))) = length (fs_live fs)"
  by (induction "is" arbitrary: fs r) (simp_all add: match_loop_Cons Let_def)

definition loop_books ::
    "nat list \<Rightarrow> live_quote list \<Rightarrow> fill list \<times> nat list \<times> fill_sim \<Rightarrow> bool" where
  "loop_books is qs res \<longleftrightarrow> (case res of (out, drained, fs') \<Rightarrow>
     total_resting (fs_live fs') + sum_list (map f_size out) = total_resting qs
     \<and> distinct drained \<and> set drained \<subseteq> set is
     \<and> (\<forall>i \<in> set is. if i \<in> set drained then lq_size (fs_live fs' ! i) = 0 else 0 < lq_size (fs_live fs' ! i)))"

lemma match_loop_books:
  assumes D: "decimal_arith D" and "distinct is" "set is \<subseteq> {..<length (fs_live fs)}"
    "\<forall>i \<in> set is. quote_ok n (fs_live fs ! i)" "amount n r"
  shows "loop_books is (fs_live fs) (match_loop D sy tp ts fs r is)"
  using assms(2-)
proof (induction "is" arbitrary: fs r)
  case Nil
  then show ?case by (simp add: loop_books_def)
next
  case (Cons i "is")
  let ?q = "fs_live fs ! i"
  let ?fs1 = "round_queue D sy tp fs r i" and ?r1 = "round_left D sy tp fs r i"
  let ?x = "fill_quote D sy ts ?fs1 ?r1 i"
  have i: "i < length (fs_live fs)" "quote_ok n ?q" "i \<notin> set is" using Cons.prems by auto
  note left = round_left_eq [OF D i(2) Cons.prems(4), of sy tp]
  have rest1: "total_resting (fs_live ?fs1) = total_resting (fs_live fs)"
    using i(1) round_queue_live [of D sy tp fs r i] by (auto simp: total_resting_def sum_list_replace)
  have pos1: "\<forall>j \<in> set (i # is). 0 < lq_size (fs_live ?fs1 ! j)"
    using Cons.prems(2,3) by (auto simp: quote_ok_def)
  show ?case
  proof (cases "r \<le> 0 \<or> ?r1 = 0")
    case True
    with rest1 pos1 Cons.prems(3) show ?thesis
      by (auto simp: match_loop_Cons loop_books_def quote_ok_def)
  next
    case False
    have sz: "amount n (lq_size (fs_live ?fs1 ! i))" using i by (simp add: quote_ok_def)
    note fill = fill_quote_eq [OF D sz left(2), unfolded round_quote [OF i(1)]]
    let ?a = "min (lq_size ?q) ?r1"
    let ?fs2 = "snd (snd (snd ?x))"
    let ?m = "match_loop D sy tp ts ?fs2 (?r1 - ?a) is"
    have other: "fs_live ?fs2 ! j = fs_live fs ! j" if "j \<in> set is" for j
      using that i(3) by (metis fill_quote_other round_queue_other)
    have IH: "loop_books is (fs_live ?fs2) ?m"
      using Cons.prems other by (intro Cons.IH fill(6)) auto
    have rest2: "total_resting (fs_live ?fs2) + ?a = total_resting (fs_live fs)"
      using i(1) rest1 by (simp add: total_resting_def fill(4) sum_list_replace)
    have mine: "lq_size (fs_live (snd (snd ?m)) ! i) = lq_size ?q - ?a"
      using i(1,3) by (simp add: match_loop_frame fill(4))
    have size: "f_size (fst ?x) = ?a" using fill(1) [of sy ts] by (simp add: fill_terms_def)
    have "match_loop D sy tp ts fs r (i # is) = (fst ?x # fst ?m,
        if lq_size ?q - ?a = 0 then i # fst (snd ?m) else fst (snd ?m), snd (snd ?m))"
      using False by (simp add: match_loop_Cons Let_def fill(2,3))
    moreover have "0 \<le> lq_size ?q - ?a" by simp
    ultimately show ?thesis
      using IH rest2 mine size i(3)
      by (auto simp: loop_books_def case_prod_unfold)
  qed
qed

text \<open>Removing the drained indices, from the highest down, removes exactly those entries.\<close>

lemma remove_descending:
  assumes "sorted_wrt (>) ds" "\<forall>d \<in> set ds. d < length xs"
  shows "q \<in> set (foldl remove_nth xs ds) \<Longrightarrow> \<exists>j < length xs. j \<notin> set ds \<and> q = xs ! j"
    and "\<forall>d \<in> set ds. f (xs ! d) = (0 :: rat) \<Longrightarrow> sum_list (map f (foldl remove_nth xs ds)) = sum_list (map f xs)"
proof -
  have "(q \<in> set (foldl remove_nth xs ds) \<longrightarrow> (\<exists>j < length xs. j \<notin> set ds \<and> q = xs ! j)) \<and>
      ((\<forall>d \<in> set ds. f (xs ! d) = 0) \<longrightarrow> sum_list (map f (foldl remove_nth xs ds)) = sum_list (map f xs))"
    using assms
  proof (induction ds arbitrary: xs)
    case Nil
    then show ?case by (auto simp: in_set_conv_nth)
  next
    case (Cons d ds)
    let ?ys = "remove_nth xs d"
    have d: "d < length xs" "\<forall>e \<in> set ds. e < d" using Cons.prems by auto
    have len: "length ?ys = length xs - 1" using d(1) by (simp add: remove_nth_def)
    have low: "?ys ! j = xs ! j" if "j < d" for j
      using that d(1) by (simp add: remove_nth_def nth_append)
    have high: "?ys ! j = xs ! Suc j" if "d \<le> j" "j < length ?ys" for j
      using that d(1) len by (simp add: remove_nth_def nth_append)
    have "sum_list (map f xs) = f (xs ! d) + sum_list (map f ?ys)"
      using arg_cong [OF id_take_nth_drop [OF d(1)], of "\<lambda>l. sum_list (map f l)"]
      by (simp add: remove_nth_def)
    moreover have IH: "(q \<in> set (foldl remove_nth ?ys ds) \<longrightarrow> (\<exists>j < length ?ys. j \<notin> set ds \<and> q = ?ys ! j)) \<and>
        ((\<forall>e \<in> set ds. f (?ys ! e) = 0) \<longrightarrow> sum_list (map f (foldl remove_nth ?ys ds)) = sum_list (map f ?ys))"
      using Cons.prems(1) d len by (intro Cons.IH) auto
    moreover have "\<exists>j < length xs. j \<notin> set (d # ds) \<and> ?ys ! j' = xs ! j"
      if "j' < length ?ys" "j' \<notin> set ds" for j'
    proof (cases "j' < d")
      case True
      with that d low show ?thesis by (intro exI [of _ j']) auto
    next
      case False
      with that d len high show ?thesis by (intro exI [of _ "Suc j'"]) auto
    qed
    ultimately show ?case using low d(2) by auto
  qed
  then show "q \<in> set (foldl remove_nth xs ds) \<Longrightarrow> \<exists>j < length xs. j \<notin> set ds \<and> q = xs ! j"
    and "\<forall>d \<in> set ds. f (xs ! d) = (0 :: rat) \<Longrightarrow> sum_list (map f (foldl remove_nth xs ds)) = sum_list (map f xs)"
    by auto
qed

lemma sorted_rev_distinct: "distinct xs \<Longrightarrow> sorted_wrt (>) (rev (sort xs))"
  for xs :: "nat list"
  by (simp add: sorted_wrt_rev strict_sorted_iff)

text \<open>
  C3: A trade conserves volume: what rests afterwards and what was filled add up to what rested
  before, orders that are used up disappear and no order is left with nothing to fill.
\<close>

theorem match_conserves_volume:
  assumes "decimal_arith D" "\<forall>q \<in> set (fs_live fs). quote_ok n q" "amount n sz"
    and res: "(out, fs') = match_trade D fs sy tp sz taker ts"
  shows "total_resting (fs_live fs') + sum_list (map f_size out) = total_resting (fs_live fs)
    \<and> (\<forall>q \<in> set (fs_live fs'). 0 < lq_size q)"
proof (cases "tp \<le> 0 \<or> sz \<le> 0")
  case True
  with res assms(2) show ?thesis by (auto simp: match_trade_def quote_ok_def)
next
  case False
  let ?el = "eligible fs sy tp taker"
  obtain o1 dr f1 where m: "match_loop D sy tp ts fs sz ?el = (o1, dr, f1)" by (cases "match_loop D sy tp ts fs sz ?el")
  have lb: "loop_books ?el (fs_live fs) (o1, dr, f1)"
    unfolding m [symmetric] using assms(2) eligible_indices(2) [of fs sy tp taker]
    by (intro match_loop_books [OF assms(1) eligible_indices(1) _ _ assms(3)]) auto
  have len: "length (fs_live f1) = length (fs_live fs)"
    using match_loop_length [of D sy tp ts fs sz ?el] by (simp add: m)
  have r: "out = o1" "fs_live fs' = foldl remove_nth (fs_live f1) (rev (sort dr))"
    using res False m by (auto simp: match_trade_def)
  have dr: "sorted_wrt (>) (rev (sort dr))" "\<forall>d \<in> set (rev (sort dr)). d < length (fs_live f1)"
    using lb eligible_indices(2) [of fs sy tp taker] len
    by (auto simp: loop_books_def intro!: sorted_rev_distinct)
  have "total_resting (fs_live fs') = total_resting (fs_live f1)"
    unfolding r(2) total_resting_def
    by (rule remove_descending(2) [OF dr]) (use lb in \<open>auto simp: loop_books_def split: if_splits\<close>)
  moreover have "0 < lq_size q" if q: "q \<in> set (fs_live fs')" for q
  proof -
    obtain j where j: "j < length (fs_live f1)" "j \<notin> set dr" "q = fs_live f1 ! j"
      using remove_descending(1) [OF dr q [unfolded r(2)]] by auto
    show ?thesis
    proof (cases "j \<in> set ?el")
      case True
      with lb j show ?thesis by (auto simp: loop_books_def split: if_splits)
    next
      case False
      then have "q = fs_live fs ! j" using match_loop_frame [OF False, of D sy tp ts fs sz] j m by simp
      with j(1) len assms(2) show ?thesis by (auto simp: quote_ok_def)
    qed
  qed
  ultimately show ?thesis using lb r(1) by (auto simp: loop_books_def)
qed

lemma units_of_add: "units_of (add_units D fs sy s a) sy' = (if sy' = sy
    then (case s of Bid \<Rightarrow> dadd D (units_of fs sy) a | Ask \<Rightarrow> dsub D (units_of fs sy) a) else units_of fs sy')"
  by (cases s) (auto simp: units_of_def add_units_def Let_def)

lemma units_of_cong: "fs_position_units a = fs_position_units b \<Longrightarrow> units_of a sy = units_of b sy"
  by (simp add: units_of_def)

lemma fits_bound: "amount n z \<Longrightarrow> on_grid n x \<Longrightarrow> \<bar>x\<bar> \<le> z \<Longrightarrow> fits x"
  using amount_le [of n z "\<bar>x\<bar>"] amount_fits [of n "\<bar>x\<bar>"] by (cases "0 \<le> x") auto

lemma signed_step:
  assumes "decimal_arith D" "amount n (\<bar>u\<bar> + a)" "on_grid n u" "amount n a"
  shows "(case s of Bid \<Rightarrow> dadd D u a | Ask \<Rightarrow> dsub D u a) = u + side_delta s a"
proof -
  have a: "0 \<le> a" "on_grid n a" using assms(4) by (auto simp: amount_def)
  have "fits (u + a)" "fits (u - a)"
    using a assms(3) by (auto intro!: fits_bound [OF assms(2)])
  then show ?thesis
    using decimal_arith.add_fits [OF assms(1)] decimal_arith.sub_fits [OF assms(1)] by (cases s) auto
qed

lemma signed_room:
  assumes "amount n (\<bar>u\<bar> + r)" "on_grid n u" "on_grid n a" "on_grid n r1" "0 \<le> a" "a \<le> r1" "r1 \<le> r"
  shows "amount n (\<bar>u + side_delta s a\<bar> + (r1 - a))"
proof (rule amount_le [OF assms(1)])
  have "on_grid n (u + side_delta s a)" using assms(2,3) by (intro on_grid_add) simp_all
  then show "on_grid n (\<bar>u + side_delta s a\<bar> + (r1 - a))"
    using assms(3,4) by (intro on_grid_add on_grid_diff) simp_all
  show "0 \<le> \<bar>u + side_delta s a\<bar> + (r1 - a)" using assms by simp
  show "\<bar>u + side_delta s a\<bar> + (r1 - a) \<le> \<bar>u\<bar> + r" using assms by (cases s) auto
qed

lemma match_loop_units:
  assumes D: "decimal_arith D" and "distinct is" "set is \<subseteq> {..<length (fs_live fs)}"
    "\<forall>i \<in> set is. quote_ok n (fs_live fs ! i)" "amount n r"
    "on_grid n (units_of fs sy)" "amount n (\<bar>units_of fs sy\<bar> + r)"
  shows "units_of (snd (snd (match_loop D sy tp ts fs r is))) sy =
    units_of fs sy + signed_fills (fst (match_loop D sy tp ts fs r is))"
  using assms(2-)
proof (induction "is" arbitrary: fs r)
  case (Cons i "is")
  let ?q = "fs_live fs ! i"
  let ?fs1 = "round_queue D sy tp fs r i" and ?r1 = "round_left D sy tp fs r i"
  let ?x = "fill_quote D sy ts ?fs1 ?r1 i"
  have i: "i < length (fs_live fs)" "quote_ok n ?q" "i \<notin> set is" using Cons.prems by auto
  note left = round_left_eq [OF D i(2) Cons.prems(4), of sy tp]
  have u1: "units_of ?fs1 sy = units_of fs sy" by (simp add: units_of_def)
  show ?case
  proof (cases "r \<le> 0 \<or> ?r1 = 0")
    case True
    with u1 show ?thesis by (auto simp: match_loop_Cons signed_fills_def)
  next
    case False
    have sz: "amount n (lq_size (fs_live ?fs1 ! i))" using i by (simp add: quote_ok_def)
    note fill = fill_quote_eq [OF D sz left(2), unfolded round_quote [OF i(1)]]
    let ?a = "min (lq_size ?q) ?r1"
    let ?fs2 = "snd (snd (snd ?x))"
    have a: "amount n ?a" using i(2) left(2) by (auto simp: quote_ok_def)
    have le: "?a \<le> ?r1" "?r1 \<le> r" "0 \<le> ?a"
      using left(1) eaten_nonneg [OF i(2) Cons.prems(4)] amount_nonneg [OF a] by auto
    have grow: "on_grid n x \<Longrightarrow> 0 \<le> x \<Longrightarrow> x \<le> \<bar>units_of fs sy\<bar> + r \<Longrightarrow> amount n x" for x
      using amount_le [OF Cons.prems(6)] by blast
    have g: "on_grid n ?a" "on_grid n ?r1" "on_grid n (units_of fs sy)"
      using a left(2) Cons.prems(5) by (auto simp: amount_def)
    have "units_of ?fs2 sy = (case lq_side ?q of Bid \<Rightarrow> dadd D (units_of fs sy) ?a
        | Ask \<Rightarrow> dsub D (units_of fs sy) ?a)"
      unfolding u1 [symmetric]
      using units_of_add [of D ?fs1 sy "lq_side ?q" ?a sy] units_of_cong [OF fill(5) [of sy ts]]
      by simp
    also have "\<dots> = units_of fs sy + side_delta (lq_side ?q) ?a"
      using g le a by (intro signed_step [OF D grow]) auto
    finally have u2: "units_of ?fs2 sy = units_of fs sy + side_delta (lq_side ?q) ?a" .
    have other: "fs_live ?fs2 ! j = fs_live fs ! j" if "j \<in> set is" for j
      using that i(3) by (metis fill_quote_other round_queue_other)
    have "units_of (snd (snd (match_loop D sy tp ts ?fs2 (?r1 - ?a) is))) sy =
        units_of ?fs2 sy + signed_fills (fst (match_loop D sy tp ts ?fs2 (?r1 - ?a) is))"
    proof (rule Cons.IH)
      show "on_grid n (units_of ?fs2 sy)" unfolding u2 using g by auto
      show "amount n (\<bar>units_of ?fs2 sy\<bar> + (?r1 - ?a))"
        unfolding u2 using g le by (intro signed_room [OF Cons.prems(6)])
    qed (use Cons.prems other fill(6) in auto)
    moreover have "f_size (fst ?x) = ?a" "f_side (fst ?x) = lq_side ?q"
      using fill(1) [of sy ts] by (auto simp: fill_terms_def)
    ultimately show ?thesis
      using False u2 by (simp add: match_loop_Cons Let_def fill(2) signed_fills_def)
  qed
qed (simp add: signed_fills_def)

text \<open>
  The engine's position follows its fills: a trade changes the position of its symbol by
  exactly the signed sum of the fills it produced, bids adding and asks subtracting, as long
  as the mantissa can hold the position plus the traded volume.
\<close>

theorem match_position:
  assumes "decimal_arith D" "\<forall>q \<in> set (fs_live fs). quote_ok n q" "amount n sz"
    and "on_grid n (units_of fs sy)" "amount n (\<bar>units_of fs sy\<bar> + sz)"
  shows "units_of (snd (match_trade D fs sy tp sz taker ts)) sy =
    units_of fs sy + signed_fills (fst (match_trade D fs sy tp sz taker ts))"
proof (cases "tp \<le> 0 \<or> sz \<le> 0")
  case True
  then show ?thesis by (auto simp: match_trade_def signed_fills_def)
next
  case False
  let ?m = "match_loop D sy tp ts fs sz (eligible fs sy tp taker)"
  have "units_of (snd (snd ?m)) sy = units_of fs sy + signed_fills (fst ?m)"
    using assms(2) eligible_indices(2) [of fs sy tp taker]
    by (intro match_loop_units [OF assms(1) eligible_indices(1) _ _ assms(3-5)]) auto
  moreover have "units_of (snd (match_trade D fs sy tp sz taker ts)) sy = units_of (snd (snd ?m)) sy"
    using False by (intro units_of_cong) (simp add: match_trade_def case_prod_unfold Let_def)
  ultimately show ?thesis
    using False by (simp add: match_trade_def case_prod_unfold Let_def)
qed

end
