(* ===== verification/Sim_Time.thy ===== *)
theory Sim_Time
  imports Sim_Match
begin

text \<open>
  Time in the fill engine: an order never takes part in the event that caused it, the mirror of
  a live venue never fills by itself, and the random streams.
\<close>

subsection \<open>No look-ahead\<close>

text \<open>
  \<open>retime\<close> changes what a submission changes: the pending queue and the latency stream.
  Nothing that fills an order reads either, so every step commutes with it.
\<close>

definition retime :: "pending_op list \<Rightarrow> u64 \<Rightarrow> fill_sim \<Rightarrow> fill_sim" where
  "retime ps st fs = fs\<lparr>fs_pending := ps, fs_latency_rng := st\<rparr>"

lemma retime_fields [simp]:
  "fs_cfg (retime ps st fs) = fs_cfg fs" "fs_pending (retime ps st fs) = ps"
  "fs_live (retime ps st fs) = fs_live fs" "fs_managers (retime ps st fs) = fs_managers fs"
  "fs_book (retime ps st fs) = fs_book fs" "fs_rejections (retime ps st fs) = fs_rejections fs"
  "fs_position_units (retime ps st fs) = fs_position_units fs"
  "fs_wallet (retime ps st fs) = fs_wallet fs" "fs_spot_cash (retime ps st fs) = fs_spot_cash fs"
  "fs_spot_units (retime ps st fs) = fs_spot_units fs"
  "fs_committed (retime ps st fs) = fs_committed fs" "fs_dirty (retime ps st fs) = fs_dirty fs"
  "fs_rng (retime ps st fs) = fs_rng fs" "fs_last_event (retime ps st fs) = fs_last_event fs"
  "fs_live_mirror (retime ps st fs) = fs_live_mirror fs" "fs_minted (retime ps st fs) = fs_minted fs"
  by (simp_all add: retime_def)

lemma retime_update [simp]:
  "(retime ps st fs)\<lparr>fs_live := q\<rparr> = retime ps st (fs\<lparr>fs_live := q\<rparr>)"
  "(retime ps st fs)\<lparr>fs_book := b\<rparr> = retime ps st (fs\<lparr>fs_book := b\<rparr>)"
  "(retime ps st fs)\<lparr>fs_rejections := r\<rparr> = retime ps st (fs\<lparr>fs_rejections := r\<rparr>)"
  "(retime ps st fs)\<lparr>fs_position_units := u\<rparr> = retime ps st (fs\<lparr>fs_position_units := u\<rparr>)"
  "(retime ps st fs)\<lparr>fs_spot_cash := c\<rparr> = retime ps st (fs\<lparr>fs_spot_cash := c\<rparr>)"
  "(retime ps st fs)\<lparr>fs_spot_units := c\<rparr> = retime ps st (fs\<lparr>fs_spot_units := c\<rparr>)"
  "(retime ps st fs)\<lparr>fs_committed := m\<rparr> = retime ps st (fs\<lparr>fs_committed := m\<rparr>)"
  "(retime ps st fs)\<lparr>fs_dirty := d\<rparr> = retime ps st (fs\<lparr>fs_dirty := d\<rparr>)"
  "(retime ps st fs)\<lparr>fs_rng := g\<rparr> = retime ps st (fs\<lparr>fs_rng := g\<rparr>)"
  "(retime ps st fs)\<lparr>fs_last_event := t\<rparr> = retime ps st (fs\<lparr>fs_last_event := t\<rparr>)"
  "(retime ps st fs)\<lparr>fs_minted := n\<rparr> = retime ps st (fs\<lparr>fs_minted := n\<rparr>)"
  "(retime ps st fs)\<lparr>fs_pending := ps'\<rparr> = retime ps' st fs"
  "retime ps st (retime ps' st' fs) = retime ps st fs"
  "retime ps st (fs\<lparr>fs_pending := ps'\<rparr>) = retime ps st fs"
  by (simp_all add: retime_def)

lemma retime_refresh [simp]: "refresh_committed D (retime ps st fs) = retime ps st (refresh_committed D fs)"
  by (simp add: refresh_committed_def)

lemma retime_committed [simp]:
  "committed_for D (retime ps st fs) sy = (fst (committed_for D fs sy), retime ps st (snd (committed_for D fs sy)))"
  by (simp add: committed_for_eq)

lemma retime_cross [simp]: "would_cross (retime ps st fs) i = would_cross fs i"
  by (simp add: would_cross_def)

lemma retime_cap [simp]: "order_cap_hit (retime ps st fs) i = order_cap_hit fs i"
  by (simp add: order_cap_hit_def resting_count_def split: option.splits)

lemma retime_fraction [simp]: "maker_fraction D (retime ps st fs) = maker_fraction D fs"
  by (simp add: maker_fraction_def)

lemma retime_position [simp]: "position_notional D (retime ps st fs) sy p = position_notional D fs sy p"
  by (simp add: position_notional_def)

lemma retime_spot_gate [simp]:
  "spot_gate D (retime ps st fs) i = (fst (spot_gate D fs i), retime ps st (snd (spot_gate D fs i)))"
  by (cases "qi_side i") (simp_all add: spot_gate_def case_prod_unfold Let_def)

lemma retime_margin_gate [simp]:
  "margin_gate D (retime ps st fs) i pos = (fst (margin_gate D fs i pos), retime ps st (snd (margin_gate D fs i pos)))"
  by (simp add: margin_gate_def case_prod_unfold Let_def)

lemma retime_pos_cap [simp]: "position_cap_hit D (retime ps st fs) i pos = position_cap_hit D fs i pos"
  by (simp add: position_cap_hit_def position_cap_def)

lemma retime_futures_gate [simp]:
  "futures_gate D (retime ps st fs) i = (fst (futures_gate D fs i), retime ps st (snd (futures_gate D fs i)))"
  by (simp add: futures_gate_def case_prod_unfold Let_def)

lemma retime_gates [simp]:
  "place_gates D (retime ps st fs) i = (fst (place_gates D fs i), retime ps st (snd (place_gates D fs i)))"
  by (simp add: place_gates_def)

lemma retime_book [simp]: "book_of (retime ps st fs) sy = book_of fs sy"
  by (simp add: book_of_def)

lemma retime_put_book [simp]: "put_book (retime ps st fs) sy b = retime ps st (put_book fs sy b)"
  by (simp add: put_book_def)

lemma retime_units [simp]: "add_units D (retime ps st fs) sy s a = retime ps st (add_units D fs sy s a)"
  by (simp add: add_units_def Let_def)

lemma retime_settle [simp]: "spot_settle D (retime ps st fs) s v a f = retime ps st (spot_settle D fs s v a f)"
  by (cases s) (simp_all add: spot_settle_def Let_def)

lemma retime_immediate [simp]:
  "fill_immediate E (retime ps st fs) i ts =
     (fst (fill_immediate E fs i ts), retime ps st (snd (fill_immediate E fs i ts)))"
  by (simp add: fill_immediate_def Let_def)

lemma retime_rest [simp]: "rest_quote E (retime ps st fs) i ts oid = retime ps st (rest_quote E fs i ts oid)"
  by (simp add: rest_quote_def Let_def split: option.splits)

lemma retime_reject [simp]: "reject (retime ps st fs) i r = retime ps st (reject fs i r)"
  by (simp add: reject_def)

lemma retime_place [simp]:
  "place_or_reject E (retime ps st fs) i ts oid =
     (fst (place_or_reject E fs i ts oid), retime ps st (snd (place_or_reject E fs i ts oid)))"
  by (cases E fs i rule: place_outcomes) (simp_all add: place_rejected place_immediate place_rests)

lemma retime_evict:
  "\<exists>ps'. evict (retime ps st fs) k = (fst (evict fs k), retime ps' st (snd (evict fs k)))"
  by (auto simp: evict_def purge_pending_id_def case_prod_unfold Let_def)

lemma retime_restore [simp]: "restore (retime ps st fs) r = retime ps st (restore fs r)"
  by (simp add: restore_def split: option.splits)

lemma retime_apply_op:
  "\<exists>ps'. apply_op E (retime ps st fs) p = (fst (apply_op E fs p), retime ps' st (snd (apply_op E fs p)))"
proof (cases p)
  case (fields t o1)
  show ?thesis
  proof (cases o1)
    case (ReplaceOp k i)
    obtain ps' where "evict (retime ps st fs) k = (fst (evict fs k), retime ps' st (snd (evict fs k)))"
      using retime_evict by blast
    with fields ReplaceOp show ?thesis by (simp add: apply_replace Let_def) metis
  next
    case (CancelOp k)
    with fields show ?thesis by (auto simp: cancel_id_def purge_pending_id_def)
  qed (use fields in \<open>auto simp: case_prod_unfold Let_def\<close>)
qed

lemma retime_apply_ops:
  "\<exists>ps'. apply_ops E (retime ps st fs) ops = (fst (apply_ops E fs ops), retime ps' st (snd (apply_ops E fs ops)))"
proof (induction ops arbitrary: ps fs)
  case (Cons p ops)
  obtain ps' where "apply_op E (retime ps st fs) p = (fst (apply_op E fs p), retime ps' st (snd (apply_op E fs p)))"
    using retime_apply_op by blast
  with Cons [of ps' "snd (apply_op E fs p)"] show ?case by (auto simp: case_prod_unfold Let_def)
qed auto

lemma retime_decay [simp]: "decay_queue_ahead E (retime ps st fs) now = retime ps st (decay_queue_ahead E fs now)"
  by (simp add: decay_queue_ahead_def Let_def split: option.splits)

lemma retime_silent [simp]: "silent_cancel_tick E (retime ps st fs) now = retime ps st (silent_cancel_tick E fs now)"
  by (simp add: silent_cancel_tick_def case_prod_unfold Let_def)

lemma retime_update_book [simp]: "update_book_state D (retime ps st fs) sn = retime ps st (update_book_state D fs sn)"
  by (simp add: update_book_state_def Let_def)

lemma retime_eat [simp]:
  "eat_queue D sy tp (retime ps st fs) r i = (fst (eat_queue D sy tp fs r i), retime ps st (snd (eat_queue D sy tp fs r i)))"
  by (cases "fs_book fs sy") (simp_all add: eat_queue_def Let_def)

lemma retime_fill_quote [simp]:
  "fill_quote D sy ts (retime ps st fs) r i = (let x = fill_quote D sy ts fs r i in
     (fst x, fst (snd x), fst (snd (snd x)), retime ps st (snd (snd (snd x)))))"
  by (simp add: fill_quote_def maker_fee_def Let_def)

lemma retime_match_loop [simp]:
  "match_loop D sy tp ts (retime ps st fs) r is = (let x = match_loop D sy tp ts fs r is in
     (fst x, fst (snd x), retime ps st (snd (snd x))))"
  by (induction "is" arbitrary: fs r)
    (simp_all add: match_loop_Cons round_queue_def round_left_def Let_def)

lemma retime_match [simp]:
  "match_trade D (retime ps st fs) sy tp sz taker ts =
     (fst (match_trade D fs sy tp sz taker ts), retime ps st (snd (match_trade D fs sy tp sz taker ts)))"
  by (simp add: match_trade_def eligible_def case_prod_unfold Let_def)

lemma retime_self: "fs = retime (fs_pending fs) (fs_latency_rng fs) fs"
  by (simp add: retime_def)

text \<open>A queue that differs only in operations that are not yet due leads to the same event.\<close>

lemma retime_apply_pending:
  assumes "takeWhile (\<lambda>p. po_at p \<le> now) ps = takeWhile (\<lambda>p. po_at p \<le> now) (fs_pending fs)"
  shows "\<exists>ps'. apply_pending E (retime ps st fs) now =
    (fst (apply_pending E fs now), retime ps' st (snd (apply_pending E fs now)))"
proof -
  let ?fs1 = "fs\<lparr>fs_pending := dropWhile (\<lambda>p. po_at p \<le> now) (fs_pending fs)\<rparr>"
  have "apply_pending E (retime ps st fs) now =
      apply_ops E (retime (dropWhile (\<lambda>p. po_at p \<le> now) ps) st ?fs1)
        (takeWhile (\<lambda>p. po_at p \<le> now) (fs_pending fs))"
    by (simp add: apply_pending_def assms)
  then show ?thesis
    using retime_apply_ops [of E "dropWhile (\<lambda>p. po_at p \<le> now) ps" st ?fs1]
    by (simp add: apply_pending_def)
qed

lemma decay_pending [simp]: "fs_pending (decay_queue_ahead E fs now) = fs_pending fs"
  by (simp add: decay_queue_ahead_def Let_def split: option.splits)

lemma silent_pending [simp]: "fs_pending (silent_cancel_tick E fs now) = fs_pending fs"
  by (simp add: silent_cancel_tick_def case_prod_unfold Let_def)

lemma retime_event:
  assumes "takeWhile (\<lambda>p. po_at p \<le> now) ps = takeWhile (\<lambda>p. po_at p \<le> now) (fs_pending fs)"
  shows "\<exists>ps'. on_market_event E (retime ps st fs) ev now =
    (fst (on_market_event E fs ev now), retime ps' st (snd (on_market_event E fs ev now)))"
proof (cases "fs_live_mirror fs")
  case True
  obtain ps' where "apply_pending E (retime ps st (fs\<lparr>fs_last_event := Some now\<rparr>)) now =
      (fst (apply_pending E (fs\<lparr>fs_last_event := Some now\<rparr>) now),
       retime ps' st (snd (apply_pending E (fs\<lparr>fs_last_event := Some now\<rparr>) now)))"
    using retime_apply_pending [of now ps "fs\<lparr>fs_last_event := Some now\<rparr>" E st] assms by auto
  with True show ?thesis
    by (cases ev) (auto simp: on_market_event_def case_prod_unfold Let_def)
next
  case False
  let ?fs1 = "silent_cancel_tick E (decay_queue_ahead E fs now) now"
  obtain ps' where "apply_pending E (retime ps st ?fs1) now =
      (fst (apply_pending E ?fs1 now), retime ps' st (snd (apply_pending E ?fs1 now)))"
    using retime_apply_pending [of now ps ?fs1 E st] assms by auto
  with False show ?thesis
    by (cases ev) (auto simp: on_market_event_def case_prod_unfold Let_def)
qed

lemma submit_retime:
  "\<exists>st ps. submit E fs now o1 = retime ps st fs
     \<and> (\<exists>t. t > now \<and> ps = sort_key po_at (fs_pending fs @ [\<lparr>po_at = t, po_op = o1\<rparr>]))"
  if "now < - 1"
proof -
  let ?l = "sample_latency_ns E fs (fc_submit_latency_ms (fs_cfg fs))"
  obtain st where st: "snd ?l = fs\<lparr>fs_latency_rng := st\<rparr>"
    using sample_latency_state [of E fs "fc_submit_latency_ms (fs_cfg fs)"] by blast
  have "0 < max (fst ?l) 1"
    by (rule order_less_le_trans [of _ 1]) simp_all
  then have "now < sat_add now (max (fst ?l) 1)" using that by (rule sat_add_strict)
  with st show ?thesis
    by (intro exI [of _ st] exI [of _ "sort_key po_at (fs_pending fs @
          [\<lparr>po_at = sat_add now (max (fst ?l) 1), po_op = o1\<rparr>])"] conjI
        exI [of _ "sat_add now (max (fst ?l) 1)"])
      (simp_all add: submit_def enqueue_def case_prod_unfold Let_def retime_def)
qed

text \<open>The same for a whole batch of orders, as seen by what is due at the event.\<close>

definition is_order :: "action \<Rightarrow> bool" where
  "is_order a \<longleftrightarrow> (\<exists>i. a = Quote i) \<or> (\<exists>k i. a = Requote k i)"

lemma order_retime:
  assumes "queue_sorted fs" "now < - 1" "is_order a"
  shows "\<exists>st ps. on_action E fs a now = retime ps st fs \<and> sorted (map po_at ps)
    \<and> takeWhile (\<lambda>p. po_at p \<le> now) ps = takeWhile (\<lambda>p. po_at p \<le> now) (fs_pending fs)"
proof -
  obtain o1 where o1: "on_action E fs a now = submit E fs now o1"
    using assms(3) by (auto simp: is_order_def)
  obtain st ps t where sub: "submit E fs now o1 = retime ps st fs" "now < t"
      "ps = sort_key po_at (fs_pending fs @ [\<lparr>po_at = t, po_op = o1\<rparr>])"
    using submit_retime [OF assms(2)] by metis
  have sorted: "sorted (map po_at ps)" by (simp add: sub(3))
  have "takeWhile (\<lambda>p. po_at p \<le> now) ps = filter (\<lambda>p. po_at p \<le> now) ps"
    by (rule sorted_takeWhile_le [OF sorted])
  also have "\<dots> = sort_key po_at (filter (\<lambda>p. po_at p \<le> now) (fs_pending fs))"
    using linorder_not_le [THEN iffD2, OF sub(2)] by (simp add: sub(3) filter_sort)
  also have "\<dots> = filter (\<lambda>p. po_at p \<le> now) (fs_pending fs)"
    using assms(1) by (intro sort_key_id_if_sorted sorted_key_filter) (simp add: queue_sorted_def)
  also have "\<dots> = takeWhile (\<lambda>p. po_at p \<le> now) (fs_pending fs)"
    using assms(1) by (intro sorted_takeWhile_le [symmetric]) (simp add: queue_sorted_def)
  finally show ?thesis using o1 sub(1) sorted by auto
qed

lemma retime_retime [simp]: "retime ps st (retime ps' st' fs) = retime ps st fs"
  by (simp add: retime_def)

lemma orders_retime:
  assumes "queue_sorted fs" "now < - 1" "\<forall>a \<in> set as. is_order a \<or> a = NoOp"
  shows "\<exists>st ps. foldl (\<lambda>fs a. on_action E fs a now) fs as = retime ps st fs
    \<and> takeWhile (\<lambda>p. po_at p \<le> now) ps = takeWhile (\<lambda>p. po_at p \<le> now) (fs_pending fs)"
  using assms
proof (induction as arbitrary: fs)
  case Nil
  show ?case by (rule exI [of _ "fs_latency_rng fs"], rule exI [of _ "fs_pending fs"]) (simp add: retime_def)
next
  case (Cons a as)
  consider "is_order a" | "a = NoOp" using Cons.prems(3) by auto
  then show ?case
  proof cases
    case 1
    obtain st ps where r: "on_action E fs a now = retime ps st fs" "sorted (map po_at ps)"
      "takeWhile (\<lambda>p. po_at p \<le> now) ps = takeWhile (\<lambda>p. po_at p \<le> now) (fs_pending fs)"
      using order_retime [OF Cons.prems(1,2) 1] by metis
    then have "queue_sorted (on_action E fs a now)" by (simp add: queue_sorted_def)
    from Cons.IH [OF this Cons.prems(2)] Cons.prems(3)
    obtain st' ps' where "foldl (\<lambda>fs a. on_action E fs a now) (on_action E fs a now) as
        = retime ps' st' (on_action E fs a now)"
      "takeWhile (\<lambda>p. po_at p \<le> now) ps' = takeWhile (\<lambda>p. po_at p \<le> now) (fs_pending (on_action E fs a now))"
      by auto
    with r show ?thesis by auto
  next
    case 2
    then show ?thesis using Cons by simp
  qed
qed

text \<open>
  C2: No look-ahead: placing or replacing an order while an event is being handled does not
  change that event.  Whatever the configured latency, zero included, the fills of the event,
  the resting orders, the position, the balances and the book come out as if the order had not
  been sent.
\<close>

theorem no_look_ahead:
  assumes "queue_sorted fs" "now < - 1" "a \<in> {Quote i, Requote k i}"
    and "x = on_market_event E fs ev now" "y = on_market_event E (on_action E fs a now) ev now"
  shows "fst y = fst x \<and> fs_live (snd y) = fs_live (snd x)
    \<and> fs_position_units (snd y) = fs_position_units (snd x) \<and> fs_book (snd y) = fs_book (snd x)
    \<and> fs_spot_cash (snd y) = fs_spot_cash (snd x) \<and> fs_spot_units (snd y) = fs_spot_units (snd x)
    \<and> fs_rejections (snd y) = fs_rejections (snd x)"
proof -
  have "is_order a" using assms(3) by (auto simp: is_order_def)
  from order_retime [OF assms(1,2) this, of E] show ?thesis
    using retime_event [of now _ fs E _ ev] assms(4,5) by (metis fst_conv snd_conv retime_fields)
qed

subsection \<open>The live mirror\<close>

text \<open>
  In live mode the mirror never invents a fill: while no operation is due, an event on the
  mirror produces no fill and leaves every resting order, with its size and its queue, and the
  position as they are; only a book update changes the queue estimates.
\<close>

theorem mirror_never_fills:
  assumes "fs_live_mirror fs" "\<forall>p \<in> set (fs_pending fs). now < po_at p"
    and "\<forall>sn. ev \<noteq> BookUpdate sn"
  shows "on_market_event E fs ev now = ([], fs\<lparr>fs_last_event := Some now\<rparr>)"
proof -
  have "takeWhile (\<lambda>p. po_at p \<le> now) (fs_pending fs) = []"
      "dropWhile (\<lambda>p. po_at p \<le> now) (fs_pending fs) = fs_pending fs"
    using assms(2) by (cases "fs_pending fs"; auto simp: not_le)+
  then show ?thesis using assms(1,3)
    by (cases ev) (simp_all add: on_market_event_def apply_pending_def Let_def)
qed

subsection \<open>The random streams\<close>

lemma bit_eq_zeroI: "(\<And>n. n < 64 \<Longrightarrow> \<not> bit x n) \<Longrightarrow> x = (0 :: u64)"
  by (rule bit_word_eqI) simp

lemma xor_zero: "x XOR y = 0 \<longleftrightarrow> x = y" for x y :: u64
  by (auto simp: bit_eq_iff bit_xor_iff)

lemma xor_shift_left:
  fixes x :: u64
  assumes "x XOR push_bit k x = 0" "0 < k"
  shows "x = 0"
proof (rule bit_eq_zeroI)
  have eq: "x = push_bit k x" using assms(1) by (simp only: xor_zero)
  fix n assume "n < (64 :: nat)"
  then show "\<not> bit x n"
  proof (induction n rule: less_induct)
    case (less n)
    show ?case
    proof
      assume "bit x n"
      then have "bit (push_bit k x) n" using eq by simp
      then have "k \<le> n" "bit x (n - k)" by (auto simp: bit_push_bit_iff)
      moreover have "n - k < 64" using less.prems by linarith
      ultimately show False using less.IH [of "n - k"] assms(2) by simp
    qed
  qed
qed

lemma xor_shift_right:
  fixes x :: u64
  assumes "x XOR drop_bit k x = 0" "0 < k"
  shows "x = 0"
proof (rule bit_eq_zeroI)
  have eq: "x = drop_bit k x" using assms(1) by (simp only: xor_zero)
  have "\<not> bit x (64 - Suc m)" if "m < 64" for m
    using that
  proof (induction m rule: less_induct)
    case (less m)
    show ?case
    proof
      assume b: "bit x (64 - Suc m)"
      then have "bit (drop_bit k x) (64 - Suc m)" using eq by simp
      then have "bit x (64 - Suc m + k)" by (simp add: bit_drop_bit_eq add.commute)
      then have lt: "64 - Suc m + k < 64" by (auto dest: bit_imp_le_length)
      then have "64 - Suc m + k = 64 - Suc (m - k)" "m - k < m" using assms(2) less.prems by linarith+
      with less.IH [of "m - k"] less.prems \<open>bit x (64 - Suc m + k)\<close> show False by simp
    qed
  qed
  then show "\<not> bit x n" if "n < 64" for n
    using that by (metis Suc_diff_Suc diff_diff_cancel less_imp_le_nat diff_Suc_less zero_less_numeral Suc_leI)
qed

text \<open>
  The random stream never degenerates: a step of the generator maps only zero to zero, so
  from a non-zero seed, for which construction substitutes a constant when the configured seed
  is zero, the silent-cancel stream never reaches its fixed point.
\<close>

theorem xorshift_nonzero:
  "(next_u64 s = 0 \<longleftrightarrow> s = 0) \<and> (next_u64 ^^ k) (fs_rng (fill_sim_new cfg)) \<noteq> 0"
proof -
  have step: "next_u64 s = 0 \<longleftrightarrow> s = 0" for s
  proof
    define x where "x = s XOR push_bit 13 s"
    define y where "y = x XOR drop_bit 7 x"
    assume "next_u64 s = 0"
    then have "y XOR push_bit 17 y = 0" by (simp only: next_u64_def Let_def x_def y_def)
    then have "y = 0" by (rule xor_shift_left) simp
    then have "x = 0" unfolding y_def by (rule xor_shift_right) simp
    then show "s = 0" unfolding x_def by (rule xor_shift_left) simp
  qed (simp add: next_u64_def)
  have "fs_rng (fill_sim_new cfg) \<noteq> 0"
    by (simp add: fill_sim_new_def Let_def)
  then have "(next_u64 ^^ k) (fs_rng (fill_sim_new cfg)) \<noteq> 0"
    by (induction k) (simp_all add: step)
  with step show ?thesis by blast
qed

lemma zero_draw: "next_unit_f64 0 = (0, 0)"
  by (simp add: next_unit_f64_def next_u64_def)

text \<open>
  The latency stream can degenerate although it is derived to be non-zero: with the seed
  A5A5A5A5A5A5A5A5 in hexadecimal, and with no other, it starts at the fixed point of the generator; there
  every draw is zero and the stream stays, so the jitter never varies.
\<close>

theorem latency_stream_degenerate:
  "(fs_latency_rng (fill_sim_new cfg) = 0 \<longleftrightarrow> fc_rng_seed cfg = 0xA5A5A5A5A5A5A5A5)
   \<and> next_unit_f64 0 = (0, 0)
   \<and> fs_latency_rng (snd (sample_latency_ns E (fs\<lparr>fs_latency_rng := 0\<rparr>) base)) = 0"
  by (auto simp: fill_sim_new_def sample_latency_ns_def Let_def xor_zero zero_draw)

end
