(* ===== verification/Sim_Runs.thy ===== *)
theory Sim_Runs
  imports Sim_Time
begin

text \<open>
  Concrete runs of the fill engine: the instances at which the general properties are applied,
  and three runs that show behaviour the comments of the code rule out.
\<close>

definition eg_float :: float_ops where
  "eg_float = \<lparr>f_of_nat = of_nat, f_mul = (*), f_div = (/), f_exp = (\<lambda>x. 1), f_ln = (\<lambda>x. 0)\<rparr>"

definition eg_env :: sim_env where
  "eg_env = \<lparr>se_dec = exact_decimal, se_float = eg_float, se_uuid = (\<lambda>n. of_nat (Suc n)),
     se_mantissa = (\<lambda>x. 0), se_scale = (\<lambda>x. 0)\<rparr>"

definition eg_sim_config :: "bool \<Rightarrow> fill_sim_config" where
  "eg_sim_config spot = \<lparr>fc_submit_latency_ms = 50, fc_cancel_latency_ms = 10,
     fc_fees = \<lparr>vf_maker_bps = 0, vf_taker_bps = 0\<rparr>, fc_max_position_notional = None,
     fc_leverage = 0, fc_max_position_frac = 0, fc_silent_cancel_rate = 0, fc_rng_seed = 1,
     fc_latency_jitter_ms = 0, fc_max_open_orders = Some 2, fc_queue_decay = 0, fc_spot = spot\<rparr>"

definition eg_market :: symbol where
  "eg_market = \<lparr>sy_base = ''ETH'', sy_quote = ''USDC'', sy_venue = ''test'', sy_kind = Spot\<rparr>"

definition eg_intent :: "side \<Rightarrow> price \<Rightarrow> qsize \<Rightarrow> time_in_force \<Rightarrow> quote_intent" where
  "eg_intent s p q t = \<lparr>qi_symbol = eg_market, qi_side = s, qi_price = p, qi_size = q,
     qi_tif = t, qi_kind = Point\<rparr>"

definition eg_snapshot :: snapshot where
  "eg_snapshot = \<lparr>sn_symbol = eg_market, sn_bids = [\<lparr>lv_price = 100, lv_size = 5\<rparr>],
     sn_asks = [\<lparr>lv_price = 101, lv_size = 5\<rparr>], sn_ts = 0\<rparr>"

definition eg_quote :: "quote_id \<Rightarrow> side \<Rightarrow> price \<Rightarrow> qsize \<Rightarrow> rat \<Rightarrow> live_quote" where
  "eg_quote k s p q ahead = \<lparr>lq_id = k, lq_symbol = eg_market, lq_side = s, lq_price = p,
     lq_size = q, lq_queue_ahead = ahead, lq_ts = 0\<rparr>"

definition eg_resting :: "bool \<Rightarrow> fill_sim" where
  "eg_resting spot = (fill_sim_new (eg_sim_config spot))
     \<lparr>fs_live := [eg_quote 1 Bid 98 2 0, eg_quote 2 Bid 99 1 1], fs_spot_cash := 1000, fs_spot_units := 3\<rparr>"

definition eg_ms :: "u64 \<Rightarrow> u64" where
  "eg_ms k = k * 1000000"

lemmas eg_data = eg_env_def eg_float_def eg_sim_config_def eg_market_def eg_intent_def
  eg_snapshot_def eg_quote_def eg_resting_def eg_ms_def fill_sim_new_def Let_def

lemmas sim_clock = submit_def submit_cancel_def enqueue_def sample_latency_ns_def sat_add_def
  sat_mul_def on_market_event_def apply_pending_def decay_queue_ahead_def silent_cancel_tick_def

lemmas sim_placing = place_or_reject_def place_gates_def order_cap_hit_def resting_count_def
  immediate_def would_cross_def spot_gate_def futures_gate_def margin_gate_def
  position_cap_hit_def position_cap_def rest_quote_def cancel_id_def purge_pending_id_def
  is_tracked_def apply_replace evict_def reject_def restore_def seed_spot_def committed_for_def
  committed_scan_def add_commitment_def intent_notional_def maker_fraction_def
  position_notional_def

lemmas sim_filling = fill_immediate_def walk_book_ioc_def walk_sorted_def walk_key_def
  breaches_def dec_sum_def take_levels_def decrement_level_def add_units_def spot_settle_def
  match_trade_def eligible_def quote_takes_trade_def eat_queue_def fill_quote_def maker_fee_def
  remove_nth_def match_loop.simps with_side_def dec_i32_def dec_u32_def update_book_state_def
  put_book_def book_of_def book_default_def level_map_def set_top_def level_size_def
  side_map_def size_at_def

lemmas sim_eval = sim_run_def eg_data sim_clock sim_placing sim_filling

subsection \<open>Runs the comments rule out\<close>

text \<open>
  A replace and then a cancel of the same order, both sent at 60 ms; the cancel is due first.
  The runs differ only in whether an event falls between the two due times.
\<close>

definition eg_race :: "sim_call list \<Rightarrow> sim_call list" where
  "eg_race between = [ActCall (Quote (eg_intent Bid 99 1 PostOnly)) 0,
     EventCall (Heartbeat 0) (eg_ms 60),
     ActCall (Requote 1 (eg_intent Bid 98 1 PostOnly)) (eg_ms 60),
     ActCall (Cancel 1) (eg_ms 60)] @ between @ [EventCall (Heartbeat 0) (eg_ms 200)]"

text \<open>
  A cancelled order can come back: the operations due at an event are taken out of the
  queue before they are applied, so a cancel does not reach a replace of the same order that is
  due later but at the same event, and the order rests again under its id.  With an event in
  between, the same two operations leave nothing resting.
\<close>

theorem cancelled_order_returns:
  "is_tracked (sim_run eg_env (fill_sim_new (eg_sim_config False)) (eg_race [])) 1
   \<and> \<not> is_tracked (sim_run eg_env (fill_sim_new (eg_sim_config False))
         (eg_race [EventCall (Heartbeat 0) (eg_ms 80)])) 1"
  by (simp add: sim_eval eg_race_def)

definition eg_short_run :: "sim_call list" where
  "eg_short_run = [SeedCall 0 1, EventCall (BookUpdate eg_snapshot) 0,
     ActCall (Quote (eg_intent Ask 110 1 PostOnly)) 0, EventCall (Heartbeat 0) (eg_ms 60),
     ActCall (Quote (eg_intent Ask 100 1 IOC)) (eg_ms 60), EventCall (Heartbeat 0) (eg_ms 120),
     EventCall (Trade eg_market 110 1 Bid 0) (eg_ms 130)]"

text \<open>
  A spot account can go short: the asset gate of an immediate ask ignores the asks that
  rest, so with one unit held, one unit resting and one sold immediately are both accepted, and
  after both have filled the account holds minus one unit.
\<close>

theorem spot_short_reachable:
  "fs_spot_units (sim_run eg_env (fill_sim_new (eg_sim_config True)) eg_short_run) = - 1
   \<and> fs_rejections (sim_run eg_env (fill_sim_new (eg_sim_config True)) eg_short_run) = []"
  by (simp add: sim_eval eg_short_run_def)

text \<open>
  The cached view can show the strategy an order of the manager: marking an id changes what
  the view must show but not its fingerprint, so the cache keeps returning what it returned
  before the mark, while the view computed afresh hides the order.
\<close>

theorem cached_view_ignores_mark:
  "fst (open_quotes E (mark_manager (snd (open_quotes E fs sy)) k) sy) = fst (open_quotes E fs sy)
   \<and> fst (open_quotes eg_env (sim_run eg_env (eg_resting False) [ViewCall eg_market, MarkCall 1]) eg_market)
      \<noteq> live_quotes_for (sim_run eg_env (eg_resting False) [ViewCall eg_market, MarkCall 1]) eg_market"
proof -
  have sig: "open_quotes_signature E (mark_manager fs k) sy = open_quotes_signature E fs sy"
      "open_quotes_signature E (fs\<lparr>fs_view_cache := v, fs_view_sig := s, fs_view_symbol := m\<rparr>) sy
        = open_quotes_signature E fs sy" for E fs k sy v s m
    by (simp_all add: open_quotes_signature_def mark_manager_def)
  have stale: "fst (open_quotes E (mark_manager (snd (open_quotes E fs sy)) k) sy) = fst (open_quotes E fs sy)"
    for E fs sy k
    by (simp add: open_quotes_def [of E fs] Let_def sig)
      (simp add: open_quotes_def Let_def sig, simp add: mark_manager_def, blast)
  have "fst (open_quotes eg_env (eg_resting False) eg_market) = live_quotes_for (eg_resting False) eg_market"
    by (simp add: open_quotes_def eg_resting_def fill_sim_new_def Let_def)
  moreover have "live_quotes_for (mark_manager (snd (open_quotes eg_env (eg_resting False) eg_market)) 1) eg_market
      \<noteq> live_quotes_for (eg_resting False) eg_market"
    by (simp add: open_quotes_def live_quotes_for_def mark_manager_def eg_data)
  ultimately show ?thesis using stale by (simp add: sim_run_def)
qed

subsection \<open>Instances of the properties\<close>

lemma eg_quotes_ok: "\<forall>q \<in> set (fs_live (eg_resting spot)). quote_ok 8 q"
  by (simp add: eg_resting_def eg_quote_def quote_ok_def amount_def)

lemma eg_fits: "amount 8 (2 :: rat)"
  by (simp add: amount_def)

lemma post_only_never_takes_witness:
  "fst (place_or_reject eg_env (eg_resting False) (eg_intent Bid 105 1 PostOnly) 7 None) = None"
  using post_only_never_takes [of "eg_intent Bid 105 1 PostOnly" eg_env "eg_resting False" 7 None]
  by (simp add: eg_intent_def)

lemma sim_ok_eg: "sim_ok D (eg_resting spot)"
  by (simp add: eg_resting_def ok_defs fill_sim_new_def Let_def)

lemma eg_rests:
  "fs_live (snd (place_or_reject eg_env ((eg_resting True)\<lparr>fs_live := []\<rparr>) (eg_intent Ask 101 1 PostOnly) 7 None))
     \<noteq> fs_live ((eg_resting True)\<lparr>fs_live := []\<rparr>)"
  by (simp add: eg_data sim_placing)

lemma spot_asks_covered_witness:
  "snd (snd (commitment_at (committed_scan exact_decimal (fs_live (snd (place_or_reject eg_env
      ((eg_resting True)\<lparr>fs_live := []\<rparr>) (eg_intent Ask 101 1 PostOnly) 7 None)))) eg_market)) \<le> 3"
proof -
  have "sim_ok exact_decimal ((eg_resting True)\<lparr>fs_live := []\<rparr>)"
    by (simp add: eg_resting_def ok_defs fill_sim_new_def Let_def)
  with spot_asks_covered [of eg_env "(eg_resting True)\<lparr>fs_live := []\<rparr>" "eg_intent Ask 101 1 PostOnly", OF _ _ _ eg_rests]
  show ?thesis by (simp add: eg_data place_or_reject_def sim_placing)
qed

definition eg_levered :: fill_sim where
  "eg_levered = (eg_resting False)\<lparr>fs_live := [], fs_wallet := 50,
     fs_cfg := (eg_sim_config False)\<lparr>fc_leverage := 10\<rparr>\<rparr>"

lemma resting_within_buying_power_witness:
  "position_notional exact_decimal eg_levered eg_market 99 + fst (commitment_at (committed_scan exact_decimal
      (fs_live (snd (place_or_reject eg_env eg_levered (eg_intent Bid 99 2 PostOnly) 7 None)))) eg_market)
    \<le> round_half_even 500 8"
proof -
  have "sim_ok exact_decimal eg_levered"
    by (simp add: eg_levered_def eg_resting_def ok_defs fill_sim_new_def Let_def)
  moreover have "fs_live (snd (place_or_reject eg_env eg_levered (eg_intent Bid 99 2 PostOnly) 7 None))
      \<noteq> fs_live eg_levered"
    by (simp add: eg_levered_def eg_data sim_placing)
  ultimately show ?thesis
    using resting_within_buying_power [of eg_env eg_levered "eg_intent Bid 99 2 PostOnly" 7 None]
    by (simp add: eg_levered_def eg_env_def eg_sim_config_def eg_intent_def eg_resting_def)
qed


lemma open_order_cap_witness:
  "length (filter (\<lambda>q. lq_symbol q = eg_market)
      (fs_live (sim_run eg_env (fill_sim_new (eg_sim_config False)) (eg_race [])))) \<le> 2"
  using open_order_cap [of "eg_race []" "eg_sim_config False" 2 eg_market eg_env]
  by (simp add: eg_race_def eg_sim_config_def)

lemma match_refines_allocation_witness:
  "map fill_terms (fst (match_trade exact_decimal (eg_resting False) eg_market 98 2 Ask 7)) =
     map alloc_terms (allocate 98 2 (priority_list eg_market 98 Ask (fs_live (eg_resting False))))"
  by (rule match_refines_allocation [OF exact.decimal_arith_axioms eg_quotes_ok eg_fits]) simp

lemma match_fair_witness:
  "sum_list (map f_size (fst (match_trade exact_decimal (eg_resting False) eg_market 98 2 Ask 7))) \<le> 2"
  using match_fair [OF exact.decimal_arith_axioms eg_quotes_ok eg_fits _ refl, of 98 False eg_market Ask 7]
  by simp

lemma match_conserves_volume_witness:
  "total_resting (fs_live (snd (match_trade exact_decimal (eg_resting False) eg_market 98 2 Ask 7)))
     + sum_list (map f_size (fst (match_trade exact_decimal (eg_resting False) eg_market 98 2 Ask 7))) = 3"
  using match_conserves_volume [OF exact.decimal_arith_axioms eg_quotes_ok eg_fits
      surjective_pairing [symmetric], of False eg_market 98 Ask 7]
  by (simp add: total_resting_def eg_resting_def eg_quote_def)

lemma match_position_witness:
  "units_of (snd (match_trade exact_decimal (eg_resting False) eg_market 98 2 Ask 7)) eg_market =
     units_of (eg_resting False) eg_market
     + signed_fills (fst (match_trade exact_decimal (eg_resting False) eg_market 98 2 Ask 7))"
proof (rule match_position [OF exact.decimal_arith_axioms eg_quotes_ok eg_fits])
  have u: "units_of (eg_resting False) eg_market = 0"
    by (simp add: units_of_def eg_resting_def fill_sim_new_def Let_def)
  show "on_grid 8 (units_of (eg_resting False) eg_market)"
    "amount 8 (\<bar>units_of (eg_resting False) eg_market\<bar> + 2)"
    by (simp_all add: u amount_def)
qed

lemma no_look_ahead_witness:
  "fst (on_market_event eg_env (on_action eg_env (eg_resting False) (Quote (eg_intent Bid 99 1 PostOnly)) 5)
      (Trade eg_market 98 2 Ask 5) 5)
   = fst (on_market_event eg_env (eg_resting False) (Trade eg_market 98 2 Ask 5) 5)"
proof -
  have "queue_sorted (eg_resting False)"
    by (simp add: queue_sorted_def eg_resting_def fill_sim_new_def Let_def)
  from no_look_ahead [OF this, of 5 "Quote (eg_intent Bid 99 1 PostOnly)" "eg_intent Bid 99 1 PostOnly"
      0 _ eg_env "Trade eg_market 98 2 Ask 5", OF _ _ refl refl]
  show ?thesis by simp
qed

lemma mirror_never_fills_witness:
  "on_market_event eg_env (set_live_mirror (eg_resting False) True) (Trade eg_market 98 2 Ask 5) 5 =
     ([], (set_live_mirror (eg_resting False) True)\<lparr>fs_last_event := Some 5\<rparr>)"
  by (rule mirror_never_fills) (simp_all add: set_live_mirror_def eg_resting_def fill_sim_new_def Let_def)

end
