(* ===== verification/Scalp_Quotes.thy ===== *)
theory Scalp_Quotes
  imports Strategy_Api
begin

text \<open>
  The stateless helpers and the quote tracker of the spread-scalp strategy, under
  \<open>crates/tikr-strategy/src/spread_scalp\<close>: the top-of-book arithmetic of \<open>book_state.rs\<close>, the
  per-side tracker \<open>RestingOrders\<close> of \<open>resting_orders.rs\<close> and the diff between a resting
  quote and its target of \<open>policy.rs\<close>.

  The tracker's \<open>HashMap<Side, Resting>\<close> is a map from sides.  A division by zero panics in
  the code and is the value \<open>None\<close> here (\<open>quote_size\<close>).
\<close>

subsection \<open>Top of the book\<close>

record top_view =
  tp_bid :: price
  tp_ask :: price
  tp_bid_size :: qsize
  tp_ask_size :: qsize

definition top_from_snapshot :: "snapshot \<Rightarrow> top_view option" where
  "top_from_snapshot sn = (case first_opt (sn_bids sn) of None \<Rightarrow> None
     | Some b \<Rightarrow> (case first_opt (sn_asks sn) of None \<Rightarrow> None
       | Some a \<Rightarrow> Some \<lparr>tp_bid = lv_price b, tp_ask = lv_price a,
           tp_bid_size = lv_size b, tp_ask_size = lv_size a\<rparr>))"

definition top_mid :: "decimal_ops \<Rightarrow> top_view \<Rightarrow> price" where
  "top_mid D t = ddiv D (dadd D (tp_bid t) (tp_ask t)) 2"

definition spread_bps :: "decimal_ops \<Rightarrow> top_view \<Rightarrow> rat option" where
  "spread_bps D t = (let mid = top_mid D t
     in if mid \<le> 0 then None
        else Some (dmul D (ddiv D (dsub D (tp_ask t) (tp_bid t)) mid) 10000))"

definition microprice :: "decimal_ops \<Rightarrow> top_view \<Rightarrow> price" where
  "microprice D t = (let b = tp_bid_size t; a = tp_ask_size t; total = dadd D b a
     in if total \<le> 0 then top_mid D t
        else ddiv D (dadd D (dmul D b (tp_ask t)) (dmul D a (tp_bid t))) total)"

definition size_at_least_min_notional ::
    "decimal_ops \<Rightarrow> rat \<Rightarrow> price \<Rightarrow> rat \<Rightarrow> rat \<Rightarrow> rat" where
  "size_at_least_min_notional D raw price min_notional step_size =
     (if min_notional \<le> 0 \<or> price \<le> 0 then raw
      else let current = dmul D raw price
        in if min_notional \<le> current then raw
           else if step_size \<le> 0 then ddiv D min_notional price
           else let gap = dsub D min_notional current; step_value = dmul D price step_size
             in if step_value \<le> 0 then raw
                else let needed_steps = dec_floor (ddiv D gap step_value);
                         needed_steps = (if dmul D needed_steps step_value < gap
                           then dadd D needed_steps 1 else needed_steps)
                  in dadd D raw (dmul D needed_steps step_size))"

definition scalp_quote_size :: "decimal_ops \<Rightarrow> rat \<Rightarrow> price \<Rightarrow> rat \<Rightarrow> rat \<Rightarrow> rat option" where
  "scalp_quote_size D notional price size_multiplier step_size =
     (if price = 0 then None
      else let raw = dmul D (ddiv D notional price) size_multiplier
        in Some (if 0 < step_size then dmul D (dec_floor (ddiv D raw step_size)) step_size
           else raw))"

subsection \<open>Tracked quotes\<close>

record resting =
  rs_id :: "quote_id option"
  rs_side :: side
  rs_price :: price
  rs_size :: qsize

type_synonym resting_orders = "side \<rightharpoonup> resting"

definition resting_new :: resting_orders where
  "resting_new = (\<lambda>_. None)"

definition current_for :: "resting_orders \<Rightarrow> side \<Rightarrow> resting option" where
  "current_for r s = r s"

definition record_place :: "resting_orders \<Rightarrow> quote_intent \<Rightarrow> resting_orders" where
  "record_place r q = r(qi_side q \<mapsto> \<lparr>rs_id = None, rs_side = qi_side q,
     rs_price = qi_price q, rs_size = qi_size q\<rparr>)"

definition resting_drop :: "resting_orders \<Rightarrow> side \<Rightarrow> resting_orders" where
  "resting_drop r s = r(s := None)"

definition resting_drop_all :: "resting_orders \<Rightarrow> resting_orders" where
  "resting_drop_all r = (\<lambda>_. None)"

definition refresh_one :: "resting_orders \<Rightarrow> quote_id \<times> quote_intent \<Rightarrow> resting_orders" where
  "refresh_one r o_q = (case o_q of (i, q) \<Rightarrow>
     (case r (qi_side q) of None \<Rightarrow> r
      | Some x \<Rightarrow> r(qi_side q \<mapsto> x\<lparr>rs_id := Some i, rs_size := qi_size q\<rparr>)))"

definition resting_reconcile ::
    "resting_orders \<Rightarrow> (quote_id \<times> quote_intent) list \<Rightarrow> resting_orders" where
  "resting_reconcile r ctx_open =
     (let venue_sides = set (map (\<lambda>(_, q). qi_side q) ctx_open)
      in foldl refresh_one (r |` venue_sides) ctx_open)"

definition resting_len :: "resting_orders \<Rightarrow> nat" where
  "resting_len r = (if r Bid = None then 0 else 1) + (if r Ask = None then 0 else 1)"

definition resting_is_empty :: "resting_orders \<Rightarrow> bool" where
  "resting_is_empty r \<longleftrightarrow> r Bid = None \<and> r Ask = None"

subsection \<open>Diffing a side\<close>

datatype diff_decision = Unchanged | Place | Replace quote_id | PlaceShadow

definition policy_diff ::
    "decimal_ops \<Rightarrow> resting option \<Rightarrow> price \<Rightarrow> qsize \<Rightarrow> rat \<Rightarrow> rat \<Rightarrow> diff_decision" where
  "policy_diff D r target_price target_sz price_tolerance_ticks tick_size =
     (case r of None \<Rightarrow> Place
      | Some x \<Rightarrow>
          let tol = dmul D price_tolerance_ticks tick_size;
              price_diff = \<bar>dsub D (rs_price x) target_price\<bar>;
              size_match = (rs_size x = target_sz)
          in if price_diff \<le> tol \<and> size_match then Unchanged
             else (case rs_id x of Some i \<Rightarrow> Replace i | None \<Rightarrow> PlaceShadow))"

definition policy_apply :: "diff_decision \<Rightarrow> quote_intent \<Rightarrow> action list" where
  "policy_apply d q = (case d of Unchanged \<Rightarrow> []
     | Place \<Rightarrow> [Quote q] | PlaceShadow \<Rightarrow> [Quote q]
     | Replace i \<Rightarrow> [Cancel i, Quote q])"

definition policy_drop_side :: "resting option \<Rightarrow> action list" where
  "policy_drop_side r = (case Option.bind r rs_id of Some i \<Rightarrow> [Cancel i] | None \<Rightarrow> [])"

subsection \<open>The tracker follows the venue\<close>

text \<open>\<open>tracks_ok\<close>: what is stored under a side is a quote of that side.\<close>

definition tracks_ok :: "resting_orders \<Rightarrow> bool" where
  "tracks_ok r \<longleftrightarrow> (\<forall>s x. r s = Some x \<longrightarrow> rs_side x = s)"

named_theorems tracks "operations that keep the tracker well formed"

lemma tracks_new [tracks, simp]: "tracks_ok resting_new"
  by (simp add: tracks_ok_def resting_new_def)

lemma tracks_place [tracks]: "tracks_ok r \<Longrightarrow> tracks_ok (record_place r q)"
  by (simp add: tracks_ok_def record_place_def)

lemma tracks_drop [tracks]: "tracks_ok r \<Longrightarrow> tracks_ok (resting_drop r s)"
  by (simp add: tracks_ok_def resting_drop_def)

lemma tracks_drop_all [tracks]: "tracks_ok (resting_drop_all r)"
  by (simp add: tracks_ok_def resting_drop_all_def)

lemma tracks_refresh: "tracks_ok r \<Longrightarrow> tracks_ok (refresh_one r oq)"
  by (auto simp: tracks_ok_def refresh_one_def split: prod.splits option.splits)

lemma tracks_refreshes: "tracks_ok r \<Longrightarrow> tracks_ok (foldl refresh_one r qs)"
  by (induction qs arbitrary: r) (auto simp: tracks_refresh)

lemma tracks_reconcile [tracks]: "tracks_ok r \<Longrightarrow> tracks_ok (resting_reconcile r qs)"
  unfolding resting_reconcile_def Let_def
  by (rule tracks_refreshes) (auto simp: tracks_ok_def restrict_map_def)

lemma dom_refresh [simp]: "dom (refresh_one r oq) = dom r"
  by (auto simp: refresh_one_def split: prod.splits option.splits if_splits)

lemma dom_refreshes [simp]: "dom (foldl refresh_one r qs) = dom r"
  by (induction qs arbitrary: r) auto

lemma dom_reconcile:
  "dom (resting_reconcile r qs) = dom r \<inter> (\<lambda>(_, q). qi_side q) ` set qs"
  by (simp add: resting_reconcile_def)

text \<open>The last open order of a side is the one whose id and size the tracker keeps.\<close>

definition last_on :: "side \<Rightarrow> (quote_id \<times> quote_intent) list \<Rightarrow> (quote_id \<times> quote_intent) option"
  where "last_on s qs = last_opt (filter (\<lambda>(_, q). qi_side q = s) qs)"

lemma last_opt_Cons: "last_opt (x # xs) = (case last_opt xs of None \<Rightarrow> Some x | Some y \<Rightarrow> Some y)"
  by (induction xs arbitrary: x) (auto split: option.splits)

lemma last_opt_None [simp]: "last_opt xs = None \<longleftrightarrow> xs = []"
  by (induction xs) (auto simp: last_opt_Cons split: option.splits)

lemma refreshes_current:
  "r s = Some x \<Longrightarrow> foldl refresh_one r qs s =
     Some (case last_on s qs of None \<Rightarrow> x
       | Some (i, q) \<Rightarrow> x\<lparr>rs_id := Some i, rs_size := qi_size q\<rparr>)"
proof (induction qs arbitrary: r x)
  case (Cons oq qs)
  obtain i q where oq: "oq = (i, q)" by (cases oq)
  show ?case
  proof (cases "qi_side q = s")
    case True
    then have "refresh_one r oq s = Some (x\<lparr>rs_id := Some i, rs_size := qi_size q\<rparr>)"
      using Cons.prems by (simp add: refresh_one_def oq)
    from Cons.IH [where r = "refresh_one r oq", OF this] show ?thesis
      by (auto simp: oq True last_on_def last_opt_Cons split: option.splits)
  next
    case False
    then have "refresh_one r oq s = Some x"
      using Cons.prems by (auto simp: refresh_one_def oq split: option.splits)
    from Cons.IH [where r = "refresh_one r oq", OF this] show ?thesis
      using False by (simp add: oq last_on_def)
  qed
qed (simp add: last_on_def)

lemma last_on_None: "last_on s qs = None \<longleftrightarrow> s \<notin> (\<lambda>(_, q). qi_side q) ` set qs"
  by (auto simp: last_on_def filter_empty_conv)

lemma last_opt_in: "last_opt xs = Some x \<Longrightarrow> x \<in> set xs"
  by (induction xs) (auto simp: last_opt_Cons split: option.splits)

lemma last_on_in: "last_on s qs = Some (i, q) \<Longrightarrow> (i, q) \<in> set qs \<and> qi_side q = s"
  unfolding last_on_def by (drule last_opt_in) auto

text \<open>
  After a reconciliation the tracker tells the truth about the venue: it tracks exactly
  the sides it tracked before that still have an open order, each with the id and the
  remaining size of the last open order of the side and the price it was placed at, and a
  second reconciliation changes nothing.
\<close>

theorem scalp_reconcile_exact:
  "resting_reconcile r qs s =
     (case r s of None \<Rightarrow> None
      | Some x \<Rightarrow> (case last_on s qs of None \<Rightarrow> None
          | Some (i, q) \<Rightarrow> Some (x\<lparr>rs_id := Some i, rs_size := qi_size q\<rparr>)))
   \<and> resting_reconcile (resting_reconcile r qs) qs s = resting_reconcile r qs s"
proof -
  have rec: "resting_reconcile r qs s = (case r s of None \<Rightarrow> None
      | Some x \<Rightarrow> (case last_on s qs of None \<Rightarrow> None
          | Some (i, q) \<Rightarrow> Some (x\<lparr>rs_id := Some i, rs_size := qi_size q\<rparr>)))" for r
  proof (cases "s \<in> dom (resting_reconcile r qs)")
    case False
    then have "r s = None \<or> last_on s qs = None"
      by (auto simp: dom_reconcile last_on_None)
    with False show ?thesis by (auto split: option.splits)
  next
    case True
    then obtain x where x: "r s = Some x" "last_on s qs \<noteq> None"
      by (auto simp: dom_reconcile last_on_None)
    then have "(r |` set (map (\<lambda>(_, q). qi_side q) qs)) s = Some x"
      by (auto simp: restrict_map_def last_on_None)
    from refreshes_current [where r = "r |` set (map (\<lambda>(_, q). qi_side q) qs)", OF this, of qs] x show ?thesis
      by (auto simp: resting_reconcile_def Let_def split: option.splits)
  qed
  show ?thesis by (simp add: rec split: option.splits)
qed

subsection \<open>Diff and apply, as seen by the venue\<close>

text \<open>What a venue holds after it has executed the actions; a new order gets the id \<open>i\<close>.\<close>

fun venue_exec :: "quote_id \<Rightarrow> (quote_id \<times> quote_intent) list \<Rightarrow> action list
    \<Rightarrow> (quote_id \<times> quote_intent) list" where
  "venue_exec i os [] = os"
| "venue_exec i os (a # as) = venue_exec i (case a of
      Quote q \<Rightarrow> os @ [(i, q)]
    | Requote j q \<Rightarrow> filter (\<lambda>(k, _). k \<noteq> j) os @ [(i, q)]
    | Cancel j \<Rightarrow> filter (\<lambda>(k, _). k \<noteq> j) os
    | CancelAll \<Rightarrow> []
    | NoOp \<Rightarrow> os) as"

definition on_side :: "side \<Rightarrow> (quote_id \<times> quote_intent) list \<Rightarrow> (quote_id \<times> quote_intent) list" where
  "on_side s os = filter (\<lambda>(_, q). qi_side q = s) os"

lemma on_side_filter: "on_side s (filter P os) = filter P (on_side s os)"
  by (simp add: on_side_def conj_commute)

lemma filter_kept_side:
  assumes "distinct (map fst os)" "(j, q) \<in> set os" "qi_side q \<noteq> s"
  shows "on_side s (filter (\<lambda>(k, _). k \<noteq> j) os) = on_side s os"
  using assms unfolding on_side_def filter_filter
  by (intro filter_cong) (auto dest: eq_key_imp_eq_value [OF assms(1)])

text \<open>
  C25: The per-side diff brings the venue to the target: when the tracker agrees with the
  venue on a side (nothing on both, or the one order of the side with its id and size), after
  the emitted actions the side holds exactly one order, of the target size and within the
  tolerance of the target price; the other side is untouched; and nothing is emitted when the
  resting order was already such an order.
\<close>

theorem scalp_diff_reaches_target:
  assumes ids: "distinct (map fst os)" "i \<notin> fst ` set os"
    and agree: "case r of None \<Rightarrow> on_side s os = []
      | Some x \<Rightarrow> (\<exists>j p. on_side s os = [(j, p)] \<and> rs_id x = Some j
          \<and> rs_size x = qi_size p \<and> rs_price x = qi_price p)"
    and target: "qi_side q = s"
    and d: "d = policy_diff D r (qi_price q) (qi_size q) tol tick"
  shows "(\<exists>j p. on_side s (venue_exec i os (policy_apply d q)) = [(j, p)] \<and> qi_size p = qi_size q
      \<and> (p = q \<or> \<bar>dsub D (qi_price p) (qi_price q)\<bar> \<le> dmul D tol tick))
    \<and> (\<forall>t. t \<noteq> s \<longrightarrow> on_side t (venue_exec i os (policy_apply d q)) = on_side t os)
    \<and> (policy_apply d q = [] \<longleftrightarrow> (\<exists>x. r = Some x \<and> rs_size x = qi_size q
        \<and> \<bar>dsub D (rs_price x) (qi_price q)\<bar> \<le> dmul D tol tick))"
proof (cases r)
  case None
  with agree target d show ?thesis
    by (auto simp: policy_diff_def policy_apply_def on_side_def)
next
  case (Some x)
  with agree obtain j p where j: "on_side s os = [(j, p)]" "rs_id x = Some j"
    "rs_size x = qi_size p" "rs_price x = qi_price p" by auto
  then have jp: "(j, p) \<in> set os" "qi_side p = s"
    by (auto simp: on_side_def filter_eq_Cons_iff)
  have gone: "on_side s (filter (\<lambda>(k, _). k \<noteq> j) os) = []"
    by (simp add: on_side_filter j)
  have kept: "on_side t (filter (\<lambda>(k, _). k \<noteq> j) os) = on_side t os" if "t \<noteq> s" for t
    using ids(1) jp that by (intro filter_kept_side) auto
  show ?thesis
  proof (cases "\<bar>dsub D (rs_price x) (qi_price q)\<bar> \<le> dmul D tol tick \<and> rs_size x = qi_size q")
    case True
    then have "d = Unchanged" using Some d by (simp add: policy_diff_def Let_def)
    with True j Some show ?thesis by (auto simp: policy_apply_def)
  next
    case False
    then have "d = Replace j" using Some d j by (auto simp: policy_diff_def Let_def)
    with False gone kept target Some show ?thesis
      by (auto simp: policy_apply_def) (auto simp: on_side_def)
  qed
qed

definition eg_quote :: "side \<Rightarrow> rat \<Rightarrow> rat \<Rightarrow> quote_intent" where
  "eg_quote s p q = \<lparr>qi_symbol = \<lparr>sy_base = ''BTC'', sy_quote = ''USDT'', sy_venue = ''binance'',
     sy_kind = Perp\<rparr>, qi_side = s, qi_price = p, qi_size = q, qi_tif = PostOnly, qi_kind = Point\<rparr>"

lemma scalp_diff_reaches_target_witness:
  "\<exists>j p. on_side Bid (venue_exec 9 [(7, eg_quote Bid 99 2), (8, eg_quote Ask 101 1)]
     (policy_apply (policy_diff exact_decimal (Some \<lparr>rs_id = Some 7, rs_side = Bid, rs_price = 99,
        rs_size = 2\<rparr>) 98 2 0 1) (eg_quote Bid 98 2))) = [(j, p)] \<and> qi_size p = 2"
  using scalp_diff_reaches_target [where os = "[(7, eg_quote Bid 99 2), (8, eg_quote Ask 101 1)]"
      and i = 9 and r = "Some \<lparr>rs_id = Some 7, rs_side = Bid, rs_price = 99, rs_size = 2\<rparr>"
      and s = Bid and q = "eg_quote Bid 98 2" and D = exact_decimal and tol = 0 and tick = 1
      and d = "policy_diff exact_decimal (Some \<lparr>rs_id = Some 7, rs_side = Bid, rs_price = 99,
        rs_size = 2\<rparr>) 98 2 0 1"]
  by (auto simp: on_side_def eg_quote_def)

subsection \<open>Sizing up to the minimum notional\<close>

context decimal_arith
begin

lemma floor_div:
  "\<lfloor>a / b\<rfloor> \<le> \<lfloor>ddiv D a b\<rfloor> \<and> \<lfloor>ddiv D a b\<rfloor> \<le> \<lceil>a / b\<rceil>"
proof
  show "\<lfloor>a / b\<rfloor> \<le> \<lfloor>ddiv D a b\<rfloor>" by (simp add: le_floor_iff div_int_le)
  have "ddiv D a b \<le> of_int \<lceil>a / b\<rceil>" by (rule div_int_ge) simp
  then show "\<lfloor>ddiv D a b\<rfloor> \<le> \<lceil>a / b\<rceil>" by linarith
qed

text \<open>The floor of a rounded quotient, bumped by one when it falls short, is the ceiling.\<close>

lemma bumped_floor:
  assumes "0 < b" "k = (if of_int \<lfloor>ddiv D a b\<rfloor> * b < a then \<lfloor>ddiv D a b\<rfloor> + 1 else \<lfloor>ddiv D a b\<rfloor>)"
  shows "k = \<lceil>a / b\<rceil>"
proof -
  have short: "of_int \<lfloor>ddiv D a b\<rfloor> * b < a \<longleftrightarrow> of_int \<lfloor>ddiv D a b\<rfloor> < a / b"
    using assms(1) by (simp add: pos_less_divide_eq)
  show ?thesis
  proof (cases "of_int \<lfloor>ddiv D a b\<rfloor> < a / b")
    case True
    then have "\<lfloor>ddiv D a b\<rfloor> < \<lceil>a / b\<rceil>" by (simp add: less_ceiling_iff)
    moreover have "\<lceil>a / b\<rceil> \<le> \<lfloor>a / b\<rfloor> + 1" by linarith
    ultimately show ?thesis using True assms(2) floor_div [of a b] short by simp
  next
    case False
    then have "\<lceil>a / b\<rceil> \<le> \<lfloor>ddiv D a b\<rfloor>" by (simp add: ceiling_le_iff)
    then show ?thesis using False assms(2) floor_div [of a b] short by simp
  qed
qed

end

text \<open>
  The values a sizing meets: a size grid of \<open>m\<close> digits, a price grid of \<open>n\<close> digits, and
  notionals small enough for their product grid.
\<close>

definition sizing_ok :: "nat \<Rightarrow> nat \<Rightarrow> rat \<Rightarrow> price \<Rightarrow> rat \<Rightarrow> rat \<Rightarrow> bool" where
  "sizing_ok m n raw price min_notional step \<longleftrightarrow>
     on_grid m raw \<and> on_grid m step \<and> on_grid n price \<and> on_grid (m + n) min_notional
     \<and> 0 \<le> raw \<and> 0 < step \<and> 0 < price \<and> 0 < min_notional \<and> m + n \<le> 28
     \<and> (min_notional + price * step) * 10 ^ (m + n) < 2 ^ 96
     \<and> raw * price * 10 ^ (m + n) < 2 ^ 96"

lemma ceiling_mult:
  assumes "0 < (b :: rat)"
  shows "a \<le> of_int \<lceil>a / b\<rceil> * b \<and> (of_int \<lceil>a / b\<rceil> - 1) * b < a"
proof -
  have "a / b \<le> of_int \<lceil>a / b\<rceil>" "of_int \<lceil>a / b\<rceil> - 1 < a / b" by linarith+
  then show ?thesis by (simp only: pos_divide_le_eq [OF assms] pos_less_divide_eq [OF assms])
qed

lemma grid_step: "on_grid n x \<Longrightarrow> 0 < x \<Longrightarrow> 1 \<le> x * 10 ^ n"
  by (metis less_le linorder_not_less mult_pos_pos of_int_less_1_iff of_int_0_less_iff
      on_grid_def zero_less_numeral zero_less_power int_one_le_iff_zero_less)

context decimal_arith
begin

lemma mul_grid: "on_grid (m + n) (x * y) \<Longrightarrow> m + n \<le> 28 \<Longrightarrow> 0 \<le> x * y
    \<Longrightarrow> x * y * 10 ^ (m + n) < 2 ^ 96 \<Longrightarrow> dmul D x y = x * y"
  by (intro mul_fits fits_grid [of "m + n"]) auto

lemma sizing_value:
  assumes ok: "sizing_ok m n raw price mn step" and low: "raw * price < mn"
  shows "size_at_least_min_notional D raw price mn step
    = raw + of_int \<lceil>(mn - raw * price) / (price * step)\<rceil> * step"
proof -
  let ?gap = "mn - raw * price" and ?sv = "price * step" and ?N = "10 ^ (m + n) :: rat"
  let ?k = "\<lceil>?gap / ?sv\<rceil>" and ?f = "\<lfloor>ddiv D ?gap ?sv\<rfloor>"
  note o = ok [unfolded sizing_ok_def]
  have pos: "0 < ?gap" "0 < ?sv" "0 \<le> raw * price" "0 < ?gap / ?sv" using o low by simp_all
  have g: "on_grid (m + n) (raw * price)" "on_grid (m + n) ?sv" "on_grid (m + n) ?gap"
    using o on_grid_mult [of m raw n price] on_grid_mult [of m step n price]
    by (auto simp: mult.commute)
  have N: "0 < ?N" by simp
  have small: "z * ?N < 2 ^ 96" if "z \<le> mn + ?sv" for z
    using mult_right_mono [OF that, of ?N] o by (blast intro: le_less_trans less_imp_le [OF N])
  have sm: "?sv * ?N < 2 ^ 96" "?gap * ?N < 2 ^ 96"
    using o pos by (intro small; linarith)+
  have e: "dmul D raw price = raw * price" "dmul D price step = ?sv" "dsub D mn (raw * price) = ?gap"
    using o pos g sm
    by (auto intro!: mul_fits sub_fits fits_grid [of "m + n"])
  have k: "of_int ?k * ?sv < ?gap + ?sv" "0 < ?k"
    using ceiling_mult [OF pos(2), of ?gap] pos by (auto simp: algebra_simps)
  have f: "?f \<le> ?k" "0 \<le> ?f"
    using floor_div [of ?gap ?sv] pos by (auto intro!: div_nonneg)
  have fk: "of_int ?f * ?sv \<le> of_int ?k * ?sv"
    by (intro mult_right_mono) (simp_all only: of_int_le_iff f less_imp_le [OF pos(2)])
  have fv: "of_int ?f * ?sv \<le> mn + ?sv" using fk k(1) pos(3) by linarith
  have ef: "dmul D (of_int ?f) ?sv = of_int ?f * ?sv"
    using small [OF fv] f pos g o
    by (intro mul_fits fits_grid [of "m + n"]) (auto simp: on_grid_int_mult)
  have bump: "?k = (if of_int ?f * ?sv < ?gap then ?f + 1 else ?f)"
    by (rule bumped_floor [symmetric, OF pos(2) refl])
  have one: "1 \<le> price * 10 ^ n" using o by (intro grid_step) auto
  have size: "z * 10 ^ m < 2 ^ 96" if z: "z * price \<le> mn + ?sv" "0 \<le> z" for z
  proof -
    have "z * 10 ^ m * 1 \<le> z * 10 ^ m * (price * 10 ^ n)"
      using one z by (intro mult_left_mono) auto
    also have "\<dots> = z * price * ?N" by (simp add: power_add mult_ac)
    finally show ?thesis using small [OF z(1)] by simp
  qed
  have step: "dmul D (of_int ?k) step = of_int ?k * step"
    "dadd D raw (of_int ?k * step) = raw + of_int ?k * step"
  proof -
    have b: "(raw + of_int ?k * step) * price \<le> mn + ?sv" "of_int ?k * step * price \<le> mn + ?sv"
      using k(1) pos by (auto simp: algebra_simps)
    have nn: "0 \<le> of_int ?k * step" using k o by simp
    show "dmul D (of_int ?k) step = of_int ?k * step"
      using b nn o size [of "of_int ?k * step"]
      by (intro mul_fits fits_grid [of m]) auto
    show "dadd D raw (of_int ?k * step) = raw + of_int ?k * step"
      using b nn o size [of "raw + of_int ?k * step"]
      by (intro add_fits fits_grid [of m]) auto
  qed
  have k_add: "dadd D (of_int ?f) 1 = of_int (?f + 1)" if "?k = ?f + 1"
  proof -
    have "of_int ?k * 1 \<le> of_int ?k * (?sv * ?N)"
      using grid_step [OF g(2) pos(2)] k(2) by (intro mult_left_mono) auto
    also have "\<dots> < 2 ^ 96" using small [of "of_int ?k * ?sv"] k(1) pos by (simp add: mult_ac)
    finally have "\<bar>rat_of_int ?k\<bar> < 2 ^ 96" using k(2) by simp
    then have "rat_of_int \<bar>?k\<bar> < rat_of_int (2 ^ 96)" by simp
    then have "\<bar>?k\<bar> < 2 ^ 96" by (simp only: of_int_less_iff)
    then show ?thesis using that fits_int [of "?f + 1"] add_fits [of "of_int ?f" 1] by simp
  qed
  have guards: "(mn \<le> 0) = False" "(price \<le> 0) = False" "(mn \<le> raw * price) = False"
    "(step \<le> 0) = False" "(?sv \<le> 0) = False"
    using o low pos(2) by (auto simp only: not_le [symmetric])
  show ?thesis
  proof (cases "of_int ?f * ?sv < ?gap")
    case True
    with bump have "?k = ?f + 1" by simp
    with True k_add step e ef show ?thesis
      by (simp only: size_at_least_min_notional_def dec_floor_def Let_def guards if_False if_True
          simp_thms)
  next
    case False
    with bump have "?k = ?f" by simp
    with False step e ef show ?thesis
      by (simp only: size_at_least_min_notional_def dec_floor_def Let_def guards if_False
          simp_thms)
  qed
qed

end

text \<open>
  Sizing up to the venue's minimum order notional is exact: the result is the requested
  size plus a whole number of lot steps, it reaches the minimum notional, and, when it had to
  be raised, one step less would not reach it.
\<close>

theorem min_notional_exact:
  assumes D: "decimal_arith D" and ok: "sizing_ok m n raw price mn step"
    and r: "r = size_at_least_min_notional D raw price mn step"
  shows "mn \<le> r * price \<and> (\<exists>k. 0 \<le> k \<and> r = raw + of_int k * step)
    \<and> (r = raw \<or> (r - step) * price < mn)"
proof (cases "raw * price < mn")
  case True
  let ?q = "(mn - raw * price) / (price * step)"
  have v: "r = raw + of_int \<lceil>?q\<rceil> * step"
    using r decimal_arith.sizing_value [OF D ok True] by simp
  have pos: "0 < price * step" "0 < step" "0 < price" "0 < ?q" using ok True by (auto simp: sizing_ok_def)
  have "mn - raw * price \<le> of_int \<lceil>?q\<rceil> * (price * step)"
    "(of_int \<lceil>?q\<rceil> - 1) * (price * step) < mn - raw * price"
    using ceiling_mult [OF pos(1)] by blast+
  with v pos show ?thesis by (auto simp: algebra_simps intro!: exI [of _ "\<lceil>?q\<rceil>"])
next
  case False
  have "dmul D raw price = raw * price"
    using ok on_grid_mult [of m raw n price]
    by (intro decimal_arith.mul_grid [OF D]) (auto simp: sizing_ok_def)
  with False ok have "r = raw"
    by (auto simp: r size_at_least_min_notional_def sizing_ok_def)
  with False show ?thesis by (auto intro!: exI [of _ 0])
qed

lemma min_notional_exact_witness:
  "5 \<le> size_at_least_min_notional rust_decimal 1 2 5 1 * 2"
proof -
  have "sizing_ok 8 8 1 2 5 1" by (simp add: sizing_ok_def)
  from min_notional_exact [OF rust.decimal_arith_axioms this refl] show ?thesis by blast
qed

end
