(* ===== verification/Scalp_Adverse.thy ===== *)
theory Scalp_Adverse
  imports Strategy_Api
begin

text \<open>
  The adverse-selection tracker of \<open>crates/tikr-strategy/src/spread_scalp/adverse_tracker.rs\<close>:
  fills wait in a queue until their snapshot is due, then the drift of the mid against the
  fill is folded into a moving average, and an average above the threshold widens the minimum
  spread.

  \<open>fold_into_ema\<close> adds one to a \<open>u32\<close> and divides by it; at the largest half-life the sum
  overflows, and both build profiles panic (in the addition or in the division by zero), which
  is \<open>None\<close> here.
\<close>

record pending_fill =
  pf_fill_ts :: timestamp
  pf_snapshot_due_ts :: timestamp
  pf_side :: side
  pf_fill_price :: price

record adverse_config =
  ac_snapshot_window_ms :: u64
  ac_ema_half_life_fills :: u32
  ac_threshold_bps :: rat
  ac_max_widen_bps :: u32

definition adverse_sensible :: adverse_config where
  "adverse_sensible = \<lparr>ac_snapshot_window_ms = 5000, ac_ema_half_life_fills = 10,
     ac_threshold_bps = 3, ac_max_widen_bps = 10\<rparr>"

definition adverse_disabled :: adverse_config where
  "adverse_disabled = \<lparr>ac_snapshot_window_ms = 0, ac_ema_half_life_fills = 0,
     ac_threshold_bps = 0, ac_max_widen_bps = 0\<rparr>"

record adverse_tracker =
  at_cfg :: adverse_config
  at_pending :: "pending_fill list"
  at_ema_adverse_bps :: rat
  at_seeded :: bool

definition adverse_new :: "adverse_config \<Rightarrow> adverse_tracker" where
  "adverse_new cfg = \<lparr>at_cfg = cfg, at_pending = [], at_ema_adverse_bps = 0, at_seeded = False\<rparr>"

definition adverse_set_config :: "adverse_tracker \<Rightarrow> adverse_config \<Rightarrow> adverse_tracker" where
  "adverse_set_config t cfg = t\<lparr>at_cfg := cfg\<rparr>"

definition record_fill :: "adverse_tracker \<Rightarrow> timestamp \<Rightarrow> side \<Rightarrow> price \<Rightarrow> adverse_tracker" where
  "record_fill t fill_ts s fill_price =
     (if ac_snapshot_window_ms (at_cfg t) = 0 then t
      else let due_ns = sat_add fill_ts (sat_mul (ac_snapshot_window_ms (at_cfg t)) 1000000)
        in t\<lparr>at_pending := at_pending t @ [\<lparr>pf_fill_ts = fill_ts, pf_snapshot_due_ts = due_ns,
             pf_side = s, pf_fill_price = fill_price\<rparr>]\<rparr>)"

definition fold_into_ema :: "decimal_ops \<Rightarrow> adverse_tracker \<Rightarrow> rat \<Rightarrow> adverse_tracker option" where
  "fold_into_ema D t sample_bps =
     (if \<not> at_seeded t then Some (t\<lparr>at_ema_adverse_bps := sample_bps, at_seeded := True\<rparr>)
      else let n = max (ac_ema_half_life_fills (at_cfg t)) 1
        in if n + 1 = 0 then None
           else let alpha_num = 2; alpha_den = dec_u32 (n + 1);
               weighted = dadd D (dmul D alpha_num sample_bps)
                 (dmul D (dsub D alpha_den alpha_num) (at_ema_adverse_bps t))
             in Some (t\<lparr>at_ema_adverse_bps := ddiv D weighted alpha_den\<rparr>))"

definition adverse_sample :: "decimal_ops \<Rightarrow> price \<Rightarrow> pending_fill \<Rightarrow> rat" where
  "adverse_sample D current_mid pf =
     (let signed = (case pf_side pf of
          Bid \<Rightarrow> dsub D (pf_fill_price pf) current_mid
        | Ask \<Rightarrow> dsub D current_mid (pf_fill_price pf))
      in dmul D (ddiv D signed (pf_fill_price pf)) 10000)"

fun due_loop ::
    "decimal_ops \<Rightarrow> timestamp \<Rightarrow> price \<Rightarrow> adverse_tracker \<Rightarrow> pending_fill list
      \<Rightarrow> adverse_tracker option" where
  "due_loop D now mid t [] = Some (t\<lparr>at_pending := []\<rparr>)"
| "due_loop D now mid t (pf # rest) =
     (if now < pf_snapshot_due_ts pf then Some (t\<lparr>at_pending := pf # rest\<rparr>)
      else if pf_fill_price pf \<le> 0 then due_loop D now mid t rest
      else (case fold_into_ema D t (adverse_sample D mid pf) of None \<Rightarrow> None
        | Some t' \<Rightarrow> due_loop D now mid t' rest))"

definition process_due_snapshots ::
    "decimal_ops \<Rightarrow> adverse_tracker \<Rightarrow> timestamp \<Rightarrow> price \<Rightarrow> adverse_tracker option" where
  "process_due_snapshots D t now current_mid =
     (if ac_snapshot_window_ms (at_cfg t) = 0 \<or> current_mid \<le> 0 then Some t
      else due_loop D now current_mid t (at_pending t))"

definition current_widen_bps :: "decimal_ops \<Rightarrow> adverse_tracker \<Rightarrow> rat" where
  "current_widen_bps D t =
     (if ac_max_widen_bps (at_cfg t) = 0 \<or> \<not> at_seeded t then 0
      else let excess = dsub D (at_ema_adverse_bps t) (ac_threshold_bps (at_cfg t))
        in if excess \<le> 0 then 0 else min excess (dec_u32 (ac_max_widen_bps (at_cfg t))))"

definition pending_len :: "adverse_tracker \<Rightarrow> nat" where
  "pending_len t = length (at_pending t)"

definition last_fill_ts :: "adverse_tracker \<Rightarrow> timestamp option" where
  "last_fill_ts t = map_option pf_fill_ts (last_opt (at_pending t))"

subsection \<open>The surcharge and the average are bounded\<close>

lemma widen_bounds: "0 \<le> current_widen_bps D t" "current_widen_bps D t \<le> dec_u32 (ac_max_widen_bps (at_cfg t))"
  by (auto simp: current_widen_bps_def Let_def)

text \<open>\<open>ema_folds\<close>: the half-life does not overflow the denominator.\<close>

definition ema_folds :: "adverse_tracker \<Rightarrow> bool" where
  "ema_folds t \<longleftrightarrow> ac_ema_half_life_fills (at_cfg t) < - 1"

lemma ema_denominator:
  assumes "ema_folds t" "n = max (ac_ema_half_life_fills (at_cfg t)) (1 :: u32)"
  shows "n + 1 \<noteq> 0" "dec_u32 (n + 1) = dec_u32 n + 1" "1 \<le> dec_u32 n"
proof -
  have "(1 :: u32) < - 1"
    by (simp add: word_less_nat_alt unsigned_minus_1_eq_mask mask_eq_exp_minus_1)
  then have n: "n < - 1" using assms by (simp add: ema_folds_def)
  then have m: "unat n < 2 ^ 32 - 1"
    by (simp add: word_less_nat_alt unsigned_minus_1_eq_mask mask_eq_exp_minus_1)
  have s: "unat (n + 1) = unat n + 1" using m by (simp add: unat_word_ariths)
  then show "n + 1 \<noteq> 0" by (metis add_is_0 one_neq_zero unsigned_0)
  show "dec_u32 (n + 1) = dec_u32 n + 1" by (simp only: dec_u32_def s of_nat_add of_nat_1)
  have "1 \<le> n" using assms(2) by simp
  then have "1 \<le> unat n" by (simp add: word_le_nat_alt)
  then show "1 \<le> dec_u32 n" unfolding dec_u32_def by (metis of_nat_1 of_nat_le_iff)
qed

lemma dec_u32_int: "dec_u32 n = of_int (uint n)"
  by (simp add: dec_u32_def)

definition ema_within :: "int \<Rightarrow> int \<Rightarrow> adverse_tracker \<Rightarrow> bool" where
  "ema_within lo hi t \<longleftrightarrow>
     (at_seeded t \<longrightarrow> of_int lo \<le> at_ema_adverse_bps t \<and> at_ema_adverse_bps t \<le> of_int hi)"

context decimal_arith
begin

lemma fold_within:
  assumes t: "ema_folds t" "ema_within lo hi t" and x: "of_int lo \<le> x" "x \<le> of_int hi"
  shows "\<exists>t'. fold_into_ema D t x = Some t' \<and> ema_within lo hi t' \<and> at_cfg t' = at_cfg t
    \<and> at_pending t' = at_pending t"
proof (cases "at_seeded t")
  case False
  with x show ?thesis by (simp add: fold_into_ema_def ema_within_def)
next
  case True
  define n where "n = max (ac_ema_half_life_fills (at_cfg t)) (1 :: u32)"
  note den = ema_denominator [OF t(1) n_def]
  define k where "k = uint n - 1"
  have k: "dec_u32 n = of_int k + 1" "0 \<le> k"
    using den(3) unfolding k_def dec_u32_int of_int_1_le_iff by simp_all
  let ?y = "at_ema_adverse_bps t"
  have y: "of_int lo \<le> ?y" "?y \<le> of_int hi" using t(2) True by (auto simp: ema_within_def)
  have kf: "\<bar>k\<bar> < 2 ^ 96" using uint_bounded [of n] k(2) by (simp add: k_def)
  have c: "dsub D (dec_u32 (n + 1)) 2 = of_int k"
    using sub_fits [of "dec_u32 (n + 1)" 2] fits_int [OF kf] by (simp add: den(2) k)
  have lo: "of_int (2 * lo) \<le> dmul D 2 x" "of_int (k * lo) \<le> dmul D (of_int k) ?y"
    using x y k(2) by (intro mul_int_le; simp add: mult_left_mono)+
  have hi: "dmul D 2 x \<le> of_int (2 * hi)" "dmul D (of_int k) ?y \<le> of_int (k * hi)"
    using x y k(2) by (intro mul_int_ge; simp add: mult_left_mono)+
  let ?w = "dadd D (dmul D 2 x) (dmul D (of_int k) ?y)"
  have w: "of_int (2 * lo + k * lo) \<le> ?w" "?w \<le> of_int (2 * hi + k * hi)"
    using add_mono [OF lo] add_mono [OF hi]
    by (intro add_int_le add_int_ge; simp)+
  have den_pos: "0 < dec_u32 (n + 1)" "dec_u32 (n + 1) = of_int k + 2" using k by (simp_all add: den(2))
  have "of_int lo \<le> ddiv D ?w (dec_u32 (n + 1))" "ddiv D ?w (dec_u32 (n + 1)) \<le> of_int hi"
    using w den_pos
    by (intro div_int_le div_int_ge; simp add: pos_le_divide_eq pos_divide_le_eq algebra_simps)+
  then show ?thesis
    using True den(1) c by (simp add: fold_into_ema_def ema_within_def flip: n_def)
qed

end

text \<open>The samples of the fills that are due, in the order of the queue.\<close>

definition due_fills :: "timestamp \<Rightarrow> pending_fill list \<Rightarrow> pending_fill list" where
  "due_fills now ps = takeWhile (\<lambda>pf. pf_snapshot_due_ts pf \<le> now) ps"

definition due_samples :: "decimal_ops \<Rightarrow> timestamp \<Rightarrow> price \<Rightarrow> pending_fill list \<Rightarrow> rat list" where
  "due_samples D now mid ps =
     map (adverse_sample D mid) (filter (\<lambda>pf. 0 < pf_fill_price pf) (due_fills now ps))"

fun fold_samples :: "decimal_ops \<Rightarrow> adverse_tracker \<Rightarrow> rat list \<Rightarrow> adverse_tracker option" where
  "fold_samples D t [] = Some t"
| "fold_samples D t (x # xs) = Option.bind (fold_into_ema D t x) (\<lambda>t'. fold_samples D t' xs)"

lemma due_loop_reference:
  "due_loop D now mid t ps = map_option
     (\<lambda>t'. t'\<lparr>at_pending := dropWhile (\<lambda>pf. pf_snapshot_due_ts pf \<le> now) ps\<rparr>)
     (fold_samples D t (due_samples D now mid ps))"
  by (induction D now mid t ps rule: due_loop.induct)
    (auto simp: due_samples_def due_fills_def not_le not_less split: option.splits)

text \<open>
  Processing the due snapshots is the loop's specification: on an enabled tracker and a
  positive mid it folds the samples of exactly the fills at the front of the queue that are
  due, oldest first, skipping fills without a positive price, and leaves the rest of the queue
  waiting in order; a queue in order of due time keeps no due fill.
\<close>

theorem process_due_reference:
  "process_due_snapshots D t now mid =
     (if ac_snapshot_window_ms (at_cfg t) = 0 \<or> mid \<le> 0 then Some t
      else map_option
        (\<lambda>t'. t'\<lparr>at_pending := dropWhile (\<lambda>pf. pf_snapshot_due_ts pf \<le> now) (at_pending t)\<rparr>)
        (fold_samples D t (due_samples D now mid (at_pending t))))
   \<and> (\<not> sorted (map pf_snapshot_due_ts (at_pending t))
      \<or> dropWhile (\<lambda>pf. pf_snapshot_due_ts pf \<le> now) (at_pending t)
        = filter (\<lambda>pf. now < pf_snapshot_due_ts pf) (at_pending t))"
proof -
  have "dropWhile (\<lambda>pf. pf_snapshot_due_ts pf \<le> now) ps = filter (\<lambda>pf. now < pf_snapshot_due_ts pf) ps"
    if "sorted (map pf_snapshot_due_ts ps)" for ps
    using that
  proof (induction ps)
    case (Cons p ps)
    show ?case
    proof (cases "pf_snapshot_due_ts p \<le> now")
      case True
      with Cons show ?thesis by simp
    next
      case False
      with Cons.prems have "\<forall>q \<in> set ps. now < pf_snapshot_due_ts q" by fastforce
      with False show ?thesis by simp
    qed
  qed simp
  then show ?thesis by (auto simp: process_due_snapshots_def due_loop_reference)
qed

lemma fold_samples_within:
  assumes D: "decimal_arith D"
  shows "ema_folds t \<Longrightarrow> ema_within lo hi t \<Longrightarrow> \<forall>x \<in> set xs. of_int lo \<le> x \<and> x \<le> of_int hi
    \<Longrightarrow> \<exists>t'. fold_samples D t xs = Some t' \<and> ema_within lo hi t' \<and> at_cfg t' = at_cfg t
      \<and> at_pending t' = at_pending t"
proof (induction xs arbitrary: t)
  case (Cons x xs)
  from decimal_arith.fold_within [OF D Cons.prems(1,2), of x] Cons.prems(3)
  obtain t' where t': "fold_into_ema D t x = Some t'" "ema_within lo hi t'" "at_cfg t' = at_cfg t"
    "at_pending t' = at_pending t" by auto
  from t'(3) Cons.prems(1) have "ema_folds t'" by (simp add: ema_folds_def)
  from Cons.IH [OF this t'(2)] Cons.prems(3) t' show ?case by simp
qed simp

text \<open>
  The moving average never leaves the range of what it averages, whatever the rounding:
  when the average and the samples of the fills that come due lie between two whole numbers of
  basis points, processing them does not panic and the new average lies between them; and the
  surcharge it causes is never negative and never above the configured maximum, so the minimum
  spread is only ever raised, by at most that much.
\<close>

theorem adverse_average_bounded:
  assumes D: "decimal_arith D" and t: "ema_folds t" "ema_within lo hi t"
    and samples: "\<forall>x \<in> set (due_samples D now mid (at_pending t)). of_int lo \<le> x \<and> x \<le> of_int hi"
  shows "\<exists>t'. process_due_snapshots D t now mid = Some t' \<and> ema_within lo hi t'
    \<and> at_cfg t' = at_cfg t \<and> 0 \<le> current_widen_bps D t'
    \<and> current_widen_bps D t' \<le> dec_u32 (ac_max_widen_bps (at_cfg t))"
proof -
  from fold_samples_within [OF D t samples]
  obtain t' where "fold_samples D t (due_samples D now mid (at_pending t)) = Some t'"
    "ema_within lo hi t'" "at_cfg t' = at_cfg t" by auto
  then have "\<exists>t'. process_due_snapshots D t now mid = Some t' \<and> ema_within lo hi t' \<and> at_cfg t' = at_cfg t"
    using t(2) by (simp add: process_due_snapshots_def due_loop_reference) (simp add: ema_within_def)
  then show ?thesis using widen_bounds [of D] by metis
qed

definition eg_adverse :: adverse_tracker where
  "eg_adverse = \<lparr>at_cfg = adverse_sensible, at_pending = [\<lparr>pf_fill_ts = 1, pf_snapshot_due_ts = 5,
     pf_side = Bid, pf_fill_price = 100\<rparr>], at_ema_adverse_bps = 0, at_seeded = True\<rparr>"

lemma adverse_average_bounded_witness:
  "\<exists>t'. process_due_snapshots exact_decimal eg_adverse 6 99 = Some t' \<and> ema_within 0 100 t'"
  using adverse_average_bounded [OF exact.decimal_arith_axioms, of eg_adverse 0 100 6 99]
  by (auto simp: eg_adverse_def ema_folds_def ema_within_def adverse_sensible_def due_samples_def
      due_fills_def adverse_sample_def)

lemma process_due_reference_witness:
  "map_option at_pending (process_due_snapshots exact_decimal eg_adverse 6 99) = Some []"
  using process_due_reference [of exact_decimal eg_adverse 6 99]
  by (simp add: eg_adverse_def adverse_sensible_def due_samples_def due_fills_def
      adverse_sample_def fold_into_ema_def max_def dec_u32_def)

end
