(* ===== verification/Scalp.thy ===== *)
theory Scalp
  imports Scalp_Quotes Scalp_Adverse Risk_Policy "HOL-Library.Monad_Syntax"
begin

text \<open>
  The spread-scalp strategy of \<open>crates/tikr-strategy/src/spread_scalp/mod.rs\<close>: its state and
  one definition per method.  A method that changes the strategy returns the new state with
  its actions; one that can divide by a zero price returns an option, \<open>None\<close> being the panic.
  \<open>quote_offset_ticks\<close> is an \<open>i32\<close>: a \<open>32 word\<close> read by \<open>sint\<close>, whose negation and
  increment wrap.  The long handler \<open>on_event\<close> is cut into the stages its comments name.
\<close>

type_synonym i32 = "32 word"

definition dec_i32 :: "i32 \<Rightarrow> rat" where
  "dec_i32 n = of_int (sint n)"

record scalp_config =
  sc_notional_per_order :: rat
  sc_tick_size :: rat
  sc_step_size :: rat
  sc_min_notional :: rat
  sc_min_spread_bps :: rat
  sc_requote_interval_ms :: u64
  sc_max_position_usdt :: rat
  sc_take_profit_usdt :: rat
  sc_reject_cooldown_ms :: u64
  sc_price_tolerance_ticks :: u32
  sc_take_profit_bps :: u32
  sc_stop_loss_bps :: u32
  sc_adverse :: adverse_config
  sc_close_side_always_quotes :: bool
  sc_close_decay_after_secs_1 :: u64
  sc_close_decay_factor_1 :: rat
  sc_close_decay_after_secs_2 :: u64
  sc_close_decay_factor_2 :: rat
  sc_adverse_stop_after_secs :: u64
  sc_adverse_stop_drift_bps :: u32
  sc_quote_offset_ticks :: i32
  sc_close_target_ticks :: u32
  sc_strict_touch_quotes :: bool

record scalp =
  ss_config :: scalp_config
  ss_last_bid :: "price option"
  ss_last_ask :: "price option"
  ss_last_requote_ts :: "timestamp option"
  ss_quotes_live :: bool
  ss_last_reject_bid_ts :: "timestamp option"
  ss_last_reject_ask_ts :: "timestamp option"
  ss_resting :: resting_orders
  ss_adverse :: adverse_tracker
  ss_cycle_start_ts :: "timestamp option"
  ss_prev_pos_size :: rat
  ss_last_risk_close_ts_ns :: u64

definition risk_close_retry_ns :: u64 where
  "risk_close_retry_ns = 5000000000"

definition scalp_new :: "scalp_config \<Rightarrow> scalp" where
  "scalp_new cfg = \<lparr>ss_config = cfg, ss_last_bid = None, ss_last_ask = None,
     ss_last_requote_ts = None, ss_quotes_live = False, ss_last_reject_bid_ts = None,
     ss_last_reject_ask_ts = None, ss_resting = resting_new,
     ss_adverse = adverse_new (sc_adverse cfg), ss_cycle_start_ts = None,
     ss_prev_pos_size = 0, ss_last_risk_close_ts_ns = 0\<rparr>"

subsection \<open>Targets and sizes\<close>

definition compute_targets :: "decimal_ops \<Rightarrow> scalp \<Rightarrow> snapshot \<Rightarrow> (price \<times> price) option" where
  "compute_targets D s sn = do {
     tv \<leftarrow> top_from_snapshot sn;
     let tick = sc_tick_size (ss_config s);
     if tick \<le> 0 \<or> tp_ask tv \<le> tp_bid tv then None
     else do {
       bps \<leftarrow> spread_bps D tv;
       let effective_min = dadd D (sc_min_spread_bps (ss_config s)) (current_widen_bps D (ss_adverse s));
       if bps < effective_min then None
       else do {
         let off = sc_quote_offset_ticks (ss_config s);
         let (bid, ask) =
           (if 0 \<le> sint off
            then (dsub D (tp_bid tv) (dmul D (dec_i32 off) tick),
                  dadd D (tp_ask tv) (dmul D (dec_i32 off) tick))
            else (dadd D (tp_bid tv) (dmul D (dec_i32 (- off)) tick),
                  dsub D (tp_ask tv) (dmul D (dec_i32 (- off)) tick)));
         if ask \<le> bid then None else Some (bid, ask)
       }
     }
   }"

definition scalp_sized :: "decimal_ops \<Rightarrow> scalp \<Rightarrow> price \<Rightarrow> rat \<Rightarrow> rat option" where
  "scalp_sized D s price size_multiplier = do {
     raw \<leftarrow> scalp_quote_size D (sc_notional_per_order (ss_config s)) price size_multiplier
       (sc_step_size (ss_config s));
     Some (size_at_least_min_notional D raw price (sc_min_notional (ss_config s))
       (sc_step_size (ss_config s)))
   }"

definition scalp_make_quote ::
    "decimal_ops \<Rightarrow> scalp \<Rightarrow> strategy_context \<Rightarrow> side \<Rightarrow> price \<Rightarrow> rat \<Rightarrow> quote_intent option" where
  "scalp_make_quote D s cx sd price size_multiplier =
     map_option (\<lambda>size. make_post_only_intent (cx_symbol cx) sd price size)
       (scalp_sized D s price size_multiplier)"

definition scalp_risk_cfg :: "scalp \<Rightarrow> risk_config" where
  "scalp_risk_cfg s = \<lparr>rc_take_profit_bps = sc_take_profit_bps (ss_config s),
     rc_stop_loss_bps = sc_stop_loss_bps (ss_config s),
     rc_take_profit_usdt_legacy = sc_take_profit_usdt (ss_config s)\<rparr>"

definition inventory_size_multiplier :: "strategy_context \<Rightarrow> rat \<times> rat" where
  "inventory_size_multiplier cx = (let size = p_size (cx_position cx)
     in if 0 < size then (1, 2) else if size < 0 then (2, 1) else (1, 1))"

definition close_side_for :: "rat \<Rightarrow> side option" where
  "close_side_for q = (if 0 < q then Some Ask else if q < 0 then Some Bid else None)"

subsection \<open>Emitting the difference\<close>

definition emit_intent :: "decimal_ops \<Rightarrow> scalp \<Rightarrow> quote_intent \<Rightarrow> scalp \<times> action list" where
  "emit_intent D s q =
     (let d = policy_diff D (current_for (ss_resting s) (qi_side q)) (qi_price q) (qi_size q)
          (dec_u32 (sc_price_tolerance_ticks (ss_config s))) (sc_tick_size (ss_config s))
      in if d = Unchanged then (s, [])
         else (s\<lparr>ss_resting := record_place (ss_resting s) q\<rparr>, policy_apply d q))"

definition diff_emit ::
    "decimal_ops \<Rightarrow> scalp \<Rightarrow> strategy_context \<Rightarrow> side \<Rightarrow> price \<Rightarrow> rat \<Rightarrow> (scalp \<times> action list) option"
  where
  "diff_emit D s cx sd price size_multiplier =
     map_option (emit_intent D s) (scalp_make_quote D s cx sd price size_multiplier)"

definition diff_emit_close ::
    "decimal_ops \<Rightarrow> scalp \<Rightarrow> strategy_context \<Rightarrow> side \<Rightarrow> price \<Rightarrow> rat \<Rightarrow> scalp \<times> action list" where
  "diff_emit_close D s cx sd price qty =
     (if 0 < sc_min_notional (ss_config s) \<and> dmul D qty price < sc_min_notional (ss_config s)
      then (s, [])
      else emit_intent D s (make_post_only_intent (cx_symbol cx) sd price qty))"

definition drop_tracked_side :: "scalp \<Rightarrow> side \<Rightarrow> scalp \<times> action list" where
  "drop_tracked_side s sd =
     (let actions = policy_drop_side (current_for (ss_resting s) sd)
      in (if actions = [] then s else s\<lparr>ss_resting := resting_drop (ss_resting s) sd\<rparr>, actions))"

definition last_reject :: "scalp \<Rightarrow> side \<Rightarrow> timestamp option" where
  "last_reject s sd = (case sd of Bid \<Rightarrow> ss_last_reject_bid_ts s | Ask \<Rightarrow> ss_last_reject_ask_ts s)"

definition side_in_cooldown :: "scalp \<Rightarrow> side \<Rightarrow> timestamp \<Rightarrow> bool" where
  "side_in_cooldown s sd now =
     (let cooldown_ms = sc_reject_cooldown_ms (ss_config s)
      in if cooldown_ms = 0 then False
         else (case last_reject s sd of None \<Rightarrow> False
           | Some prev \<Rightarrow> sat_sub now prev < sat_mul cooldown_ms 1000000))"

definition set_reject :: "scalp \<Rightarrow> side \<Rightarrow> timestamp option \<Rightarrow> scalp" where
  "set_reject s sd v = (case sd of Bid \<Rightarrow> s\<lparr>ss_last_reject_bid_ts := v\<rparr>
     | Ask \<Rightarrow> s\<lparr>ss_last_reject_ask_ts := v\<rparr>)"

definition scalp_should_requote :: "scalp \<Rightarrow> price \<Rightarrow> price \<Rightarrow> timestamp \<Rightarrow> bool" where
  "scalp_should_requote s bid ask ts =
     (if ss_last_bid s = Some bid \<and> ss_last_ask s = Some ask then False
      else (case ss_last_requote_ts s of None \<Rightarrow> True
        | Some prev \<Rightarrow> sat_mul (sc_requote_interval_ms (ss_config s)) 1000000 \<le> sat_sub ts prev))"

subsection \<open>Requoting\<close>

definition apply_tick_mode_close_target ::
    "decimal_ops \<Rightarrow> scalp \<Rightarrow> strategy_context \<Rightarrow> price \<Rightarrow> price \<Rightarrow> price \<times> price" where
  "apply_tick_mode_close_target D s cx bid ask =
     (let cfg = ss_config s; pos_size = p_size (cx_position cx); avg = p_avg_entry (cx_position cx)
      in if sc_strict_touch_quotes cfg then (bid, ask)
         else if sint (sc_quote_offset_ticks cfg) < 0 then (bid, ask)
         else if pos_size = 0 then (bid, ask)
         else if avg \<le> 0 then (bid, ask)
         else let n_ticks = (if 0 < sc_close_target_ticks cfg then sc_close_target_ticks cfg
                  else sc_quote_offset_ticks cfg + 1);
                target_distance = dmul D (dec_i32 n_ticks) (sc_tick_size cfg)
           in if 0 < pos_size
              then (let target_ask = dadd D avg target_distance
                in (bid, if ask < target_ask then target_ask else ask))
              else (let target_bid = dsub D avg target_distance
                in (if target_bid < bid then target_bid else bid, ask)))"

definition close_chunk :: "decimal_ops \<Rightarrow> scalp \<Rightarrow> strategy_context \<Rightarrow> price \<Rightarrow> price \<Rightarrow> rat option" where
  "close_chunk D s cx bid ask =
     (let pos_abs = \<bar>p_size (cx_position cx)\<bar>;
          chunk_price = (case close_side_for (p_size (cx_position cx)) of
            Some Bid \<Rightarrow> bid | Some Ask \<Rightarrow> ask | None \<Rightarrow> bid)
      in map_option (\<lambda>entry_chunk. if 0 < entry_chunk then min pos_abs entry_chunk else pos_abs)
           (scalp_sized D s chunk_price 1))"

definition emit_side ::
    "decimal_ops \<Rightarrow> scalp \<Rightarrow> strategy_context \<Rightarrow> side \<Rightarrow> bool \<Rightarrow> price \<Rightarrow> rat \<Rightarrow> rat
      \<Rightarrow> (scalp \<times> action list) option" where
  "emit_side D s cx sd want price size_multiplier close_qty =
     (if want then
        if close_side_for (p_size (cx_position cx)) = Some sd \<and> 0 < close_qty
        then Some (diff_emit_close D s cx sd price close_qty)
        else diff_emit D s cx sd price size_multiplier
      else Some (drop_tracked_side s sd))"

definition emit_requote ::
    "decimal_ops \<Rightarrow> scalp \<Rightarrow> strategy_context \<Rightarrow> price \<Rightarrow> price \<Rightarrow> timestamp
      \<Rightarrow> (scalp \<times> action list) option" where
  "emit_requote D s cx bid0 ask0 ts = do {
     let (bid, ask) = apply_tick_mode_close_target D s cx bid0 ask0;
     let size_mult = inventory_size_multiplier cx;
     let s = s\<lparr>ss_last_bid := Some bid, ss_last_ask := Some ask, ss_last_requote_ts := Some ts,
       ss_quotes_live := True\<rparr>;
     let mid = ddiv D (dadd D bid ask) 2;
     let pos = p_size (cx_position cx);
     let position_value = dmul D \<bar>pos\<bar> mid;
     let cap = sc_max_position_usdt (ss_config s);
     let capped = (0 < cap \<and> cap \<le> position_value);
     let want_bid = ((\<not> capped \<or> pos \<le> 0) \<and> \<not> side_in_cooldown s Bid ts);
     let want_ask = ((\<not> capped \<or> 0 \<le> pos) \<and> \<not> side_in_cooldown s Ask ts);
     close_qty \<leftarrow> close_chunk D s cx bid ask;
     (s, bids) \<leftarrow> emit_side D s cx Bid want_bid bid (fst size_mult) close_qty;
     (s, asks) \<leftarrow> emit_side D s cx Ask want_ask ask (snd size_mult) close_qty;
     let actions = bids @ asks;
     Some (s, if actions = [] then [NoOp] else actions)
   }"

definition cancel_if_live :: "scalp \<Rightarrow> scalp \<times> action list" where
  "cancel_if_live s =
     (let s = s\<lparr>ss_last_bid := None, ss_last_ask := None, ss_last_requote_ts := None\<rparr>
      in if ss_quotes_live s
         then (s\<lparr>ss_quotes_live := False, ss_resting := resting_drop_all (ss_resting s)\<rparr>, [CancelAll])
         else (s, []))"

definition close_decay_factor :: "scalp \<Rightarrow> timestamp \<Rightarrow> rat" where
  "close_decay_factor s ts = (case ss_cycle_start_ts s of None \<Rightarrow> 1
     | Some cycle_ts \<Rightarrow>
        (let held_ns = sat_sub ts cycle_ts; cfg = ss_config s;
             secs_1 = sc_close_decay_after_secs_1 cfg; secs_2 = sc_close_decay_after_secs_2 cfg;
             f1 = sc_close_decay_factor_1 cfg; f2 = sc_close_decay_factor_2 cfg
         in if 0 < secs_2 \<and> sat_mul secs_2 1000000000 \<le> held_ns \<and> 0 < f2 then f2
            else if 0 < secs_1 \<and> sat_mul secs_1 1000000000 \<le> held_ns \<and> 0 < f1 then f1
            else 1))"

definition opposite_side :: "side \<Rightarrow> side" where
  "opposite_side sd = (case sd of Ask \<Rightarrow> Bid | Bid \<Rightarrow> Ask)"

definition set_last_price :: "scalp \<Rightarrow> side \<Rightarrow> price option \<Rightarrow> scalp" where
  "set_last_price s sd v = (case sd of Bid \<Rightarrow> s\<lparr>ss_last_bid := v\<rparr> | Ask \<Rightarrow> s\<lparr>ss_last_ask := v\<rparr>)"

definition kept_close_price :: "decimal_ops \<Rightarrow> scalp \<Rightarrow> side \<Rightarrow> price \<Rightarrow> top_view \<Rightarrow> timestamp \<Rightarrow> price"
  where
  "kept_close_price D s close_side entry tv ts =
     (let tick = sc_tick_size (ss_config s);
          bp = ddiv D (dmul D (sc_min_spread_bps (ss_config s)) (close_decay_factor s ts)) 10000;
          target_from_entry = (case close_side of
            Ask \<Rightarrow> dmul D entry (dadd D 1 bp) | Bid \<Rightarrow> dmul D entry (dsub D 1 bp));
          aggressive_touch = (case close_side of
            Ask \<Rightarrow> dsub D (tp_ask tv) tick | Bid \<Rightarrow> dadd D (tp_bid tv) tick)
      in case close_side of
           Ask \<Rightarrow> (if target_from_entry < aggressive_touch then aggressive_touch else target_from_entry)
         | Bid \<Rightarrow> (if aggressive_touch < target_from_entry then aggressive_touch else target_from_entry))"

definition try_keep_close_side ::
    "decimal_ops \<Rightarrow> scalp \<Rightarrow> strategy_context \<Rightarrow> snapshot \<Rightarrow> timestamp
      \<Rightarrow> (scalp \<times> action list option) option" where
  "try_keep_close_side D s cx sn ts =
     (if \<not> sc_close_side_always_quotes (ss_config s) then Some (s, None)
      else case close_side_for (p_size (cx_position cx)) of None \<Rightarrow> Some (s, None)
      | Some close_side \<Rightarrow> (case top_from_snapshot sn of None \<Rightarrow> Some (s, None)
      | Some tv \<Rightarrow>
        (let entry = p_avg_entry (cx_position cx)
         in if entry \<le> 0 then Some (s, None)
            else let price = kept_close_price D s close_side entry tv ts;
                crosses = (case close_side of Ask \<Rightarrow> price \<le> tp_bid tv | Bid \<Rightarrow> tp_ask tv \<le> price)
              in if crosses then Some (s, Some [])
                 else let add_side = opposite_side close_side;
                     (s, dropped) = drop_tracked_side s add_side;
                     s = set_last_price s add_side None
                   in do {
                     (s, placed) \<leftarrow> diff_emit D s cx close_side price 1;
                     let s = s\<lparr>ss_last_requote_ts := Some ts\<rparr>;
                     let s = set_last_price s close_side (Some price);
                     let s = s\<lparr>ss_quotes_live := (current_for (ss_resting s) close_side \<noteq> None)\<rparr>;
                     Some (s, Some (dropped @ placed))
                   })))"

definition keep_or_cancel ::
    "decimal_ops \<Rightarrow> scalp \<Rightarrow> strategy_context \<Rightarrow> snapshot \<Rightarrow> timestamp \<Rightarrow> (scalp \<times> action list) option"
  where
  "keep_or_cancel D s cx sn ts = do {
     (s, kept) \<leftarrow> try_keep_close_side D s cx sn ts;
     Some (case kept of Some actions \<Rightarrow> (s, actions) | None \<Rightarrow> cancel_if_live s)
   }"

subsection \<open>The event handler\<close>

definition track_cycle :: "scalp \<Rightarrow> strategy_context \<Rightarrow> scalp" where
  "track_cycle s cx =
     (let pos_size = p_size (cx_position cx);
          s = (if ss_prev_pos_size s = 0 \<and> pos_size \<noteq> 0
               then s\<lparr>ss_cycle_start_ts := Some (cx_now cx)\<rparr>
             else if ss_prev_pos_size s \<noteq> 0 \<and> pos_size = 0
               then s\<lparr>ss_cycle_start_ts := None, ss_last_risk_close_ts_ns := 0\<rparr>
             else s)
      in s\<lparr>ss_prev_pos_size := pos_size\<rparr>)"

definition scalp_sync :: "decimal_ops \<Rightarrow> scalp \<Rightarrow> strategy_context \<Rightarrow> market_event \<Rightarrow> scalp option" where
  "scalp_sync D s cx ev = do {
     let s = s\<lparr>ss_resting := resting_reconcile (ss_resting s) (cx_open_quotes cx)\<rparr>;
     adv \<leftarrow> (case top_from_snapshot (cx_latest_book cx) of None \<Rightarrow> Some (ss_adverse s)
       | Some tv \<Rightarrow> process_due_snapshots D (ss_adverse s) (cx_now cx) (top_mid D tv));
     let adv = (case ev of FillEv f \<Rightarrow> record_fill adv (f_ts f) (f_side f) (f_price f) | _ \<Rightarrow> adv);
     let s = s\<lparr>ss_adverse := adv\<rparr>;
     Some (track_cycle s cx)
   }"

definition close_in_flight :: "scalp \<Rightarrow> strategy_context \<Rightarrow> bool" where
  "close_in_flight s cx \<longleftrightarrow> 0 < ss_last_risk_close_ts_ns s
     \<and> sat_sub (cx_now cx) (ss_last_risk_close_ts_ns s) < risk_close_retry_ns"

definition adverse_stop :: "decimal_ops \<Rightarrow> scalp \<Rightarrow> strategy_context \<Rightarrow> (scalp \<times> action list) option"
  where
  "adverse_stop D s cx =
     (let cfg = ss_config s; pos_size = p_size (cx_position cx); avg = p_avg_entry (cx_position cx)
      in if 0 < sc_adverse_stop_drift_bps cfg \<and> 0 < sc_adverse_stop_after_secs cfg
           \<and> pos_size \<noteq> 0 \<and> \<not> close_in_flight s cx
         then do {
           cycle_ts \<leftarrow> ss_cycle_start_ts s;
           tv \<leftarrow> top_from_snapshot (cx_latest_book cx);
           let held_ns = sat_sub (cx_now cx) cycle_ts;
           let stop_ns = sat_mul (sc_adverse_stop_after_secs cfg) 1000000000;
           let mid = top_mid D tv;
           if stop_ns \<le> held_ns \<and> 0 < avg then do {
             let drift_bps = (if 0 < pos_size then dmul D (ddiv D (dsub D avg mid) avg) 10000
               else dmul D (ddiv D (dsub D mid avg) avg) 10000);
             if dec_u32 (sc_adverse_stop_drift_bps cfg) \<le> drift_bps then do {
               let close_side = (if 0 < pos_size then Ask else Bid);
               let touch = (case close_side of Bid \<Rightarrow> tp_ask tv | Ask \<Rightarrow> tp_bid tv);
               let qty = \<bar>pos_size\<bar>;
               let step = sc_step_size cfg;
               let stop_qty = (if 0 < step then dmul D (dec_floor (ddiv D qty step)) step else qty);
               if 0 < stop_qty then do {
                 let s = s\<lparr>ss_last_risk_close_ts_ns := cx_now cx\<rparr>;
                 let (s, bids) = drop_tracked_side s Bid;
                 let (s, asks) = drop_tracked_side s Ask;
                 Some (s, bids @ asks @ [Quote \<lparr>qi_symbol = cx_symbol cx, qi_side = close_side,
                   qi_price = touch, qi_size = stop_qty, qi_tif = IOC, qi_kind = Point\<rparr>])
               } else None
             } else None
           } else None
         }
         else None)"

definition tp_sl_gate :: "decimal_ops \<Rightarrow> scalp \<Rightarrow> strategy_context \<Rightarrow> (scalp \<times> action list) option"
  where
  "tp_sl_gate D s cx = do {
     tv \<leftarrow> top_from_snapshot (cx_latest_book cx);
     if close_in_flight s cx then None
     else (case policy_evaluate D (cx_position cx) (top_mid D tv) (scalp_risk_cfg s) of Hold \<Rightarrow> None
       | Close sd qty reason \<Rightarrow>
           Some (s\<lparr>ss_resting := resting_drop_all (ss_resting s), ss_quotes_live := False,
                   ss_last_bid := None, ss_last_ask := None\<rparr>,
                 [CancelAll, build_close (cx_symbol cx) sd qty (tp_bid tv) (tp_ask tv)]))
   }"

definition over_cap :: "decimal_ops \<Rightarrow> scalp_config \<Rightarrow> rat \<Rightarrow> price \<Rightarrow> bool" where
  "over_cap D cfg pos mid \<longleftrightarrow>
     0 < sc_max_position_usdt cfg \<and> sc_max_position_usdt cfg \<le> dmul D \<bar>pos\<bar> mid"

definition cap_gate :: "decimal_ops \<Rightarrow> scalp \<Rightarrow> strategy_context \<Rightarrow> scalp \<times> action list" where
  "cap_gate D s cx = (case top_from_snapshot (cx_latest_book cx) of None \<Rightarrow> (s, [])
     | Some tv \<Rightarrow>
        if over_cap D (ss_config s) (p_size (cx_position cx)) (top_mid D tv) then
          if 0 < p_size (cx_position cx) then drop_tracked_side s Bid
          else if p_size (cx_position cx) < 0 then drop_tracked_side s Ask
          else (s, [])
        else (s, []))"

definition scalp_on_fill ::
    "decimal_ops \<Rightarrow> scalp \<Rightarrow> strategy_context \<Rightarrow> fill \<Rightarrow> action list \<Rightarrow> (scalp \<times> action list) option" where
  "scalp_on_fill D s cx f cap_cancels =
     (let ts = cx_now cx; s = set_reject s (f_side f) None;
          s = s\<lparr>ss_resting := resting_drop (ss_resting s) (f_side f)\<rparr>
      in case compute_targets D s (cx_latest_book cx) of
           None \<Rightarrow> keep_or_cancel D s cx (cx_latest_book cx) ts
         | Some (bid, ask) \<Rightarrow> do {
             (s, actions) \<leftarrow> emit_requote D s cx bid ask ts;
             Some (s, filter (\<lambda>a. a \<noteq> NoOp) (cap_cancels @ actions))
           })"

definition scalp_on_book ::
    "decimal_ops \<Rightarrow> scalp \<Rightarrow> strategy_context \<Rightarrow> snapshot \<Rightarrow> timestamp \<Rightarrow> action list
      \<Rightarrow> (scalp \<times> action list) option" where
  "scalp_on_book D s cx sn ts cap_cancels =
     (case compute_targets D s sn of
        None \<Rightarrow> do {
          (s, actions) \<leftarrow> keep_or_cancel D s cx sn ts;
          Some (s, cap_cancels @ actions)
        }
      | Some (bid, ask) \<Rightarrow>
          if \<not> scalp_should_requote s bid ask ts
          then Some (s, if cap_cancels = [] then [NoOp] else cap_cancels)
          else do {
            (s, actions) \<leftarrow> emit_requote D s cx bid ask ts;
            Some (s, cap_cancels @ actions)
          })"

definition scalp_dispatch ::
    "decimal_ops \<Rightarrow> scalp \<Rightarrow> strategy_context \<Rightarrow> market_event \<Rightarrow> action list
      \<Rightarrow> (scalp \<times> action list) option" where
  "scalp_dispatch D s cx ev cap_cancels = (case ev of
     BookUpdate sn \<Rightarrow> scalp_on_book D s cx sn (sn_ts sn) cap_cancels
   | Heartbeat ts \<Rightarrow> scalp_on_book D s cx (cx_latest_book cx) ts cap_cancels
   | Trade _ _ _ _ _ \<Rightarrow> Some (s, [])
   | FillEv f \<Rightarrow> scalp_on_fill D s cx f cap_cancels)"

definition scalp_on_event ::
    "decimal_ops \<Rightarrow> scalp \<Rightarrow> strategy_context \<Rightarrow> market_event \<Rightarrow> (scalp \<times> action list) option" where
  "scalp_on_event D s cx ev = do {
     s \<leftarrow> scalp_sync D s cx ev;
     (case adverse_stop D s cx of Some r \<Rightarrow> Some r
      | None \<Rightarrow> (case tp_sl_gate D s cx of Some r \<Rightarrow> Some r
        | None \<Rightarrow> (let (s, cap_cancels) = cap_gate D s cx
            in scalp_dispatch D s cx ev cap_cancels)))
   }"

definition scalp_on_quote_rejected ::
    "decimal_ops \<Rightarrow> scalp \<Rightarrow> strategy_context \<Rightarrow> quote_intent \<Rightarrow> string \<Rightarrow> (scalp \<times> action list) option"
  where
  "scalp_on_quote_rejected D s cx intent reason =
     (let ts = cx_now cx;
          is_post_only_race = (contains_str ''-5022'' reason \<or> contains_str ''Post Only'' reason);
          s = (if is_post_only_race then s else set_reject s (qi_side intent) (Some ts));
          s = s\<lparr>ss_last_bid := None, ss_last_ask := None, ss_last_requote_ts := None\<rparr>
      in case compute_targets D s (cx_latest_book cx) of
           None \<Rightarrow> keep_or_cancel D s cx (cx_latest_book cx) ts
         | Some (bid, ask) \<Rightarrow> emit_requote D s cx bid ask ts)"

definition scalp_on_notional_updated :: "scalp \<Rightarrow> rat \<Rightarrow> scalp \<times> action list" where
  "scalp_on_notional_updated s notional_per_order =
     (if 0 < notional_per_order
      then s\<lparr>ss_config := (ss_config s)\<lparr>sc_notional_per_order := notional_per_order\<rparr>\<rparr> else s, [])"

definition scalp_on_max_position_updated :: "scalp \<Rightarrow> rat \<Rightarrow> scalp \<times> action list" where
  "scalp_on_max_position_updated s max_position_usdt =
     (if 0 < max_position_usdt
      then s\<lparr>ss_config := (ss_config s)\<lparr>sc_max_position_usdt := max_position_usdt\<rparr>\<rparr> else s, [])"

end
