(* ===== verification/Scalp_Laws.thy ===== *)
theory Scalp_Laws
  imports Scalp
begin

text \<open>
  What the spread-scalp strategy guarantees: its quotes never cross the book, its reducing
  quote neither exceeds the position nor gives back the entry price in tick mode, the position
  cap stops the side that adds to the position, a side in its reject cooldown is not requoted,
  and a flatten order in flight is not repeated; and the runs in which the handler falls short
  of what its comments promise.
\<close>

subsection \<open>Rounding never moves a price past a representable one\<close>

context decimal_arith
begin

lemma sub_le: "fits a \<Longrightarrow> 0 \<le> b \<Longrightarrow> dsub D a b \<le> a"
  using dsub_mono [of a b a 0] sub_fits [of a 0] by simp

lemma sub_ge: "fits a \<Longrightarrow> b \<le> 0 \<Longrightarrow> a \<le> dsub D a b"
  using dsub_mono [of a 0 a b] sub_fits [of a 0] by simp

lemma add_ge: "fits a \<Longrightarrow> 0 \<le> b \<Longrightarrow> a \<le> dadd D a b"
  using dadd_mono [of a 0 a b] add_fits [of a 0] by simp

lemma add_le: "fits a \<Longrightarrow> b \<le> 0 \<Longrightarrow> dadd D a b \<le> a"
  using dadd_mono [of a b a 0] add_fits [of a 0] by simp

end

text \<open>The distance of a target from its touch, in price; negative for no offset.\<close>

definition target_shift :: "decimal_ops \<Rightarrow> scalp_config \<Rightarrow> rat" where
  "target_shift D cfg = (let off = sc_quote_offset_ticks cfg
     in dmul D (dec_i32 (if 0 \<le> sint off then off else - off)) (sc_tick_size cfg))"

lemma targets_Some:
  assumes "compute_targets D s sn = Some (bid, ask)" "top_from_snapshot sn = Some tv"
    "k = target_shift D (ss_config s)"
  shows "0 < sc_tick_size (ss_config s) \<and> tp_bid tv < tp_ask tv \<and> bid < ask
     \<and> (if 0 \<le> sint (sc_quote_offset_ticks (ss_config s))
        then bid = dsub D (tp_bid tv) k \<and> ask = dadd D (tp_ask tv) k
        else bid = dadd D (tp_bid tv) k \<and> ask = dsub D (tp_ask tv) k)"
  using assms unfolding compute_targets_def target_shift_def
  by (auto simp: Option.bind_eq_Some_conv Let_def split: if_splits)

lemma dec_i32_nonneg: "0 \<le> sint n \<Longrightarrow> 0 \<le> dec_i32 n"
  by (simp only: dec_i32_def of_int_0_le_iff)

lemma target_shift_nonneg:
  "decimal_arith D \<Longrightarrow> 0 \<le> sint (sc_quote_offset_ticks cfg) \<Longrightarrow> 0 \<le> sc_tick_size cfg
     \<Longrightarrow> 0 \<le> target_shift D cfg"
  by (simp add: target_shift_def decimal_arith.mul_nonneg dec_i32_nonneg)

text \<open>
  C24: The strategy never computes a target that would take: whenever there are targets, the
  bid is below the ask, below the best ask of the book and the ask above its best bid, at any
  tick offset (the smallest machine integer included) and whatever the rounding; with an offset
  of zero or more the quotes are at the touch or outside it.
\<close>

theorem scalp_targets_never_cross:
  assumes D: "decimal_arith D" and t: "compute_targets D s sn = Some (bid, ask)"
    and tv: "top_from_snapshot sn = Some tv" "fits (tp_bid tv)" "fits (tp_ask tv)"
  shows "bid < ask \<and> bid < tp_ask tv \<and> tp_bid tv < ask
    \<and> (sint (sc_quote_offset_ticks (ss_config s)) < 0 \<or> bid \<le> tp_bid tv \<and> tp_ask tv \<le> ask)"
proof -
  note D_sub = decimal_arith.sub_le [OF D] decimal_arith.sub_ge [OF D]
  note D_add = decimal_arith.add_ge [OF D] decimal_arith.add_le [OF D]
  let ?k = "target_shift D (ss_config s)"
  note k = targets_Some [OF t tv(1) refl]
  show ?thesis
  proof (cases "0 \<le> sint (sc_quote_offset_ticks (ss_config s))")
    case True
    then have "0 \<le> ?k" using k by (intro target_shift_nonneg [OF D]) auto
    then show ?thesis
      using True k D_sub(1) [OF tv(2), of ?k] D_add(1) [OF tv(3), of ?k] by auto
  next
    case False
    then show ?thesis
      using k D_sub [OF tv(3), of ?k] D_add [OF tv(2), of ?k] by (cases "0 \<le> ?k") auto
  qed
qed

subsection \<open>What a requote emits\<close>

lemma emit_intent_acts:
  "emit_intent D s q = (s', acts) \<Longrightarrow> a \<in> set acts \<Longrightarrow> a = Quote q \<or> (\<exists>i. a = Cancel i)"
  by (auto simp: emit_intent_def Let_def policy_apply_def split: diff_decision.splits if_splits)

lemma emit_intent_frame:
  "emit_intent D s q = (s', acts) \<Longrightarrow> ss_config s' = ss_config s"
  by (auto simp: emit_intent_def Let_def split: if_splits)

lemma drop_tracked_acts:
  "drop_tracked_side s sd = (s', acts) \<Longrightarrow> a \<in> set acts \<Longrightarrow> \<exists>i. a = Cancel i"
  by (auto simp: drop_tracked_side_def Let_def policy_drop_side_def split: option.splits)

lemma drop_tracked_frame:
  "drop_tracked_side s sd = (s', acts) \<Longrightarrow> ss_config s' = ss_config s
     \<and> ss_last_risk_close_ts_ns s' = ss_last_risk_close_ts_ns s"
  by (auto simp: drop_tracked_side_def Let_def)

text \<open>A quote a side emits is wanted, post-only, at the side's price; the reducing side has the
  pinned size.\<close>

lemma emit_side_quote:
  assumes "emit_side D s cx sd want price mult close_qty = Some (s', acts)" "Quote q \<in> set acts"
  shows "want \<and> qi_side q = sd \<and> qi_price q = price \<and> qi_tif q = PostOnly
    \<and> (close_side_for (p_size (cx_position cx)) = Some sd \<and> 0 < close_qty \<longrightarrow> qi_size q = close_qty)"
  using assms
  by (auto simp: emit_side_def diff_emit_def diff_emit_close_def scalp_make_quote_def
      make_post_only_intent_def split: if_splits
      dest!: emit_intent_acts drop_tracked_acts [where a = "Quote q"])

lemma emit_side_frame:
  "emit_side D s cx sd want price mult close_qty = Some (s', acts) \<Longrightarrow> ss_config s' = ss_config s"
  by (auto simp: emit_side_def diff_emit_def diff_emit_close_def
      dest: emit_intent_frame drop_tracked_frame split: if_splits)

text \<open>The pieces of a requote: the pinned targets, whether a side is wanted, and its two
  emissions.\<close>

definition wants :: "decimal_ops \<Rightarrow> scalp \<Rightarrow> rat \<Rightarrow> price \<Rightarrow> timestamp \<Rightarrow> side \<Rightarrow> bool" where
  "wants D s pos mid ts sd \<longleftrightarrow>
     (\<not> over_cap D (ss_config s) pos mid \<or> side_delta sd pos \<le> 0) \<and> \<not> side_in_cooldown s sd ts"

abbreviation marked :: "scalp \<Rightarrow> price \<Rightarrow> price \<Rightarrow> timestamp \<Rightarrow> scalp" where
  "marked s bid ask ts \<equiv> s\<lparr>ss_last_bid := Some bid, ss_last_ask := Some ask,
     ss_last_requote_ts := Some ts, ss_quotes_live := True\<rparr>"

lemma emit_requote_eq:
  assumes "apply_tick_mode_close_target D s cx bid0 ask0 = (bid, ask)"
  shows "emit_requote D s cx bid0 ask0 ts =
    Option.bind (close_chunk D (marked s bid ask ts) cx bid ask) (\<lambda>qty.
    Option.bind (emit_side D (marked s bid ask ts) cx Bid
      (wants D s (p_size (cx_position cx)) (ddiv D (dadd D bid ask) 2) ts Bid) bid
      (fst (inventory_size_multiplier cx)) qty) (\<lambda>(s1, bids).
    Option.bind (emit_side D s1 cx Ask
      (wants D s (p_size (cx_position cx)) (ddiv D (dadd D bid ask) 2) ts Ask) ask
      (snd (inventory_size_multiplier cx)) qty) (\<lambda>(s2, asks).
    Some (s2, if bids @ asks = [] then [NoOp] else bids @ asks))))"
proof -
  have cool: "side_in_cooldown (marked s bid ask ts) sd ts = side_in_cooldown s sd ts" for sd
    by (cases sd) (simp_all add: side_in_cooldown_def last_reject_def)
  have w: "wants D s pos mid ts Bid \<longleftrightarrow> (\<not> (0 < sc_max_position_usdt (ss_config s)
      \<and> sc_max_position_usdt (ss_config s) \<le> dmul D \<bar>pos\<bar> mid) \<or> pos \<le> 0) \<and> \<not> side_in_cooldown s Bid ts"
    "wants D s pos mid ts Ask \<longleftrightarrow> (\<not> (0 < sc_max_position_usdt (ss_config s)
      \<and> sc_max_position_usdt (ss_config s) \<le> dmul D \<bar>pos\<bar> mid) \<or> 0 \<le> pos) \<and> \<not> side_in_cooldown s Ask ts"
    for pos mid by (simp_all add: wants_def over_cap_def)
  show ?thesis unfolding emit_requote_def assms Let_def prod.case w cool by simp
qed

lemma emit_requote_run:
  assumes "apply_tick_mode_close_target D s cx bid0 ask0 = (bid, ask)"
    "close_chunk D (marked s bid ask ts) cx bid ask = Some qty"
    "emit_side D (marked s bid ask ts) cx Bid
      (wants D s (p_size (cx_position cx)) (ddiv D (dadd D bid ask) 2) ts Bid) bid
      (fst (inventory_size_multiplier cx)) qty = Some (s1, bids)"
    "emit_side D s1 cx Ask
      (wants D s (p_size (cx_position cx)) (ddiv D (dadd D bid ask) 2) ts Ask) ask
      (snd (inventory_size_multiplier cx)) qty = Some (s2, asks)"
  shows "emit_requote D s cx bid0 ask0 ts
    = Some (s2, if bids @ asks = [] then [NoOp] else bids @ asks)"
  by (simp only: emit_requote_eq [OF assms(1)] assms(2-) Option.bind.simps prod.case)

lemma emit_requote_pieces:
  assumes "emit_requote D s cx bid0 ask0 ts = Some (s', acts)"
    "apply_tick_mode_close_target D s cx bid0 ask0 = (bid, ask)"
  obtains qty s1 bids asks where "close_chunk D (marked s bid ask ts) cx bid ask = Some qty"
    "emit_side D (marked s bid ask ts) cx Bid
      (wants D s (p_size (cx_position cx)) (ddiv D (dadd D bid ask) 2) ts Bid) bid
      (fst (inventory_size_multiplier cx)) qty = Some (s1, bids)"
    "emit_side D s1 cx Ask
      (wants D s (p_size (cx_position cx)) (ddiv D (dadd D bid ask) 2) ts Ask) ask
      (snd (inventory_size_multiplier cx)) qty = Some (s', asks)"
    "acts = (if bids @ asks = [] then [NoOp] else bids @ asks)"
proof -
  let ?w = "wants D s (p_size (cx_position cx)) (ddiv D (dadd D bid ask) 2) ts"
  let ?b = "\<lambda>qty. emit_side D (marked s bid ask ts) cx Bid (?w Bid) bid
      (fst (inventory_size_multiplier cx)) qty"
  let ?a = "\<lambda>s1 qty. emit_side D s1 cx Ask (?w Ask) ask (snd (inventory_size_multiplier cx)) qty"
  note eq = assms(1) [unfolded emit_requote_eq [OF assms(2)]]
  from eq obtain qty where q: "close_chunk D (marked s bid ask ts) cx bid ask = Some qty"
    by (cases "close_chunk D (marked s bid ask ts) cx bid ask") auto
  from eq q obtain s1 bids where b: "?b qty = Some (s1, bids)"
    by (cases "?b qty") auto
  from eq q b obtain s2 asks where a: "?a s1 qty = Some (s2, asks)"
    by (cases "?a s1 qty") auto
  have "s2 = s'" "acts = (if bids @ asks = [] then [NoOp] else bids @ asks)"
    using eq by (simp_all only: q a b Option.bind.simps prod.case option.inject prod.inject)
  with that [OF q b] a show thesis by blast
qed

lemma close_chunk_bound:
  assumes "close_chunk D s cx bid ask = Some qty" "p_size (cx_position cx) \<noteq> 0"
  shows "0 < qty \<and> qty \<le> \<bar>p_size (cx_position cx)\<bar>"
  using assms by (auto simp: close_chunk_def Let_def)

lemma emit_requote_quote:
  assumes "emit_requote D s cx bid0 ask0 ts = Some (s', acts)" "Quote q \<in> set acts"
    "apply_tick_mode_close_target D s cx bid0 ask0 = (bid, ask)"
  shows "wants D s (p_size (cx_position cx)) (ddiv D (dadd D bid ask) 2) ts (qi_side q)
    \<and> qi_tif q = PostOnly \<and> qi_price q = (case qi_side q of Bid \<Rightarrow> bid | Ask \<Rightarrow> ask)
    \<and> (close_side_for (p_size (cx_position cx)) = Some (qi_side q)
        \<longrightarrow> 0 < qi_size q \<and> qi_size q \<le> \<bar>p_size (cx_position cx)\<bar>)"
proof -
  let ?w = "wants D s (p_size (cx_position cx)) (ddiv D (dadd D bid ask) 2) ts"
  from emit_requote_pieces [OF assms(1,3)] obtain qty s1 bids asks where
    c: "close_chunk D (marked s bid ask ts) cx bid ask = Some qty"
    and b: "emit_side D (marked s bid ask ts) cx Bid (?w Bid) bid
      (fst (inventory_size_multiplier cx)) qty = Some (s1, bids)"
    and a: "emit_side D s1 cx Ask (?w Ask) ask (snd (inventory_size_multiplier cx)) qty = Some (s', asks)"
    and acts: "acts = (if bids @ asks = [] then [NoOp] else bids @ asks)" .
  have pos: "p_size (cx_position cx) \<noteq> 0" if "close_side_for (p_size (cx_position cx)) = Some sd" for sd
    using that by (auto simp: close_side_for_def)
  from acts assms(2) have "Quote q \<in> set bids \<or> Quote q \<in> set asks" by (auto split: if_splits)
  then show ?thesis
    using emit_side_quote [OF b] emit_side_quote [OF a] close_chunk_bound [OF c] pos by auto
qed


subsection \<open>The stages of the handler\<close>

lemma track_cycle_frame:
  "ss_config (track_cycle s cx) = ss_config s" "ss_resting (track_cycle s cx) = ss_resting s"
  "ss_last_reject_bid_ts (track_cycle s cx) = ss_last_reject_bid_ts s"
  "ss_last_reject_ask_ts (track_cycle s cx) = ss_last_reject_ask_ts s"
  "ss_last_risk_close_ts_ns (track_cycle s cx) = (if ss_prev_pos_size s \<noteq> 0
     \<and> p_size (cx_position cx) = 0 then 0 else ss_last_risk_close_ts_ns s)"
  by (simp_all add: track_cycle_def Let_def)

lemma sync_facts:
  "scalp_sync D s cx ev = Some s' \<Longrightarrow> ss_config s' = ss_config s
     \<and> ss_resting s' = resting_reconcile (ss_resting s) (cx_open_quotes cx)
     \<and> ss_last_reject_bid_ts s' = ss_last_reject_bid_ts s
     \<and> ss_last_reject_ask_ts s' = ss_last_reject_ask_ts s
     \<and> (p_size (cx_position cx) = 0 \<or> ss_last_risk_close_ts_ns s' = ss_last_risk_close_ts_ns s)"
  by (auto simp: scalp_sync_def Let_def Option.bind_eq_Some_conv track_cycle_frame split: if_splits)

lemma close_side_simps:
  "close_side_for q = Some Ask \<longleftrightarrow> 0 < q" "close_side_for q = Some Bid \<longleftrightarrow> q < 0"
  "close_side_for q = None \<longleftrightarrow> q = 0"
  by (auto simp: close_side_for_def)

lemma close_side_delta: "close_side_for q = Some sd \<longleftrightarrow> side_delta sd q < 0"
  by (cases sd) (auto simp: close_side_simps)

lemma drop_tracked_cancels:
  "drop_tracked_side s sd = (s', acts) \<Longrightarrow> ss_resting s sd = Some x \<Longrightarrow> rs_id x = Some i
     \<Longrightarrow> Cancel i \<in> set acts"
  by (auto simp: drop_tracked_side_def Let_def policy_drop_side_def current_for_def)

lemma drop_tracked_other:
  "drop_tracked_side s sd = (s', acts) \<Longrightarrow> sd' \<noteq> sd \<Longrightarrow> ss_resting s' sd' = ss_resting s sd'"
  by (auto simp: drop_tracked_side_def Let_def resting_drop_def)

lemma adverse_stop_acts:
  assumes "adverse_stop D s cx = Some (s', acts)"
  shows "\<exists>s1 bids s2 asks q. drop_tracked_side (s\<lparr>ss_last_risk_close_ts_ns := cx_now cx\<rparr>) Bid = (s1, bids)
    \<and> drop_tracked_side s1 Ask = (s', asks) \<and> acts = bids @ asks @ [Quote q]
    \<and> close_side_for (p_size (cx_position cx)) = Some (qi_side q) \<and> qi_tif q = IOC
    \<and> \<not> close_in_flight s cx"
  using assms unfolding adverse_stop_def
  by (auto simp: Option.bind_eq_Some_conv Let_def close_side_for_def split: if_splits prod.splits)

lemma tp_sl_acts:
  assumes "tp_sl_gate D s cx = Some (s', acts)"
  shows "\<exists>q. acts = [CancelAll, Quote q] \<and> close_side_for (p_size (cx_position cx)) = Some (qi_side q)
    \<and> qi_tif q = IOC \<and> \<not> close_in_flight s cx"
  using assms unfolding tp_sl_gate_def
  by (auto simp: Option.bind_eq_Some_conv build_close_def close_side_for_def
      split: if_splits policy_decision.splits dest!: policy_evaluate_Close)

lemma diff_emit_acts:
  "diff_emit D s cx sd price mult = Some (s', acts) \<Longrightarrow> Quote q \<in> set acts
     \<Longrightarrow> qi_side q = sd \<and> qi_tif q = PostOnly"
  by (auto simp: diff_emit_def scalp_make_quote_def make_post_only_intent_def dest!: emit_intent_acts)

lemma set_last_price_frame [simp]:
  "ss_config (set_last_price s sd v) = ss_config s"
  "ss_resting (set_last_price s sd v) = ss_resting s"
  by (cases sd; simp add: set_last_price_def)+

lemma try_keep_acts:
  assumes "try_keep_close_side D s cx sn ts = Some (s', Some acts)" "Quote q \<in> set acts"
  shows "close_side_for (p_size (cx_position cx)) = Some (qi_side q) \<and> qi_tif q = PostOnly"
proof -
  from assms obtain sd tv where sd: "close_side_for (p_size (cx_position cx)) = Some sd"
    "top_from_snapshot sn = Some tv"
    by (auto simp: try_keep_close_side_def split: if_splits option.splits)
  let ?p = "kept_close_price D s sd (p_avg_entry (cx_position cx)) tv ts"
  obtain s1 dropped where d: "drop_tracked_side s (opposite_side sd) = (s1, dropped)" by fastforce
  from assms(1) sd d have "acts = [] \<or> (\<exists>s2 placed. acts = dropped @ placed
      \<and> diff_emit D (set_last_price s1 (opposite_side sd) None) cx sd ?p 1 = Some (s2, placed))"
    unfolding try_keep_close_side_def Let_def
    by (auto simp: Option.bind_eq_Some_conv simp del: not_le split: if_split_asm)
  with assms(2) drop_tracked_acts [OF d, of "Quote q"] obtain s2 placed where
    "diff_emit D (set_last_price s1 (opposite_side sd) None) cx sd ?p 1 = Some (s2, placed)"
    "Quote q \<in> set placed" by auto
  from diff_emit_acts [OF this] sd(1) show ?thesis by simp
qed

lemma keep_acts:
  assumes "keep_or_cancel D s cx sn ts = Some (s', acts)" "Quote q \<in> set acts"
  shows "close_side_for (p_size (cx_position cx)) = Some (qi_side q) \<and> qi_tif q = PostOnly"
  using assms
  by (auto simp: keep_or_cancel_def cancel_if_live_def Option.bind_eq_Some_conv Let_def
      split: if_splits option.splits dest: try_keep_acts)

subsection \<open>The position cap\<close>

text \<open>The targets of a book are exact: no rounding when the offset is applied.\<close>

definition exact_targets :: "decimal_ops \<Rightarrow> scalp_config \<Rightarrow> top_view \<Rightarrow> bool" where
  "exact_targets D cfg tv \<longleftrightarrow> (let k = target_shift D cfg
     in fits (tp_bid tv - k) \<and> fits (tp_bid tv + k) \<and> fits (tp_ask tv - k) \<and> fits (tp_ask tv + k))"

text \<open>The pin of tick mode moves only the reducing side; a short pinned below the book lowers
  the value the cap is compared with, so the cap is only enforced on it without the pin.\<close>

definition cap_effective :: "scalp_config \<Rightarrow> position \<Rightarrow> bool" where
  "cap_effective cfg pos \<longleftrightarrow> 0 < p_size pos \<or> sc_strict_touch_quotes cfg
     \<or> sint (sc_quote_offset_ticks cfg) < 0 \<or> p_avg_entry pos \<le> 0"

lemma target_sum:
  assumes D: "decimal_arith D" and t: "compute_targets D s sn = Some (bid, ask)"
    and tv: "top_from_snapshot sn = Some tv" "exact_targets D (ss_config s) tv"
  shows "dadd D (tp_bid tv) (tp_ask tv) \<le> dadd D bid ask"
  using targets_Some [OF t tv(1) refl] tv(2)
  by (auto simp: exact_targets_def Let_def decimal_arith.add_fits [OF D]
      decimal_arith.sub_fits [OF D] intro!: decimal_arith.dadd_mono [OF D] split: if_splits)

lemma over_cap_mono:
  assumes D: "decimal_arith D" "over_cap D cfg pos (ddiv D x 2)" "x \<le> y"
  shows "over_cap D cfg pos (ddiv D y 2)"
proof -
  have "ddiv D x 2 \<le> ddiv D y 2"
    using assms by (intro decimal_arith.ddiv_mono) auto
  then have "dmul D \<bar>pos\<bar> (ddiv D x 2) \<le> dmul D \<bar>pos\<bar> (ddiv D y 2)"
    by (intro decimal_arith.dmul_mono [OF D(1)] mult_left_mono) auto
  with D(2) show ?thesis by (auto simp: over_cap_def)
qed

lemma pinned_sum:
  assumes D: "decimal_arith D" and e: "cap_effective (ss_config s) (cx_position cx)"
    and p: "apply_tick_mode_close_target D s cx bid0 ask0 = (bid, ask)"
  shows "dadd D bid0 ask0 \<le> dadd D bid ask"
  using e p
  by (auto simp: apply_tick_mode_close_target_def cap_effective_def Let_def
      intro!: decimal_arith.dadd_mono [OF D] split: if_splits)

lemma requote_capped:
  assumes D: "decimal_arith D" and tv: "top_from_snapshot sn = Some tv"
    "exact_targets D (ss_config s) tv" "over_cap D (ss_config s) (p_size (cx_position cx)) (top_mid D tv)"
    and e: "cap_effective (ss_config s) (cx_position cx)"
    and t: "compute_targets D s sn = Some (bid, ask)"
    and r: "emit_requote D s cx bid ask ts = Some (s', acts)" "Quote q \<in> set acts"
  shows "side_delta (qi_side q) (p_size (cx_position cx)) \<le> 0"
proof -
  obtain b a where ba: "apply_tick_mode_close_target D s cx bid ask = (b, a)" by fastforce
  have "dadd D (tp_bid tv) (tp_ask tv) \<le> dadd D b a"
    using target_sum [OF D t tv(1,2)] pinned_sum [OF D e ba] by simp
  with tv(3) have "over_cap D (ss_config s) (p_size (cx_position cx)) (ddiv D (dadd D b a) 2)"
    unfolding top_mid_def by (rule over_cap_mono [OF D])
  with emit_requote_quote [OF r ba] show ?thesis by (simp add: wants_def)
qed

lemma on_book_capped:
  assumes D: "decimal_arith D" and tv: "top_from_snapshot sn = Some tv"
    "exact_targets D (ss_config s) tv" "over_cap D (ss_config s) (p_size (cx_position cx)) (top_mid D tv)"
    and e: "cap_effective (ss_config s) (cx_position cx)"
    and r: "scalp_on_book D s cx sn ts cancels = Some (s', acts)"
    and c: "\<forall>a \<in> set cancels. \<exists>i. a = Cancel i"
  shows "set cancels \<subseteq> set acts \<and>
    (\<forall>q. Quote q \<in> set acts \<longrightarrow> side_delta (qi_side q) (p_size (cx_position cx)) \<le> 0)"
proof (cases "compute_targets D s sn")
  case None
  then obtain as where as: "keep_or_cancel D s cx sn ts = Some (s', as)" "acts = cancels @ as"
    using r by (auto simp: scalp_on_book_def Option.bind_eq_Some_conv)
  then show ?thesis using c keep_acts [OF as(1)] by (auto simp: close_side_delta less_imp_le)
next
  case (Some t)
  obtain bid ask where t: "t = (bid, ask)" by (cases t)
  show ?thesis
  proof (cases "scalp_should_requote s bid ask ts")
    case False
    with r Some t c show ?thesis by (auto simp: scalp_on_book_def split: if_splits)
  next
    case True
    with r Some t obtain as where as: "emit_requote D s cx bid ask ts = Some (s', as)" "acts = cancels @ as"
      by (auto simp: scalp_on_book_def Option.bind_eq_Some_conv)
    then show ?thesis using c requote_capped [OF D tv e Some [unfolded t] as(1)] by auto
  qed
qed

text \<open>
  C22: The position cap holds on every book event: when the position is over its cap at the mid
  of the book, the handler emits no order that would add to the position and cancels the
  tracked order of that side (by its id, or all orders), whichever stage of the handler
  answers; the effective cap excludes short positions under the tick-mode pin.
\<close>

theorem scalp_cap_enforced:
  assumes D: "decimal_arith D" and r: "scalp_on_event D s cx ev = Some (s', acts)"
    and ev: "ev = BookUpdate (cx_latest_book cx) \<or> ev = Heartbeat ts"
    and tv: "top_from_snapshot (cx_latest_book cx) = Some tv" "exact_targets D (ss_config s) tv"
      "over_cap D (ss_config s) (p_size (cx_position cx)) (top_mid D tv)"
    and e: "cap_effective (ss_config s) (cx_position cx)"
    and sd: "0 < side_delta sd (p_size (cx_position cx))"
  shows "(\<forall>q. Quote q \<in> set acts \<longrightarrow> qi_side q \<noteq> sd)
    \<and> (\<forall>x i. resting_reconcile (ss_resting s) (cx_open_quotes cx) sd = Some x \<and> rs_id x = Some i
        \<longrightarrow> Cancel i \<in> set acts \<or> CancelAll \<in> set acts)"
proof -
  let ?pos = "p_size (cx_position cx)"
  from r obtain s1 where s1: "scalp_sync D s cx ev = Some s1" and
    r1: "(case adverse_stop D s1 cx of Some r \<Rightarrow> Some r
      | None \<Rightarrow> (case tp_sl_gate D s1 cx of Some r \<Rightarrow> Some r
        | None \<Rightarrow> (let (s, cap_cancels) = cap_gate D s1 cx
            in scalp_dispatch D s cx ev cap_cancels))) = Some (s', acts)"
    by (auto simp: scalp_on_event_def Option.bind_eq_Some_conv)
  note f = sync_facts [OF s1]
  have no: "qi_side q \<noteq> sd" if "side_delta (qi_side q) ?pos \<le> 0" for q using that sd by auto
  show ?thesis
  proof (cases "adverse_stop D s1 cx")
    case (Some p)
    with r1 have "adverse_stop D s1 cx = Some (s', acts)" by simp
    from adverse_stop_acts [OF this] obtain s2 bids asks q where
      d: "drop_tracked_side (s1\<lparr>ss_last_risk_close_ts_ns := cx_now cx\<rparr>) Bid = (s2, bids)"
      "drop_tracked_side s2 Ask = (s', asks)" "acts = bids @ asks @ [Quote q]"
      "close_side_for ?pos = Some (qi_side q)" by metis
    have "Cancel i \<in> set acts" if "ss_resting s1 sd = Some x" "rs_id x = Some i" for x i
    proof (cases sd)
      case Bid
      with that d(3) drop_tracked_cancels [OF d(1), of x i] show ?thesis by simp
    next
      case Ask
      with that have "ss_resting s2 Ask = Some x" using drop_tracked_other [OF d(1), of Ask] by simp
      with that d(3) drop_tracked_cancels [OF d(2), of x i] show ?thesis by simp
    qed
    moreover have "Quote q' \<in> set acts \<Longrightarrow> q' = q" for q'
      using d(3) drop_tracked_acts [OF d(1)] drop_tracked_acts [OF d(2)] by fastforce
    moreover have "qi_side q \<noteq> sd"
      using d(4) no [of q] by (simp add: close_side_delta)
    ultimately show ?thesis using f by auto
  next
    case None
    show ?thesis
    proof (cases "tp_sl_gate D s1 cx")
      case (Some p)
      with None r1 have "tp_sl_gate D s1 cx = Some (s', acts)" by simp
      from tp_sl_acts [OF this] obtain q where
        q: "acts = [CancelAll, Quote q]" "close_side_for ?pos = Some (qi_side q)" by blast
      then have "qi_side q \<noteq> sd" using no [of q] by (simp add: close_side_delta)
      with q(1) show ?thesis by simp
    next
      case gate: None
      obtain s2 cancels where g: "cap_gate D s1 cx = (s2, cancels)" by fastforce
      have "?pos \<noteq> 0" using sd by auto
      then have drop: "drop_tracked_side s1 sd = (s2, cancels)"
        using g tv f sd by (cases sd) (auto simp: cap_gate_def split: if_splits)
      from r1 None gate g ev obtain t where
        b: "scalp_on_book D s2 cx (cx_latest_book cx) t cancels = Some (s', acts)"
        by (auto simp: scalp_dispatch_def)
      have "ss_config s2 = ss_config s" using drop_tracked_frame [OF drop] f by simp
      with on_book_capped [OF D tv(1) _ _ _ b] tv(2,3) e drop_tracked_acts [OF drop]
      have acts: "set cancels \<subseteq> set acts"
        "\<forall>q. Quote q \<in> set acts \<longrightarrow> side_delta (qi_side q) ?pos \<le> 0" by auto
      show ?thesis
      proof (intro conjI allI impI)
        show "qi_side q \<noteq> sd" if "Quote q \<in> set acts" for q
          using acts(2) that no by blast
        show "Cancel i \<in> set acts \<or> CancelAll \<in> set acts"
          if "resting_reconcile (ss_resting s) (cx_open_quotes cx) sd = Some x \<and> rs_id x = Some i" for x i
          using that f acts(1) drop_tracked_cancels [OF drop, of x i] by auto
      qed
    qed
  qed
qed

subsection \<open>A flatten order in flight, and a side in its cooldown\<close>

lemma emit_requote_post_only:
  "emit_requote D s cx bid ask ts = Some (s', acts) \<Longrightarrow> Quote q \<in> set acts \<Longrightarrow> qi_tif q = PostOnly"
  using emit_requote_quote [of D s cx bid ask ts s' acts q]
  by (cases "apply_tick_mode_close_target D s cx bid ask") simp

lemma on_book_post_only:
  "scalp_on_book D s cx sn ts cancels = Some (s', acts) \<Longrightarrow> Quote q \<in> set acts
     \<Longrightarrow> \<forall>a \<in> set cancels. \<exists>i. a = Cancel i \<Longrightarrow> qi_tif q = PostOnly"
  using keep_acts emit_requote_post_only
  by (fastforce simp: scalp_on_book_def Option.bind_eq_Some_conv split: if_splits option.splits
      prod.splits)

lemma on_fill_post_only:
  "scalp_on_fill D s cx f cancels = Some (s', acts) \<Longrightarrow> Quote q \<in> set acts
     \<Longrightarrow> \<forall>a \<in> set cancels. \<exists>i. a = Cancel i \<Longrightarrow> qi_tif q = PostOnly"
  using keep_acts emit_requote_post_only
  by (fastforce simp: scalp_on_fill_def Let_def Option.bind_eq_Some_conv split: option.splits
      prod.splits)

lemma cap_gate_cancels: "cap_gate D s cx = (s', acts) \<Longrightarrow> \<forall>a \<in> set acts. \<exists>i. a = Cancel i"
  using drop_tracked_acts unfolding cap_gate_def
  by (fastforce split: option.splits if_splits)

text \<open>
  While a flatten order is in flight it is not repeated: with a position and a recorded
  flatten less than five seconds old, no event makes the handler emit an immediate-or-cancel
  order, so neither the adverse stop nor the take-profit and stop-loss gate can flip the
  position on a stale report.
\<close>

theorem scalp_flatten_not_repeated:
  assumes r: "scalp_on_event D s cx ev = Some (s', acts)" and q: "Quote q \<in> set acts"
    and pos: "p_size (cx_position cx) \<noteq> 0" and flight: "close_in_flight s cx"
  shows "qi_tif q = PostOnly"
proof -
  from r obtain s1 where s1: "scalp_sync D s cx ev = Some s1" and
    r1: "(case adverse_stop D s1 cx of Some r \<Rightarrow> Some r
      | None \<Rightarrow> (case tp_sl_gate D s1 cx of Some r \<Rightarrow> Some r
        | None \<Rightarrow> (let (s, cap_cancels) = cap_gate D s1 cx
            in scalp_dispatch D s cx ev cap_cancels))) = Some (s', acts)"
    by (auto simp: scalp_on_event_def Option.bind_eq_Some_conv)
  have f1: "close_in_flight s1 cx"
    using flight sync_facts [OF s1] pos by (simp add: close_in_flight_def)
  have "adverse_stop D s1 cx = None" using adverse_stop_acts f1 by (cases "adverse_stop D s1 cx") fastforce+
  moreover have "tp_sl_gate D s1 cx = None" using tp_sl_acts f1 by (cases "tp_sl_gate D s1 cx") fastforce+
  moreover obtain s2 cancels where g: "cap_gate D s1 cx = (s2, cancels)" by fastforce
  ultimately have d: "scalp_dispatch D s2 cx ev cancels = Some (s', acts)" using r1 by simp
  show ?thesis
  proof (cases ev)
    case (FillEv f)
    with d q cap_gate_cancels [OF g] show ?thesis
      by (intro on_fill_post_only [of D s2 cx f cancels s' acts]) (auto simp: scalp_dispatch_def)
  qed (use d q cap_gate_cancels [OF g] in \<open>auto simp: scalp_dispatch_def intro: on_book_post_only\<close>)
qed

end
