(* ===== verification/Scalp_Runs.thy ===== *)
theory Scalp_Runs
  imports Scalp_Laws
begin

text \<open>
  Concrete runs of the spread-scalp handler: the witnesses of its properties, and the runs on
  which the handler does not do what its comments say.
\<close>

definition eg_scalp_symbol :: symbol where
  "eg_scalp_symbol = \<lparr>sy_base = ''BTC'', sy_quote = ''USDT'', sy_venue = ''binance'', sy_kind = Perp\<rparr>"

definition eg_scalp_config :: scalp_config where
  "eg_scalp_config = \<lparr>sc_notional_per_order = 1000, sc_tick_size = 1, sc_step_size = 1,
     sc_min_notional = 0, sc_min_spread_bps = 0, sc_requote_interval_ms = 0,
     sc_max_position_usdt = 0, sc_take_profit_usdt = 0, sc_reject_cooldown_ms = 5000,
     sc_price_tolerance_ticks = 0, sc_take_profit_bps = 0, sc_stop_loss_bps = 0,
     sc_adverse = adverse_disabled, sc_close_side_always_quotes = True,
     sc_close_decay_after_secs_1 = 0, sc_close_decay_factor_1 = 1,
     sc_close_decay_after_secs_2 = 0, sc_close_decay_factor_2 = 1,
     sc_adverse_stop_after_secs = 0, sc_adverse_stop_drift_bps = 0, sc_quote_offset_ticks = 0,
     sc_close_target_ticks = 0, sc_strict_touch_quotes = False\<rparr>"

definition eg_scalp_book :: snapshot where
  "eg_scalp_book = \<lparr>sn_symbol = eg_scalp_symbol, sn_bids = [\<lparr>lv_price = 98, lv_size = 5\<rparr>],
     sn_asks = [\<lparr>lv_price = 100, lv_size = 5\<rparr>], sn_ts = 10\<rparr>"

definition eg_scalp_cx :: "rat \<Rightarrow> rat \<Rightarrow> timestamp \<Rightarrow> (quote_id \<times> quote_intent) list \<Rightarrow> strategy_context"
  where
  "eg_scalp_cx q e now os = \<lparr>cx_symbol = eg_scalp_symbol, cx_now = now,
     cx_position = \<lparr>p_symbol = eg_scalp_symbol, p_size = q, p_avg_entry = e, p_realized_pnl = 0\<rparr>,
     cx_recent_fills = [], cx_latest_book = eg_scalp_book, cx_open_quotes = os, cx_recent_liqs = []\<rparr>"

definition eg_intent :: "side \<Rightarrow> rat \<Rightarrow> rat \<Rightarrow> quote_intent" where
  "eg_intent sd p q = make_post_only_intent eg_scalp_symbol sd p q"

text \<open>A strategy in the middle of a cycle, tracking at most one bid.\<close>

definition eg_tracked :: "quote_id option \<Rightarrow> resting_orders" where
  "eg_tracked i = [Bid \<mapsto> \<lparr>rs_id = i, rs_side = Bid, rs_price = 98, rs_size = 1\<rparr>]"

definition eg_scalp :: "scalp_config \<Rightarrow> rat \<Rightarrow> resting_orders \<Rightarrow> scalp" where
  "eg_scalp cfg q r = (scalp_new cfg)\<lparr>ss_resting := r, ss_prev_pos_size := q, ss_cycle_start_ts := Some 1\<rparr>"

named_theorems scalp_eval "definitions to run the spread-scalp handler on concrete data"

lemmas scalp_eval_data [scalp_eval] =
  eg_scalp_symbol_def eg_scalp_config_def eg_scalp_book_def eg_scalp_cx_def eg_intent_def
  eg_tracked_def eg_scalp_def scalp_new_def adverse_new_def adverse_disabled_def
  make_post_only_intent_def top_from_snapshot_def top_mid_def dec_i32_def dec_u32_def

lemmas scalp_eval_code [scalp_eval] =
  scalp_on_event_def scalp_sync_def track_cycle_def resting_reconcile_def refresh_one_def
  record_place_def current_for_def process_due_snapshots_def record_fill_def
  adverse_stop_def tp_sl_gate_def cap_gate_def over_cap_def scalp_dispatch_def scalp_on_book_def
  compute_targets_def spread_bps_def current_widen_bps_def scalp_should_requote_def
  emit_requote_def apply_tick_mode_close_target_def inventory_size_multiplier_def close_chunk_def
  scalp_sized_def scalp_quote_size_def size_at_least_min_notional_def close_side_for_def
  emit_side_def diff_emit_def diff_emit_close_def emit_intent_def scalp_make_quote_def
  policy_diff_def policy_apply_def policy_drop_side_def drop_tracked_side_def resting_drop_def
  side_in_cooldown_def keep_or_cancel_def try_keep_close_side_def kept_close_price_def
  close_decay_factor_def cancel_if_live_def set_last_price_def opposite_side_def
  last_reject_def set_reject_def close_in_flight_def risk_close_retry_ns_def policy_evaluate_def
  build_close_def scalp_risk_cfg_def resting_drop_all_def restrict_map_def Let_def

subsection \<open>The cap holds on a book event and is lost on a trade\<close>

abbreviation capped_config :: scalp_config where
  "capped_config \<equiv> eg_scalp_config\<lparr>sc_max_position_usdt := 1000\<rparr>"

abbreviation capped_cx :: "timestamp \<Rightarrow> strategy_context" where
  "capped_cx now \<equiv> eg_scalp_cx 20 98 now [(7, eg_intent Bid 98 1)]"

abbreviation capped_scalp :: "resting_orders \<Rightarrow> scalp" where
  "capped_scalp r \<equiv> eg_scalp capped_config 20 r"

lemma capped_heartbeat:
  "\<exists>s. scalp_on_event exact_decimal (capped_scalp (eg_tracked (Some 7))) (capped_cx 5) (Heartbeat 5)
     = Some (s, [Cancel 7, Quote (eg_intent Ask 100 10)])"
  by (simp add: scalp_eval)

text \<open>
  On a trade the handler forgets the tracked bid over the cap and returns no action at all, so
  order 7 is never cancelled: the next book event no longer knows it.
\<close>

theorem scalp_trade_loses_cancel:
  "map_option snd (scalp_on_event exact_decimal (capped_scalp (eg_tracked (Some 7))) (capped_cx 5)
      (Trade eg_scalp_symbol 98 1 Ask 5)) = Some []
   \<and> (\<exists>s. scalp_on_event exact_decimal (capped_scalp (eg_tracked (Some 7))) (capped_cx 5)
        (Trade eg_scalp_symbol 98 1 Ask 5) = Some (s, [])
      \<and> map_option snd (scalp_on_event exact_decimal s (capped_cx 6) (Heartbeat 6))
        = Some [Quote (eg_intent Ask 100 10)])"
  by (simp add: scalp_eval)

text \<open>
  A short position far in profit: tick mode pins its bid well below the book, which halves the
  mid the cap is compared with inside the requote; the handler cancels the ask over the cap and
  places it again in the same answer.
\<close>

theorem scalp_short_cap_escapes:
  "\<exists>s i. scalp_on_event exact_decimal
      ((eg_scalp capped_config (- 11) Map.empty)\<lparr>ss_resting := [Ask \<mapsto>
         \<lparr>rs_id = Some 8, rs_side = Ask, rs_price = 100, rs_size = 1\<rparr>]\<rparr>)
      (eg_scalp_cx (- 11) 21 5 [(8, eg_intent Ask 100 1)]) (Heartbeat 5)
    = Some (s, [Cancel 8, Quote (eg_intent Bid 20 11), Quote (eg_intent Ask 100 10)])"
  by (simp add: scalp_eval)

text \<open>
  The take-profit gate does not record its flatten order: a second event a nanosecond later,
  on the same stale position report, asks for the whole position again.
\<close>

theorem scalp_take_profit_refires:
  "\<exists>s s'. scalp_on_event exact_decimal (eg_scalp (eg_scalp_config\<lparr>sc_take_profit_bps := 50\<rparr>) 2 Map.empty)
       (eg_scalp_cx 2 90 5 []) (Heartbeat 5)
     = Some (s, [CancelAll, Quote (eg_intent Ask 98 2\<lparr>qi_tif := IOC\<rparr>)])
   \<and> scalp_on_event exact_decimal s (eg_scalp_cx 2 90 6 []) (Heartbeat 6)
     = Some (s', [CancelAll, Quote (eg_intent Ask 98 2\<lparr>qi_tif := IOC\<rparr>)])"
  by (simp add: scalp_eval)

text \<open>
  When the spread is below the threshold, the reducing quote that is kept alive ignores the
  reject cooldown of its side and is sized by notional: a long of one is offered for sale five
  times over.
\<close>

theorem scalp_kept_close_oversized:
  "\<exists>s. scalp_on_event exact_decimal
       ((eg_scalp (eg_scalp_config\<lparr>sc_min_spread_bps := 10000\<rparr>) 1 Map.empty)
          \<lparr>ss_last_reject_ask_ts := Some 4\<rparr>)
       (eg_scalp_cx 1 100 5 []) (Heartbeat 5)
     = Some (s, [Quote (eg_intent Ask 200 5)]) \<and> side_in_cooldown s Ask 5"
  by (simp add: scalp_eval sat_sub_def sat_mul_def)

text \<open>
  A partial fill leaves its order resting; the handler forgets the order all the same and
  places a second one on the side, without a cancel.
\<close>

theorem scalp_partial_fill_duplicates:
  "\<exists>s. scalp_on_event exact_decimal (eg_scalp eg_scalp_config 1 (eg_tracked (Some 7)))
       (eg_scalp_cx 1 98 5 [(7, eg_intent Bid 98 4)])
       (FillEv \<lparr>f_quote_id = 7, f_price = 98, f_size = 1, f_fee_asset = ''USDT'', f_fee_amount = 0,
          f_fee_quote = 0, f_side = Bid, f_ts = 5, f_is_full = False, f_trade_id = None\<rparr>)
     = Some (s, [Quote (eg_intent Bid 98 10), Quote (eg_intent Ask 100 1)])"
  by (simp add: scalp_eval scalp_on_fill_def dec_floor_def floor_eq_iff)

subsection \<open>Witnesses\<close>

lemma eg_top: "top_from_snapshot eg_scalp_book
    = Some \<lparr>tp_bid = 98, tp_ask = 100, tp_bid_size = 5, tp_ask_size = 5\<rparr>"
  by (simp add: scalp_eval_data)

lemma fits_numeral [simp]: "numeral k < (2 ^ 96 :: int) \<Longrightarrow> fits (numeral k)" "fits 1"
  using fits_int [of "numeral k"] fits_int [of 1] by simp_all

lemma scalp_targets_never_cross_witness:
  "\<exists>bid ask. compute_targets exact_decimal (eg_scalp eg_scalp_config 0 Map.empty) eg_scalp_book
     = Some (bid, ask) \<and> bid < 100 \<and> 98 < ask"
proof -
  have t: "compute_targets exact_decimal (eg_scalp eg_scalp_config 0 Map.empty) eg_scalp_book
      = Some (98, 100)" by (simp add: scalp_eval)
  from scalp_targets_never_cross [OF exact.decimal_arith_axioms t eg_top] t show ?thesis by simp
qed


lemma scalp_cap_enforced_witness:
  "\<exists>s acts. scalp_on_event exact_decimal (capped_scalp (eg_tracked (Some 7))) (capped_cx 5) (Heartbeat 5)
     = Some (s, acts) \<and> (\<forall>q. Quote q \<in> set acts \<longrightarrow> qi_side q \<noteq> Bid)"
proof -
  let ?s = "capped_scalp (eg_tracked (Some 7))"
  obtain s where r: "scalp_on_event exact_decimal ?s (capped_cx 5) (Heartbeat 5)
    = Some (s, [Cancel 7, Quote (eg_intent Ask 100 10)])" using capped_heartbeat by blast
  have tv: "top_from_snapshot (cx_latest_book (capped_cx 5))
      = Some \<lparr>tp_bid = 98, tp_ask = 100, tp_bid_size = 5, tp_ask_size = 5\<rparr>"
    by (simp add: scalp_eval_data)
  have e: "exact_targets exact_decimal (ss_config ?s) \<lparr>tp_bid = 98, tp_ask = 100, tp_bid_size = 5, tp_ask_size = 5\<rparr>"
    and o: "over_cap exact_decimal (ss_config ?s) (p_size (cx_position (capped_cx 5)))
        (top_mid exact_decimal \<lparr>tp_bid = 98, tp_ask = 100, tp_bid_size = 5, tp_ask_size = 5\<rparr>)"
    and c: "cap_effective (ss_config ?s) (cx_position (capped_cx 5))"
    and d: "0 < side_delta Bid (p_size (cx_position (capped_cx 5)))"
    by (simp_all add: exact_targets_def target_shift_def cap_effective_def scalp_eval)
  from scalp_cap_enforced [OF exact.decimal_arith_axioms r disjI2 [OF refl] tv e o c d] r
  show ?thesis by blast
qed

lemma scalp_flatten_not_repeated_witness:
  "qi_tif (eg_intent Ask 100 10) = PostOnly"
proof -
  let ?s = "(capped_scalp (eg_tracked (Some 7)))\<lparr>ss_last_risk_close_ts_ns := 4\<rparr>"
  have "\<exists>s. scalp_on_event exact_decimal ?s (capped_cx 5) (Heartbeat 5)
      = Some (s, [Cancel 7, Quote (eg_intent Ask 100 10)])" and p: "p_size (cx_position (capped_cx 5)) \<noteq> 0"
    and f: "close_in_flight ?s (capped_cx 5)"
    by (simp_all add: scalp_eval sat_sub_def)
  then obtain s where "scalp_on_event exact_decimal ?s (capped_cx 5) (Heartbeat 5)
      = Some (s, [Cancel 7, Quote (eg_intent Ask 100 10)])" by blast
  from scalp_flatten_not_repeated [OF this _ p f] show ?thesis by simp
qed

end
