(* ===== verification/Bagger.thy ===== *)
theory Bagger
  imports Core
begin

text \<open>
  The bagger of \<open>crates/tikr-paper/src/bagger.rs\<close>: the inventory-risk layer that decides,
  each tick, whether to flatten or trim the position.  \<open>bagger_evaluate\<close> is \<open>evaluate\<close>, cut
  into its stages: the state it tracks, the periodic timer, the extremes of the bag, and the
  mechanisms in the code's order, each an option that is \<open>Some\<close> when it fires.
  \<open>bagger_commit\<close> is the mutation the runner applies once a decision has been executed.

  \<open>m_size_cap\<close> divides by the notional, which panics in the code when it is zero; with a negative
  cap of the balance this is reachable from \<open>evaluate\<close>, but the runner only calls it with a
  position and a mark that are not zero.

  Not modelled: \<open>display_string\<close>, which formats the configuration for a dashboard.
\<close>

record bagger_config =
  bc_size_gate_pct :: rat
  bc_exit_taker :: bool
  bc_flatten_full :: bool
  bc_cap_pct :: rat
  bc_sl_pct :: rat
  bc_deteriorate_secs :: u64
  bc_equity_giveback_pct :: rat
  bc_trail_pct :: rat
  bc_fixed_tp_pct :: rat
  bc_inv_flat_wallet_pct :: rat
  bc_periodic_flatten_secs :: u64
  bc_periodic_flatten_frac :: rat
  bc_wallet_tp_pct :: rat
  bc_wallet_sl_pct :: rat
  bc_wallet_flat_frac :: rat
  bc_inv_flat_require_profit :: bool
  bc_pnl_flat_pct :: rat
  bc_profit_lock_pct :: rat
  bc_loss_lock_pct :: rat
  bc_bp_flat_pct :: rat
  bc_bp_flat_frac :: rat
  bc_avg_tp_bps :: rat
  bc_avg_tp_frac :: rat

definition bagger_default :: bagger_config where
  "bagger_default = \<lparr>bc_size_gate_pct = 0, bc_exit_taker = True, bc_flatten_full = True,
     bc_cap_pct = 0, bc_sl_pct = 0, bc_deteriorate_secs = 0, bc_equity_giveback_pct = 0,
     bc_trail_pct = 0, bc_fixed_tp_pct = 0, bc_inv_flat_wallet_pct = 0,
     bc_periodic_flatten_secs = 0, bc_periodic_flatten_frac = 1 / 2, bc_wallet_tp_pct = 0,
     bc_wallet_sl_pct = 0, bc_wallet_flat_frac = 1 / 2, bc_inv_flat_require_profit = False,
     bc_pnl_flat_pct = 0, bc_profit_lock_pct = 0, bc_loss_lock_pct = 0, bc_bp_flat_pct = 0,
     bc_bp_flat_frac = 1 / 2, bc_avg_tp_bps = 0, bc_avg_tp_frac = 1 / 2\<rparr>"

definition bagger_enabled :: "bagger_config \<Rightarrow> bool" where
  "bagger_enabled c \<longleftrightarrow> 0 < bc_cap_pct c \<or> 0 < bc_sl_pct c \<or> 0 < bc_equity_giveback_pct c
     \<or> 0 < bc_trail_pct c \<or> 0 < bc_fixed_tp_pct c \<or> 0 < bc_pnl_flat_pct c
     \<or> 0 < bc_inv_flat_wallet_pct c \<or> 0 < bc_periodic_flatten_secs c \<or> 0 < bc_wallet_tp_pct c
     \<or> 0 < bc_wallet_sl_pct c \<or> 0 < bc_profit_lock_pct c \<or> 0 < bc_loss_lock_pct c
     \<or> 0 < bc_bp_flat_pct c \<or> 0 < bc_avg_tp_bps c"

subsection \<open>Presets\<close>

text \<open>\<open>split('+')\<close>, \<open>trim\<close> and \<open>to_ascii_lowercase\<close> on ASCII text.\<close>

fun split_on :: "char \<Rightarrow> string \<Rightarrow> string list" where
  "split_on d [] = [[]]"
| "split_on d (c # cs) = (if c = d then [] # split_on d cs
     else (case split_on d cs of p # ps \<Rightarrow> (c # p) # ps | [] \<Rightarrow> [[c]]))"

definition ascii_space :: "char \<Rightarrow> bool" where
  "ascii_space c \<longleftrightarrow> c \<in> {CHR '' '', CHR 0x09, CHR 0x0A, CHR 0x0B, CHR 0x0C, CHR 0x0D}"

definition trim :: "string \<Rightarrow> string" where
  "trim s = rev (dropWhile ascii_space (rev (dropWhile ascii_space s)))"

definition ascii_lower :: "char \<Rightarrow> char" where
  "ascii_lower c = (let n = of_char c :: nat
     in if 65 \<le> n \<and> n \<le> 90 then char_of (n + 32) else c)"

definition apply_preset_part :: "bagger_config \<Rightarrow> string \<Rightarrow> bagger_config" where
  "apply_preset_part c part =
     (let name = map ascii_lower (trim part)
      in if name \<in> {''fixed'', ''bands''}
           then c\<lparr>bc_fixed_tp_pct := 2, bc_sl_pct := 3, bc_deteriorate_secs := 0\<rparr>
         else if name \<in> {''ratchet'', ''trailing''}
           then c\<lparr>bc_trail_pct := 30, bc_sl_pct := 3, bc_deteriorate_secs := 0\<rparr>
         else if name = ''dual''
           then c\<lparr>bc_trail_pct := 30, bc_sl_pct := 3, bc_deteriorate_secs := 10\<rparr>
         else if name \<in> {''cap'', ''sizecap''} then c\<lparr>bc_cap_pct := 25\<rparr>
         else if name \<in> {''equity'', ''highwater''} then c\<lparr>bc_equity_giveback_pct := 10\<rparr>
         else if name \<in> {''flat'', ''churn''} then c\<lparr>bc_pnl_flat_pct := 5\<rparr>
         else if name \<in> {''wallet'', ''invcap''} then c\<lparr>bc_inv_flat_wallet_pct := 100\<rparr>
         else if name \<in> {''lock'', ''profitlock'', ''ratchet-profit''} then c\<lparr>bc_profit_lock_pct := 2\<rparr>
         else if name \<in> {''losslock'', ''ratchet-loss''} then c\<lparr>bc_loss_lock_pct := 2\<rparr>
         else if name \<in> {''bpcut'', ''buyingpower''} then c\<lparr>bc_bp_flat_pct := 30\<rparr>
         else if name \<in> {''avgtp'', ''chase-tp''} then c\<lparr>bc_avg_tp_bps := 10\<rparr>
         else c)"

definition apply_preset :: "bagger_config \<Rightarrow> string \<Rightarrow> bagger_config" where
  "apply_preset c name = foldl apply_preset_part c (split_on CHR ''+'' name)"

subsection \<open>Inputs, decisions and state\<close>

record guard_input =
  gi_pos_size :: rat
  gi_pos_notional :: rat
  gi_unrealized :: rat
  gi_balance :: rat
  gi_leverage :: rat
  gi_avg_price :: rat
  gi_mark_price :: rat
  gi_order_notional :: rat
  gi_now_ns :: u64

datatype flatten_commit =
  CommitNone
| PeriodicTimer u64
| LockSnapshot rat
| GivebackRebase rat

record flatten_decision =
  fd_qty :: rat
  fd_side :: side
  fd_taker :: bool
  fd_reason :: string
  fd_commit :: flatten_commit

record bagger_state =
  bg_peak_unrealized :: rat
  bg_trough_unrealized :: rat
  bg_last_new_trough_ns :: u64
  bg_last_sign :: int
  bg_equity_high_water :: rat
  bg_last_periodic_flatten_ns :: u64
  bg_lock_snapshot :: rat

definition bagger_init :: bagger_state where
  "bagger_init = \<lparr>bg_peak_unrealized = 0, bg_trough_unrealized = 0, bg_last_new_trough_ns = 0,
     bg_last_sign = 0, bg_equity_high_water = 0, bg_last_periodic_flatten_ns = 0,
     bg_lock_snapshot = 0\<rparr>"

definition reducing_side :: "rat \<Rightarrow> side" where
  "reducing_side pos_size = (if 0 < pos_size then Ask else Bid)"

definition bagger_commit :: "bagger_state \<Rightarrow> flatten_commit \<Rightarrow> bagger_state" where
  "bagger_commit s c = (case c of CommitNone \<Rightarrow> s
     | PeriodicTimer now_ns \<Rightarrow> s\<lparr>bg_last_periodic_flatten_ns := now_ns\<rparr>
     | LockSnapshot equity \<Rightarrow> s\<lparr>bg_lock_snapshot := equity\<rparr>
     | GivebackRebase equity \<Rightarrow> s\<lparr>bg_equity_high_water := equity\<rparr>)"

subsection \<open>What a tick tracks\<close>

definition pos_sign :: "rat \<Rightarrow> int" where
  "pos_sign q = (if 0 < q then 1 else if q < 0 then - 1 else 0)"

definition bag_track :: "decimal_ops \<Rightarrow> bagger_config \<Rightarrow> guard_input \<Rightarrow> bagger_state \<Rightarrow> bagger_state"
  where
  "bag_track D c i s =
     (let sign = pos_sign (gi_pos_size i);
          s = (if sign \<noteq> bg_last_sign s
               then s\<lparr>bg_peak_unrealized := 0, bg_trough_unrealized := 0,
                      bg_last_new_trough_ns := gi_now_ns i, bg_last_sign := sign\<rparr>
               else s);
          mtm_equity = dadd D (gi_balance i) (gi_unrealized i);
          s = (if bg_equity_high_water s < mtm_equity
               then s\<lparr>bg_equity_high_water := mtm_equity\<rparr> else s)
      in if (0 < bc_profit_lock_pct c \<or> 0 < bc_loss_lock_pct c)
            \<and> bg_lock_snapshot s = 0 \<and> 0 < mtm_equity
         then s\<lparr>bg_lock_snapshot := mtm_equity\<rparr> else s)"

definition decide :: "guard_input \<Rightarrow> rat \<Rightarrow> bool \<Rightarrow> string \<Rightarrow> flatten_commit \<Rightarrow> flatten_decision" where
  "decide i qty taker reason commit = \<lparr>fd_qty = qty, fd_side = reducing_side (gi_pos_size i),
     fd_taker = taker, fd_reason = reason, fd_commit = commit\<rparr>"

definition bag_periodic ::
    "decimal_ops \<Rightarrow> bagger_config \<Rightarrow> guard_input \<Rightarrow> bagger_state \<Rightarrow> bagger_state \<times> flatten_decision option"
  where
  "bag_periodic D c i s =
     (if 0 < bc_periodic_flatten_secs c \<and> 0 < bc_periodic_flatten_frac c then
        let interval_ns = sat_mul (bc_periodic_flatten_secs c) 1000000000;
            full = \<bar>gi_pos_size i\<bar>
        in if bg_last_periodic_flatten_ns s = 0
           then (s\<lparr>bg_last_periodic_flatten_ns := gi_now_ns i\<rparr>, None)
           else if interval_ns \<le> sat_sub (gi_now_ns i) (bg_last_periodic_flatten_ns s)
           then let qty = min (dmul D full (bc_periodic_flatten_frac c)) full
             in (s, if 0 < qty then Some (decide i qty (bc_exit_taker c) ''periodic flatten''
                      (PeriodicTimer (gi_now_ns i))) else None)
           else (s, None)
      else (s, None))"

definition bag_extremes :: "guard_input \<Rightarrow> bagger_state \<Rightarrow> bagger_state" where
  "bag_extremes i s =
     (let s = (if bg_peak_unrealized s < gi_unrealized i
               then s\<lparr>bg_peak_unrealized := gi_unrealized i\<rparr> else s)
      in if gi_unrealized i < bg_trough_unrealized s
         then s\<lparr>bg_trough_unrealized := gi_unrealized i, bg_last_new_trough_ns := gi_now_ns i\<rparr>
         else s)"

subsection \<open>The mechanisms\<close>

definition pct_of :: "decimal_ops \<Rightarrow> rat \<Rightarrow> rat \<Rightarrow> rat" where
  "pct_of D x pct = ddiv D (dmul D x pct) 100"

definition inventory_wallet_cap :: string where
  "inventory_wallet_cap = ''inventory '' @ [CHR 0xE2, CHR 0x89, CHR 0xA5] @ '' wallet cap''"

definition m_inventory_cap :: "decimal_ops \<Rightarrow> bagger_config \<Rightarrow> guard_input \<Rightarrow> flatten_decision option"
  where
  "m_inventory_cap D c i =
     (if 0 < bc_inv_flat_wallet_pct c \<and> 0 < gi_balance i
         \<and> pct_of D (gi_balance i) (bc_inv_flat_wallet_pct c) \<le> gi_pos_notional i
         \<and> (\<not> bc_inv_flat_require_profit c \<or> 0 < gi_unrealized i)
      then Some (decide i \<bar>gi_pos_size i\<bar> (bc_exit_taker c)
             (if bc_inv_flat_require_profit c then ''inventory cap (in profit)''
              else inventory_wallet_cap) CommitNone)
      else None)"

definition m_buying_power :: "decimal_ops \<Rightarrow> bagger_config \<Rightarrow> guard_input \<Rightarrow> flatten_decision option"
  where
  "m_buying_power D c i =
     (if 0 < bc_bp_flat_pct c \<and> 0 < gi_balance i \<and> 0 < gi_leverage i
         \<and> pct_of D (dmul D (gi_balance i) (gi_leverage i)) (bc_bp_flat_pct c) \<le> gi_pos_notional i
      then let qty = min (dmul D \<bar>gi_pos_size i\<bar> (bc_bp_flat_frac c)) \<bar>gi_pos_size i\<bar>
        in if 0 < qty then Some (decide i qty (bc_exit_taker c) ''buying-power cut'' CommitNone)
           else None
      else None)"

definition m_avg_tp :: "decimal_ops \<Rightarrow> bagger_config \<Rightarrow> guard_input \<Rightarrow> flatten_decision option" where
  "m_avg_tp D c i =
     (if 0 < bc_avg_tp_bps c \<and> 0 < gi_avg_price i \<and> 0 < gi_mark_price i
      then let bps = ddiv D (bc_avg_tp_bps c) 10000;
               hit = (if 0 < gi_pos_size i
                  then dmul D (gi_avg_price i) (dadd D 1 bps) \<le> gi_mark_price i
                  else gi_mark_price i \<le> dmul D (gi_avg_price i) (dsub D 1 bps));
               qty = min (dmul D \<bar>gi_pos_size i\<bar> (bc_avg_tp_frac c)) \<bar>gi_pos_size i\<bar>
        in if hit \<and> 0 < qty then Some (decide i qty False ''avg TP'' CommitNone) else None
      else None)"

definition m_pnl_flat :: "decimal_ops \<Rightarrow> bagger_config \<Rightarrow> guard_input \<Rightarrow> flatten_decision option" where
  "m_pnl_flat D c i =
     (if 0 < bc_pnl_flat_pct c \<and> 0 < gi_order_notional i
         \<and> pct_of D (gi_order_notional i) (bc_pnl_flat_pct c) \<le> \<bar>gi_unrealized i\<bar>
      then Some (decide i \<bar>gi_pos_size i\<bar> False ''pnl flat'' CommitNone) else None)"

definition m_wallet_bracket :: "decimal_ops \<Rightarrow> bagger_config \<Rightarrow> guard_input \<Rightarrow> flatten_decision option"
  where
  "m_wallet_bracket D c i =
     (if 0 < gi_balance i \<and> 0 < bc_wallet_flat_frac c
      then let qty = min (dmul D \<bar>gi_pos_size i\<bar> (bc_wallet_flat_frac c)) \<bar>gi_pos_size i\<bar>
        in if 0 < qty then
             if 0 < bc_wallet_tp_pct c \<and> pct_of D (gi_balance i) (bc_wallet_tp_pct c) \<le> gi_unrealized i
             then Some (decide i qty (bc_exit_taker c) ''wallet bracket TP'' CommitNone)
             else if 0 < bc_wallet_sl_pct c
                 \<and> gi_unrealized i \<le> - pct_of D (gi_balance i) (bc_wallet_sl_pct c)
             then Some (decide i qty (bc_exit_taker c) ''wallet bracket SL'' CommitNone)
             else None
           else None
      else None)"

definition m_giveback ::
    "decimal_ops \<Rightarrow> bagger_config \<Rightarrow> guard_input \<Rightarrow> bagger_state \<Rightarrow> flatten_decision option" where
  "m_giveback D c i s =
     (let mtm_equity = dadd D (gi_balance i) (gi_unrealized i)
      in if 0 < bc_equity_giveback_pct c \<and> 0 < bg_equity_high_water s
           \<and> mtm_equity \<le> dmul D (bg_equity_high_water s) (dsub D 1 (ddiv D (bc_equity_giveback_pct c) 100))
         then Some (decide i \<bar>gi_pos_size i\<bar> (bc_exit_taker c) ''equity giveback'' (GivebackRebase mtm_equity))
         else None)"

definition m_loss_lock ::
    "decimal_ops \<Rightarrow> bagger_config \<Rightarrow> guard_input \<Rightarrow> bagger_state \<Rightarrow> flatten_decision option" where
  "m_loss_lock D c i s =
     (let mtm_equity = dadd D (gi_balance i) (gi_unrealized i)
      in if 0 < bc_loss_lock_pct c \<and> 0 < bg_lock_snapshot s
           \<and> mtm_equity \<le> dmul D (bg_lock_snapshot s) (dsub D 1 (ddiv D (bc_loss_lock_pct c) 100))
         then Some (decide i \<bar>gi_pos_size i\<bar> (bc_exit_taker c) ''loss lock'' (LockSnapshot mtm_equity))
         else None)"

definition m_profit_lock ::
    "decimal_ops \<Rightarrow> bagger_config \<Rightarrow> guard_input \<Rightarrow> bagger_state \<Rightarrow> flatten_decision option" where
  "m_profit_lock D c i s =
     (let mtm_equity = dadd D (gi_balance i) (gi_unrealized i)
      in if 0 < bc_profit_lock_pct c \<and> 0 < bg_lock_snapshot s
           \<and> dmul D (bg_lock_snapshot s) (dadd D 1 (ddiv D (bc_profit_lock_pct c) 100)) \<le> mtm_equity
         then Some (decide i \<bar>gi_pos_size i\<bar> (bc_exit_taker c) ''profit lock'' (LockSnapshot mtm_equity))
         else None)"

definition size_gate_open :: "decimal_ops \<Rightarrow> bagger_config \<Rightarrow> guard_input \<Rightarrow> bool" where
  "size_gate_open D c i \<longleftrightarrow> 0 < bc_size_gate_pct c
     \<and> pct_of D (gi_balance i) (bc_size_gate_pct c) \<le> gi_pos_notional i"

definition m_size_cap :: "decimal_ops \<Rightarrow> bagger_config \<Rightarrow> guard_input \<Rightarrow> flatten_decision option" where
  "m_size_cap D c i =
     (let cap = pct_of D (gi_balance i) (bc_cap_pct c); full = \<bar>gi_pos_size i\<bar>
      in if 0 < bc_cap_pct c \<and> cap < gi_pos_notional i \<and> 0 < full
         then let qty = ddiv D (dmul D (dsub D (gi_pos_notional i) cap) full) (gi_pos_notional i)
           in if 0 < qty then Some (decide i (min qty full) (bc_exit_taker c) ''size cap trim'' CommitNone)
              else None
         else None)"

definition m_stop_loss ::
    "decimal_ops \<Rightarrow> bagger_config \<Rightarrow> guard_input \<Rightarrow> bagger_state \<Rightarrow> flatten_decision option" where
  "m_stop_loss D c i s =
     (if 0 < bc_sl_pct c \<and> gi_unrealized i \<le> - pct_of D (gi_balance i) (bc_sl_pct c)
      then let cut = (if 0 < bc_deteriorate_secs c
                 then sat_sub (gi_now_ns i) (bg_last_new_trough_ns s)
                        \<le> sat_mul (bc_deteriorate_secs c) 1000000000
                 else True)
        in if cut then Some (decide i \<bar>gi_pos_size i\<bar> (bc_exit_taker c)
               (if 0 < bc_deteriorate_secs c then ''deteriorating SL'' else ''hard SL'') CommitNone)
           else None
      else None)"

definition tp_qty :: "decimal_ops \<Rightarrow> bagger_config \<Rightarrow> guard_input \<Rightarrow> rat" where
  "tp_qty D c i = (if bc_flatten_full c then \<bar>gi_pos_size i\<bar> else ddiv D \<bar>gi_pos_size i\<bar> 2)"

definition m_trailing ::
    "decimal_ops \<Rightarrow> bagger_config \<Rightarrow> guard_input \<Rightarrow> bagger_state \<Rightarrow> flatten_decision option" where
  "m_trailing D c i s =
     (if 0 < bc_trail_pct c \<and> 0 < bg_peak_unrealized s
      then let lock_at = dmul D (bg_peak_unrealized s) (dsub D 1 (ddiv D (bc_trail_pct c) 100))
        in if 0 < lock_at \<and> gi_unrealized i \<le> lock_at
           then Some (decide i (tp_qty D c i) (bc_exit_taker c) ''trailing TP'' CommitNone) else None
      else None)"

definition m_fixed_tp :: "decimal_ops \<Rightarrow> bagger_config \<Rightarrow> guard_input \<Rightarrow> flatten_decision option" where
  "m_fixed_tp D c i =
     (if 0 < bc_fixed_tp_pct c \<and> pct_of D (gi_balance i) (bc_fixed_tp_pct c) \<le> gi_unrealized i
      then Some (decide i (tp_qty D c i) (bc_exit_taker c) ''fixed TP'' CommitNone) else None)"

fun first_some :: "'a option list \<Rightarrow> 'a option" where
  "first_some [] = None"
| "first_some (None # xs) = first_some xs"
| "first_some (Some x # xs) = Some x"

definition bag_mechanisms ::
    "decimal_ops \<Rightarrow> bagger_config \<Rightarrow> guard_input \<Rightarrow> bagger_state \<Rightarrow> flatten_decision option" where
  "bag_mechanisms D c i s =
     first_some [m_inventory_cap D c i, m_buying_power D c i, m_avg_tp D c i, m_pnl_flat D c i,
       m_wallet_bracket D c i, m_giveback D c i s, m_loss_lock D c i s, m_profit_lock D c i s,
       (if size_gate_open D c i
        then first_some [m_size_cap D c i, m_stop_loss D c i s, m_trailing D c i s, m_fixed_tp D c i]
        else None)]"

definition bagger_evaluate ::
    "decimal_ops \<Rightarrow> bagger_state \<Rightarrow> bagger_config \<Rightarrow> guard_input \<Rightarrow> bagger_state \<times> flatten_decision option"
  where
  "bagger_evaluate D s c i =
     (if \<not> bagger_enabled c then (s, None)
      else let s = bag_track D c i s
        in if pos_sign (gi_pos_size i) = 0 then (s, None)
           else (case bag_periodic D c i s of
               (s, Some d) \<Rightarrow> (s, Some d)
             | (s, None) \<Rightarrow> let s = bag_extremes i s in (s, bag_mechanisms D c i s)))"

end
