(* ===== verification/Runner_Guards.thy ===== *)
theory Runner_Guards
  imports Strategy_Api Bagger
begin

text \<open>
  The order-path guards of the paper and live runner, \<open>crates/tikr-paper/src/runner.rs\<close>: the
  trade-id deduplication of fill reconciliation, the rolling windows of liquidations and of
  fills, the worst-case inventory cap and the inventory size boost that every batch of actions
  passes through, and the backtest branch of the bagger step.

  Parameters: \<open>powd\<close> of the decimal package, and \<open>scale\<close>, the number of digits after the point
  that the representation of a size carries, which its value does not determine.  Events that
  a channel holds when it is drained are a list.  \<open>partition_point\<close> of the standard library
  is modelled where it is specified, on a list whose satisfying elements form a prefix.
\<close>

subsection \<open>Trade deduplication\<close>

record trade_dedup =
  td_seen :: "u64 set"
  td_order :: "(u64 \<times> u64) list"

definition dedup_new :: trade_dedup where
  "dedup_new = \<lparr>td_seen = {}, td_order = []\<rparr>"

definition dedup_insert :: "trade_dedup \<Rightarrow> u64 \<Rightarrow> u64 \<Rightarrow> trade_dedup \<times> bool" where
  "dedup_insert t trade_id ts_ms =
     (if trade_id \<in> td_seen t then (t, False)
      else (t\<lparr>td_seen := insert trade_id (td_seen t), td_order := td_order t @ [(ts_ms, trade_id)]\<rparr>, True))"

fun dedup_prune_loop :: "u64 \<Rightarrow> u64 set \<Rightarrow> (u64 \<times> u64) list \<Rightarrow> trade_dedup" where
  "dedup_prune_loop cutoff_ms seen [] = \<lparr>td_seen = seen, td_order = []\<rparr>"
| "dedup_prune_loop cutoff_ms seen ((ts, i) # rest) =
     (if cutoff_ms \<le> ts then \<lparr>td_seen = seen, td_order = (ts, i) # rest\<rparr>
      else dedup_prune_loop cutoff_ms (seen - {i}) rest)"

definition dedup_prune :: "trade_dedup \<Rightarrow> u64 \<Rightarrow> trade_dedup" where
  "dedup_prune t cutoff_ms = dedup_prune_loop cutoff_ms (td_seen t) (td_order t)"

subsection \<open>Rolling windows\<close>

record liq_window =
  lw_rx :: "liq_event list option"
  lw_buffer :: "liq_event list"
  lw_window_ns :: u64

definition liq_window_new :: "liq_event list option \<Rightarrow> u32 \<Rightarrow> liq_window" where
  "liq_window_new rx window_secs = \<lparr>lw_rx = rx, lw_buffer = [],
     lw_window_ns = sat_mul (ucast window_secs) 1000000000\<rparr>"

definition partition_point :: "('a \<Rightarrow> bool) \<Rightarrow> 'a list \<Rightarrow> nat" where
  "partition_point p xs = length (takeWhile p xs)"

definition liq_observe :: "liq_window \<Rightarrow> u64 \<Rightarrow> liq_window \<times> liq_event list" where
  "liq_observe w now_ns =
     (if lw_window_ns w = 0 then (w, [])
      else let buffer = lw_buffer w @ (case lw_rx w of Some evs \<Rightarrow> evs | None \<Rightarrow> []);
               cutoff = sat_sub now_ns (lw_window_ns w);
               buffer = dropWhile (\<lambda>e. le_ts e < cutoff) buffer;
               visible = partition_point (\<lambda>e. le_ts e \<le> now_ns) buffer
        in (w\<lparr>lw_rx := map_option (\<lambda>_. []) (lw_rx w), lw_buffer := buffer\<rparr>, take visible buffer))"

record fill_rate_tracker =
  fr_window :: "u64 list"
  fr_peak_per_min :: u64

definition fill_rate_new :: fill_rate_tracker where
  "fill_rate_new = \<lparr>fr_window = [], fr_peak_per_min = 0\<rparr>"

definition fill_rate_observe :: "fill_rate_tracker \<Rightarrow> u64 \<Rightarrow> fill_rate_tracker" where
  "fill_rate_observe r ts_ns =
     (let cutoff = sat_sub ts_ns (60 * 1000000000);
          window = dropWhile (\<lambda>t. t < cutoff) (fr_window r @ [ts_ns]);
          n = word_of_nat (length window)
      in r\<lparr>fr_window := window,
           fr_peak_per_min := (if fr_peak_per_min r < n then n else fr_peak_per_min r)\<rparr>)"

subsection \<open>Placement guards\<close>

definition snapshot_mid :: "decimal_ops \<Rightarrow> snapshot \<Rightarrow> rat option" where
  "snapshot_mid D book = (case first_opt (sn_bids book) of None \<Rightarrow> None
     | Some b \<Rightarrow> (case first_opt (sn_asks book) of None \<Rightarrow> None
       | Some a \<Rightarrow> Some (ddiv D (dadd D (lv_price b) (lv_price a)) 2)))"

definition record_side_failure ::
    "side \<Rightarrow> u32 \<times> u32 \<Rightarrow> (string \<rightharpoonup> u64) \<Rightarrow> string \<Rightarrow> u64 \<Rightarrow> (u32 \<times> u32) \<times> (string \<rightharpoonup> u64)" where
  "record_side_failure sd state side_fails_last symbol_key now =
     ((case sd of Bid \<Rightarrow> (fst state + 1, snd state) | Ask \<Rightarrow> (fst state, snd state + 1)),
      side_fails_last(symbol_key \<mapsto> now))"

definition cap_breaches :: "decimal_ops \<Rightarrow> rat \<Rightarrow> rat \<Rightarrow> rat \<Rightarrow> rat \<Rightarrow> side \<Rightarrow> rat \<Rightarrow> bool" where
  "cap_breaches D pos resting_bid resting_ask cap sd n \<longleftrightarrow> (case sd of
     Bid \<Rightarrow> cap < dadd D (dadd D pos resting_bid) n
   | Ask \<Rightarrow> dsub D (dsub D pos resting_ask) n < - cap)"

fun inventory_cap_loop ::
    "decimal_ops \<Rightarrow> rat \<Rightarrow> rat \<Rightarrow> rat \<Rightarrow> rat \<Rightarrow> action list \<Rightarrow> action list" where
  "inventory_cap_loop D pos cap resting_bid resting_ask [] = []"
| "inventory_cap_loop D pos cap resting_bid resting_ask (a # as) =
     (case a of
        Quote q \<Rightarrow> (let n = dmul D (qi_price q) (qi_size q)
          in if cap_breaches D pos resting_bid resting_ask cap (qi_side q) n
             then inventory_cap_loop D pos cap resting_bid resting_ask as
             else a # (case qi_side q of
                 Bid \<Rightarrow> inventory_cap_loop D pos cap (dadd D resting_bid n) resting_ask as
               | Ask \<Rightarrow> inventory_cap_loop D pos cap resting_bid (dadd D resting_ask n) as))
      | _ \<Rightarrow> a # inventory_cap_loop D pos cap resting_bid resting_ask as)"

definition apply_bot_inventory_cap ::
    "decimal_ops \<Rightarrow> action list \<Rightarrow> rat \<Rightarrow> rat \<Rightarrow> rat \<Rightarrow> rat \<Rightarrow> action list" where
  "apply_bot_inventory_cap D actions pos resting_bid resting_ask cap =
     (if cap \<le> 0 then actions else inventory_cap_loop D pos cap resting_bid resting_ask actions)"

subsection \<open>The inventory size boost\<close>

record boost_config =
  ib_max_boost_pct :: rat
  ib_curve_exponent :: rat
  ib_chase :: bool
  ib_profit_gated :: bool
  ib_profit_full_bps :: rat
  ib_add_boost_pct :: rat
  ib_add_full_bps :: rat

definition boost_side :: "rat \<Rightarrow> bool \<Rightarrow> side option" where
  "boost_side pos chase =
     (if 0 < pos then Some (if chase then Bid else Ask)
      else if pos < 0 then Some (if chase then Ask else Bid) else None)"

definition boost_curve :: "(rat \<Rightarrow> rat \<Rightarrow> rat) \<Rightarrow> boost_config \<Rightarrow> rat \<Rightarrow> rat" where
  "boost_curve powd cfg r =
     (let e = (if 0 < ib_curve_exponent cfg then ib_curve_exponent cfg else 1)
      in if e = 1 then r else powd r e)"

definition boost_size :: "decimal_ops \<Rightarrow> (qsize \<Rightarrow> nat) \<Rightarrow> rat \<Rightarrow> quote_intent \<Rightarrow> quote_intent" where
  "boost_size D scale mult q =
     (let boosted = round_dp D (dmul D (qi_size q) mult) (scale (qi_size q))
      in if qi_size q < boosted then q\<lparr>qi_size := boosted\<rparr> else q)"

definition boost_gated ::
    "decimal_ops \<Rightarrow> (rat \<Rightarrow> rat \<Rightarrow> rat) \<Rightarrow> (qsize \<Rightarrow> nat) \<Rightarrow> boost_config \<Rightarrow> side \<Rightarrow> price
      \<Rightarrow> quote_intent \<Rightarrow> quote_intent" where
  "boost_gated D powd scale cfg bside avg_price q =
     (let reduce_on = (0 < ib_max_boost_pct cfg \<and> 0 < ib_profit_full_bps cfg);
          add_on = (0 < ib_add_boost_pct cfg \<and> 0 < ib_add_full_bps cfg)
      in case (if qi_side q = bside \<and> reduce_on then Some (ib_max_boost_pct cfg, ib_profit_full_bps cfg)
               else if qi_side q \<noteq> bside \<and> add_on then Some (ib_add_boost_pct cfg, ib_add_full_bps cfg)
               else None) of
           None \<Rightarrow> q
         | Some (pct, full) \<Rightarrow>
             let dist_bps = (case qi_side q of
                   Ask \<Rightarrow> dmul D (ddiv D (dsub D (qi_price q) avg_price) avg_price) 10000
                 | Bid \<Rightarrow> dmul D (ddiv D (dsub D avg_price (qi_price q)) avg_price) 10000)
             in if dist_bps \<le> 0 then q
                else let ratio = min (ddiv D dist_bps full) 1;
                         mult = dadd D 1 (dmul D (ddiv D pct 100) (boost_curve powd cfg ratio))
                  in if 1 < mult then boost_size D scale mult q else q)"

definition map_quotes :: "(quote_intent \<Rightarrow> quote_intent) \<Rightarrow> action list \<Rightarrow> action list" where
  "map_quotes f actions = map (\<lambda>a. case a of Quote q \<Rightarrow> Quote (f q) | _ \<Rightarrow> a) actions"

definition apply_inventory_size_boost ::
    "decimal_ops \<Rightarrow> (rat \<Rightarrow> rat \<Rightarrow> rat) \<Rightarrow> (qsize \<Rightarrow> nat) \<Rightarrow> action list \<Rightarrow> rat \<Rightarrow> rat \<Rightarrow> price
      \<Rightarrow> boost_config \<Rightarrow> action list" where
  "apply_inventory_size_boost D powd scale actions pos cap avg_price cfg =
     (if ib_max_boost_pct cfg \<le> 0 then actions
      else case boost_side pos (ib_chase cfg) of None \<Rightarrow> actions
      | Some bside \<Rightarrow>
        if ib_profit_gated cfg \<and> \<not> ib_chase cfg then
          let reduce_on = (0 < ib_max_boost_pct cfg \<and> 0 < ib_profit_full_bps cfg);
              add_on = (0 < ib_add_boost_pct cfg \<and> 0 < ib_add_full_bps cfg)
          in if avg_price \<le> 0 \<or> (\<not> reduce_on \<and> \<not> add_on) then actions
             else map_quotes (boost_gated D powd scale cfg bside avg_price) actions
        else if cap \<le> 0 then actions
        else let ratio = min (ddiv D \<bar>pos\<bar> cap) 1;
                 mult = dadd D 1 (dmul D (ddiv D (ib_max_boost_pct cfg) 100) (boost_curve powd cfg ratio))
          in if mult \<le> 1 then actions
             else map_quotes (\<lambda>q. if qi_side q = bside then boost_size D scale mult q else q) actions)"

text \<open>Both guards, in the order of the event loop; the position is valued at its entry price.\<close>

definition guard_actions ::
    "decimal_ops \<Rightarrow> (rat \<Rightarrow> rat \<Rightarrow> rat) \<Rightarrow> (qsize \<Rightarrow> nat) \<Rightarrow> boost_config option \<Rightarrow> position \<Rightarrow> price
      \<Rightarrow> rat \<Rightarrow> rat \<Rightarrow> rat \<Rightarrow> action list \<Rightarrow> action list" where
  "guard_actions D powd scale boost pos mark_price resting_bid resting_ask current_max_position actions =
     (let cap_price = (if 0 < p_avg_entry pos then p_avg_entry pos else mark_price);
          signed_pos_notional = dmul D (p_size pos) cap_price;
          actions = (case boost of
            Some cfg \<Rightarrow> apply_inventory_size_boost D powd scale actions signed_pos_notional
              current_max_position (p_avg_entry pos) cfg
          | None \<Rightarrow> actions)
      in apply_bot_inventory_cap D actions signed_pos_notional resting_bid resting_ask
           current_max_position)"

subsection \<open>The bagger step of a backtest\<close>

definition bagger_cooldown_ns :: u64 where
  "bagger_cooldown_ns = 10000000000"

record bag_runner =
  br_state :: bagger_state
  br_last_flatten_ns :: u64
  br_flattens :: u64

record bag_env =
  be_config :: bagger_config
  be_leverage :: rat
  be_balance :: rat
  be_order_notional :: rat
  be_taker_bps :: rat
  be_maker_bps :: rat
  be_symbol :: symbol
  be_fill_id :: quote_id

definition bag_input :: "decimal_ops \<Rightarrow> bag_env \<Rightarrow> position \<Rightarrow> price \<Rightarrow> u64 \<Rightarrow> guard_input" where
  "bag_input D e pos mark ts = \<lparr>gi_pos_size = p_size pos, gi_pos_notional = dmul D \<bar>p_size pos\<bar> mark,
     gi_unrealized = (if 0 < p_avg_entry pos then dmul D (dsub D mark (p_avg_entry pos)) (p_size pos) else 0),
     gi_balance = be_balance e, gi_leverage = be_leverage e, gi_avg_price = p_avg_entry pos,
     gi_mark_price = mark, gi_order_notional = be_order_notional e, gi_now_ns = ts\<rparr>"

definition bag_price ::
    "decimal_ops \<Rightarrow> bag_env \<Rightarrow> position \<Rightarrow> snapshot \<Rightarrow> flatten_decision \<Rightarrow> price option" where
  "bag_price D e pos book d =
     (let bps = ddiv D (bc_avg_tp_bps (be_config e)) 10000; avg = p_avg_entry pos;
          bid = map_option lv_price (first_opt (sn_bids book));
          ask = map_option lv_price (first_opt (sn_asks book))
      in if fd_reason d = ''avg TP'' \<and> 0 < avg
         then Some (if 0 < p_size pos then dmul D avg (dadd D 1 bps) else dmul D avg (dsub D 1 bps))
         else (case fd_side d of
             Ask \<Rightarrow> (if fd_taker d then bid else ask)
           | Bid \<Rightarrow> (if fd_taker d then ask else bid)))"

definition bag_fill ::
    "decimal_ops \<Rightarrow> bag_env \<Rightarrow> flatten_decision \<Rightarrow> price \<Rightarrow> rat \<Rightarrow> u64 \<Rightarrow> fill" where
  "bag_fill D e d px qty ts =
     (let fee_bps = (if fd_taker d then be_taker_bps e else be_maker_bps e);
          notional = round_dp D (dmul D px qty) 8;
          fee = round_dp D (ddiv D (dmul D notional fee_bps) 10000) 8
      in \<lparr>f_quote_id = be_fill_id e, f_price = px, f_size = qty, f_fee_asset = sy_quote (be_symbol e),
          f_fee_amount = fee, f_fee_quote = fee, f_side = fd_side d, f_ts = ts, f_is_full = True,
          f_trade_id = None\<rparr>)"

text \<open>The step returns the fill to apply and whether the resting orders are dropped with it.\<close>

definition bagger_tick ::
    "decimal_ops \<Rightarrow> bag_env \<Rightarrow> bag_runner \<Rightarrow> position \<Rightarrow> snapshot \<Rightarrow> price \<Rightarrow> u64
      \<Rightarrow> bag_runner \<times> (fill \<times> bool) option" where
  "bagger_tick D e r pos book mark ts =
     (if \<not> bagger_enabled (be_config e) \<or> mark \<le> 0 \<or> p_size pos = 0 then (r, None)
      else case bagger_evaluate D (br_state r) (be_config e) (bag_input D e pos mark ts) of
        (s, None) \<Rightarrow> (r\<lparr>br_state := s\<rparr>, None)
      | (s, Some d) \<Rightarrow>
          let r = r\<lparr>br_state := s\<rparr>; qty = min (fd_qty d) \<bar>p_size pos\<bar>;
              full_flatten = (\<bar>p_size pos\<bar> \<le> qty)
          in (case bag_price D e pos book d of None \<Rightarrow> (r, None)
            | Some px \<Rightarrow>
                if 0 < qty \<and> bagger_cooldown_ns \<le> sat_sub ts (br_last_flatten_ns r) \<and> 0 < px
                then (r\<lparr>br_last_flatten_ns := ts, br_flattens := sat_add (br_flattens r) 1,
                        br_state := bagger_commit s (fd_commit d)\<rparr>,
                      Some (bag_fill D e d px qty ts, full_flatten))
                else (r, None)))"

end
