(* ===== verification/Bagger_Laws.thy ===== *)
theory Bagger_Laws
  imports Bagger
begin

text \<open>
  What the bagger guarantees: a decision only ever reduces the position, one that the runner
  discards is made again, and one that it commits does not fire again on the same equity.
\<close>

subsection \<open>A decision stands until it is committed\<close>

definition tracked :: "decimal_ops \<Rightarrow> bagger_config \<Rightarrow> guard_input \<Rightarrow> bagger_state \<Rightarrow> bool" where
  "tracked D c i s \<longleftrightarrow> bg_last_sign s = pos_sign (gi_pos_size i)
     \<and> dadd D (gi_balance i) (gi_unrealized i) \<le> bg_equity_high_water s
     \<and> \<not> ((0 < bc_profit_lock_pct c \<or> 0 < bc_loss_lock_pct c) \<and> bg_lock_snapshot s = 0
          \<and> 0 < dadd D (gi_balance i) (gi_unrealized i))"

lemma tracked_track: "tracked D c i (bag_track D c i s)"
  by (auto simp: tracked_def bag_track_def Let_def)

lemma track_tracked: "tracked D c i s \<Longrightarrow> bag_track D c i s = s"
  by (auto simp: tracked_def bag_track_def Let_def)

lemma tracked_periodic: "bag_periodic D c i s = (s', d) \<Longrightarrow> tracked D c i s \<Longrightarrow> tracked D c i s'"
  by (auto simp: bag_periodic_def tracked_def Let_def split: if_splits)

lemma tracked_extremes: "tracked D c i s \<Longrightarrow> tracked D c i (bag_extremes i s)"
  by (auto simp: bag_extremes_def tracked_def Let_def)

lemma extremes_idem: "bag_extremes i (bag_extremes i s) = bag_extremes i s"
  by (auto simp: bag_extremes_def Let_def)

lemma periodic_fires: "bag_periodic D c i s = (s', Some d) \<Longrightarrow> s' = s"
  by (auto simp: bag_periodic_def Let_def split: if_splits)

lemma interval_pos: "0 < secs \<Longrightarrow> sat_mul secs 1000000000 \<noteq> (0 :: u64)"
proof -
  assume "0 < secs"
  then have "0 < unat secs" by (simp add: unat_gt_0)
  then have "0 < unat (sat_mul secs 1000000000)" by (simp add: unat_sat_mul)
  then show ?thesis by (simp add: unat_gt_0)
qed

lemma periodic_quiet:
  assumes "bag_periodic D c i s = (s', None)"
  shows "bag_periodic D c i (bag_extremes i s') = (bag_extremes i s', None)"
proof -
  have timer: "bg_last_periodic_flatten_ns (bag_extremes i t) = bg_last_periodic_flatten_ns t"
      "bag_extremes i (t\<lparr>bg_last_periodic_flatten_ns := v\<rparr>)
        = (bag_extremes i t)\<lparr>bg_last_periodic_flatten_ns := v\<rparr>" for t v
    by (simp_all add: bag_extremes_def Let_def)
  have zero: "sat_sub t t = 0" for t by (simp add: sat_sub_def)
  show ?thesis
    using assms
    by (auto simp: bag_periodic_def Let_def timer zero interval_pos split: if_splits)
qed

text \<open>
  A decision that the runner discards is not lost: evaluating the bagger again on the same
  input, with nothing committed, gives the same decision and leaves the state as it is, since
  the timer, the lock snapshot and the high water are only stamped by a commit.
\<close>

theorem bagger_evaluate_stable:
  "bagger_evaluate D (fst (bagger_evaluate D s c i)) c i = bagger_evaluate D s c i"
proof -
  obtain s2 d where p: "bag_periodic D c i (bag_track D c i s) = (s2, d)" by fastforce
  have t2: "tracked D c i s2" by (rule tracked_periodic [OF p tracked_track])
  show ?thesis
  proof (cases "bagger_enabled c \<and> pos_sign (gi_pos_size i) \<noteq> 0")
    case False
    then show ?thesis
      by (auto simp: bagger_evaluate_def track_tracked [OF tracked_track])
  next
    case True
    then show ?thesis
    proof (cases d)
      case None
      have "bag_track D c i (bag_extremes i s2) = bag_extremes i s2"
        by (rule track_tracked [OF tracked_extremes [OF t2]])
      with True p None periodic_quiet [of D c i "bag_track D c i s" s2] show ?thesis
        by (simp add: bagger_evaluate_def Let_def extremes_idem)
    next
      case (Some x)
      with p periodic_fires have "s2 = bag_track D c i s" by blast
      with True p Some show ?thesis
        by (simp add: bagger_evaluate_def Let_def track_tracked [OF tracked_track])
    qed
  qed
qed

subsection \<open>A decision only reduces\<close>

lemma first_some_all:
  "first_some xs = Some d \<Longrightarrow> list_all (pred_option P) xs \<Longrightarrow> P d"
  by (induction xs rule: first_some.induct) auto

lemma first_some_pred: "list_all (pred_option P) xs \<Longrightarrow> pred_option P (first_some xs)"
  by (induction xs rule: first_some.induct) auto

definition reduces :: "guard_input \<Rightarrow> flatten_decision \<Rightarrow> bool" where
  "reduces i d \<longleftrightarrow> 0 < fd_qty d \<and> fd_qty d \<le> \<bar>gi_pos_size i\<bar> \<and> fd_side d = reducing_side (gi_pos_size i)"

lemma decide_reduces:
  "0 < qty \<Longrightarrow> qty \<le> \<bar>gi_pos_size i\<bar> \<Longrightarrow> reduces i (decide i qty taker reason commit)"
  by (simp add: reduces_def decide_def)

lemma tp_qty_bounds:
  assumes "decimal_arith D" "gi_pos_size i \<noteq> 0" "fits (\<bar>gi_pos_size i\<bar> / 2)"
  shows "0 < tp_qty D c i \<and> tp_qty D c i \<le> \<bar>gi_pos_size i\<bar>"
  using assms decimal_arith.div_fits [OF assms(1), of 2 "\<bar>gi_pos_size i\<bar>"]
  by (auto simp: tp_qty_def)

lemmas mechanism_defs = m_inventory_cap_def m_buying_power_def m_avg_tp_def m_pnl_flat_def
  m_wallet_bracket_def m_giveback_def m_loss_lock_def m_profit_lock_def m_size_cap_def
  m_stop_loss_def m_trailing_def m_fixed_tp_def

lemma mechanisms_reduce:
  assumes D: "decimal_arith D" and pos: "gi_pos_size i \<noteq> 0" and half: "fits (\<bar>gi_pos_size i\<bar> / 2)"
    and d: "bag_mechanisms D c i s = Some d"
  shows "reduces i d"
proof -
  note tp = tp_qty_bounds [OF D pos half, of c]
  have each: "pred_option (reduces i) (m_inventory_cap D c i)" "pred_option (reduces i) (m_buying_power D c i)"
    "pred_option (reduces i) (m_avg_tp D c i)" "pred_option (reduces i) (m_pnl_flat D c i)"
    "pred_option (reduces i) (m_wallet_bracket D c i)" "pred_option (reduces i) (m_giveback D c i s)"
    "pred_option (reduces i) (m_loss_lock D c i s)" "pred_option (reduces i) (m_profit_lock D c i s)"
    "pred_option (reduces i) (m_size_cap D c i)" "pred_option (reduces i) (m_stop_loss D c i s)"
    "pred_option (reduces i) (m_trailing D c i s)" "pred_option (reduces i) (m_fixed_tp D c i)"
    using pos tp by (auto simp: mechanism_defs Let_def intro!: decide_reduces)
  show ?thesis
    by (rule first_some_all [OF d [unfolded bag_mechanisms_def]])
      (simp add: each first_some_pred)
qed

lemma evaluate_reduces:
  assumes D: "decimal_arith D" and half: "fits (\<bar>gi_pos_size i\<bar> / 2)"
    and e: "bagger_evaluate D s c i = (s', Some d)"
  shows "gi_pos_size i \<noteq> 0 \<and> reduces i d"
proof -
  have pos: "gi_pos_size i \<noteq> 0"
    using e by (auto simp: bagger_evaluate_def pos_sign_def Let_def split: if_splits)
  obtain s2 d2 where p: "bag_periodic D c i (bag_track D c i s) = (s2, d2)" by fastforce
  show ?thesis
  proof (cases d2)
    case None
    with e p pos have "bag_mechanisms D c i (bag_extremes i s2) = Some d"
      by (auto simp: bagger_evaluate_def Let_def split: if_splits)
    with mechanisms_reduce [OF D pos half] pos show ?thesis by blast
  next
    case (Some x)
    with e p have "bag_periodic D c i (bag_track D c i s) = (s2, Some d)"
      by (auto simp: bagger_evaluate_def Let_def split: if_splits)
    then show ?thesis using pos
      by (auto simp: bag_periodic_def Let_def intro!: decide_reduces split: if_splits)
  qed
qed

text \<open>
  Every decision reduces: whichever mechanism fires, the quantity is positive and at most
  the position and the side is the reducing one, so executing it in full brings the position
  closer to zero and never past it.
\<close>

theorem bagger_only_reduces:
  assumes "decimal_arith D" "fits (\<bar>gi_pos_size i\<bar> / 2)"
    and "bagger_evaluate D s c i = (s', Some d)"
  shows "0 < fd_qty d \<and> fd_qty d \<le> \<bar>gi_pos_size i\<bar>
    \<and> \<bar>gi_pos_size i + side_delta (fd_side d) (fd_qty d)\<bar> = \<bar>gi_pos_size i\<bar> - fd_qty d"
  using evaluate_reduces [OF assms] by (auto simp: reduces_def reducing_side_def)

subsection \<open>A committed decision does not fire again\<close>

text \<open>A percentage band around an equity that is wide enough for the arithmetic to see it.\<close>

definition band_ok :: "rat \<Rightarrow> rat \<Rightarrow> bool" where
  "band_ok e p \<longleftrightarrow> p \<le> 0 \<or> fits (p / 100) \<and> fits (1 - p / 100) \<and> fits (1 + p / 100)
     \<and> 0 < e \<and> e * (1 + p / 100) \<le> 10 ^ 18 \<and> 1 / 10 ^ 10 < e * (p / 100)"

lemma band_separates:
  assumes D: "decimal_arith D" and b: "band_ok e p" "0 < p"
  shows "dmul D e (dsub D 1 (ddiv D p 100)) < e \<and> e < dmul D e (dadd D 1 (ddiv D p 100))"
proof -
  let ?q = "p / 100"
  have o: "fits ?q" "fits (1 - ?q)" "fits (1 + ?q)" "0 < e" "e * (1 + ?q) \<le> 10 ^ 18" "1 / 10 ^ 10 < e * ?q"
    using b by (auto simp: band_ok_def)
  have d: "ddiv D p 100 = ?q" using decimal_arith.div_fits [OF D, of 100 p] o(1) by simp
  have e: "dsub D 1 ?q = 1 - ?q" "dadd D 1 ?q = 1 + ?q"
    using decimal_arith.sub_fits [OF D] decimal_arith.add_fits [OF D] o by blast+
  define x where "x = e * ?q"
  have s: "e * (1 - ?q) = e - x" "e * (1 + ?q) = e + x" by (simp_all add: x_def algebra_simps)
  have x: "1 / 10 ^ 10 < x" "0 < x" using o(6) by (simp_all add: x_def)
  then have "\<bar>e - x\<bar> \<le> 10 ^ 18" "\<bar>e + x\<bar> \<le> 10 ^ 18"
    using o(4,5) unfolding s by linarith+
  with decimal_arith.mul_near [OF D, of e "1 - ?q"] decimal_arith.mul_near [OF D, of e "1 + ?q"]
  have "\<bar>dmul D e (1 - ?q) - (e - x)\<bar> \<le> 1 / (2 * 10 ^ 10)"
    "\<bar>dmul D e (1 + ?q) - (e + x)\<bar> \<le> 1 / (2 * 10 ^ 10)" by (simp_all add: s)
  with x(1) show ?thesis unfolding d e by (simp add: abs_if split: if_splits)
qed

abbreviation quiet :: "flatten_decision option \<Rightarrow> bool" where
  "quiet \<equiv> pred_option (\<lambda>d. fd_commit d = CommitNone)"

lemma quiet_mechanisms:
  "quiet (m_inventory_cap D c i)" "quiet (m_buying_power D c i)" "quiet (m_avg_tp D c i)"
  "quiet (m_pnl_flat D c i)" "quiet (m_wallet_bracket D c i)" "quiet (m_size_cap D c i)"
  "quiet (m_stop_loss D c i s)" "quiet (m_trailing D c i s)" "quiet (m_fixed_tp D c i)"
  by (simp_all add: mechanism_defs decide_def Let_def)

lemma commit_source:
  assumes d: "bag_mechanisms D c i s = Some d"
  shows "fd_commit d = CommitNone \<or> m_giveback D c i s = Some d \<or> m_loss_lock D c i s = Some d
    \<or> m_profit_lock D c i s = Some d"
proof -
  let ?P = "\<lambda>d. fd_commit d = CommitNone \<or> m_giveback D c i s = Some d \<or> m_loss_lock D c i s = Some d
    \<or> m_profit_lock D c i s = Some d"
  have q: "pred_option ?P x" if "quiet x" for x
    using that by (cases x) auto
  have m: "pred_option ?P (m_giveback D c i s)" "pred_option ?P (m_loss_lock D c i s)"
    "pred_option ?P (m_profit_lock D c i s)" by (auto simp: pred_option_def)
  show ?thesis
    by (rule first_some_all [OF d [unfolded bag_mechanisms_def]])
      (simp only: list.pred_inject option.pred_inject first_some_pred m q [OF quiet_mechanisms(1)]
        q [OF quiet_mechanisms(2)] q [OF quiet_mechanisms(3)] q [OF quiet_mechanisms(4)]
        q [OF quiet_mechanisms(5)] q [OF quiet_mechanisms(6)] q [OF quiet_mechanisms(7)]
        q [OF quiet_mechanisms(8)] q [OF quiet_mechanisms(9)] simp_thms split: if_split)
qed

text \<open>A decision comes from the timer or from a mechanism, on a state whose snapshot and high
  water are those that \<open>bag_track\<close> leaves.\<close>

lemma evaluate_source:
  assumes "bagger_evaluate D s c i = (s', Some d)"
  shows "fd_commit d = PeriodicTimer (gi_now_ns i)
    \<or> (\<exists>s2. bag_mechanisms D c i s2 = Some d
        \<and> bg_lock_snapshot s2 = bg_lock_snapshot (bag_track D c i s)
        \<and> bg_equity_high_water s2 = bg_equity_high_water (bag_track D c i s))"
proof -
  obtain s1 d1 where p: "bag_periodic D c i (bag_track D c i s) = (s1, d1)" by fastforce
  show ?thesis
  proof (cases d1)
    case (Some x)
    with p assms have "d = x" by (auto simp: bagger_evaluate_def Let_def split: if_splits)
    with p Some show ?thesis by (auto simp: bag_periodic_def Let_def decide_def split: if_splits)
  next
    case None
    with assms p have "bag_mechanisms D c i (bag_extremes i s1) = Some d"
      by (auto simp: bagger_evaluate_def Let_def split: if_splits)
    moreover have "bg_lock_snapshot (bag_extremes i s1) = bg_lock_snapshot (bag_track D c i s)"
      "bg_equity_high_water (bag_extremes i s1) = bg_equity_high_water (bag_track D c i s)"
      using p by (auto simp: bag_extremes_def bag_periodic_def Let_def split: if_splits)
    ultimately show ?thesis by blast
  qed
qed

lemma commit_equity:
  assumes "bagger_evaluate D s c i = (s', Some d)"
    "fd_commit d = LockSnapshot x \<or> fd_commit d = GivebackRebase x"
  shows "x = dadd D (gi_balance i) (gi_unrealized i)"
  using evaluate_source [OF assms(1)] assms(2)
  by (auto dest!: commit_source simp: m_loss_lock_def m_profit_lock_def m_giveback_def Let_def
      decide_def split: if_splits)

lemma evaluate_tracked: "bagger_evaluate D s c i = (s', Some d) \<Longrightarrow> tracked D c i s'"
  by (auto simp: bagger_evaluate_def Let_def split: if_splits prod.splits option.splits
      dest: tracked_periodic [OF _ tracked_track] intro: tracked_extremes)

text \<open>
  The ratchets are one-shot: after a lock or giveback decision has been committed, the same
  input fires neither lock, or not the giveback, again, however the arithmetic rounds, as long
  as the percentage bands are wider than its precision.
\<close>

theorem bagger_commit_rearms:
  assumes D: "decimal_arith D" and e: "bagger_evaluate D s c i = (s', Some d)"
    and k: "fd_commit d = LockSnapshot x \<or> fd_commit d = GivebackRebase x" and x: "x \<noteq> 0"
    and bands: "band_ok x (bc_loss_lock_pct c)" "band_ok x (bc_profit_lock_pct c)"
      "band_ok x (bc_equity_giveback_pct c)"
    and e2: "bagger_evaluate D (bagger_commit s' (fd_commit d)) c i = (s2, Some d2)"
  shows "(case fd_commit d of LockSnapshot y \<Rightarrow> (\<forall>z. fd_commit d2 \<noteq> LockSnapshot z)
    | GivebackRebase y \<Rightarrow> (\<forall>z. fd_commit d2 \<noteq> GivebackRebase z) | _ \<Rightarrow> True)"
proof -
  have eq: "x = dadd D (gi_balance i) (gi_unrealized i)" by (rule commit_equity [OF e k])
  note t = evaluate_tracked [OF e]
  let ?s = "bagger_commit s' (fd_commit d)"
  have "tracked D c i ?s" using t k x eq by (auto simp: tracked_def bagger_commit_def)
  then have keep: "bag_track D c i ?s = ?s" by (rule track_tracked)
  from evaluate_source [OF e2] consider "fd_commit d2 = PeriodicTimer (gi_now_ns i)"
    | s3 where "bag_mechanisms D c i s3 = Some d2" "bg_lock_snapshot s3 = bg_lock_snapshot ?s"
      "bg_equity_high_water s3 = bg_equity_high_water ?s"
    by (auto simp: keep)
  then show ?thesis
  proof cases
    case 1
    with k show ?thesis by auto
  next
    case 2
    note src = commit_source [OF 2(1)]
    have sep: "0 < p \<Longrightarrow> band_ok x p \<Longrightarrow> \<not> x \<le> dmul D x (dsub D 1 (ddiv D p 100))
        \<and> \<not> dmul D x (dadd D 1 (ddiv D p 100)) \<le> x" for p
      using band_separates [OF D] by fastforce
    show ?thesis
    proof (cases "fd_commit d")
      case (LockSnapshot y)
      with k 2 have "bg_lock_snapshot s3 = x" by (auto simp: bagger_commit_def)
      with sep [OF _ bands(1)] sep [OF _ bands(2)] have "m_loss_lock D c i s3 = None" "m_profit_lock D c i s3 = None"
        by (auto simp: m_loss_lock_def m_profit_lock_def Let_def eq [symmetric])
      with src LockSnapshot show ?thesis by (auto simp: m_giveback_def Let_def decide_def split: if_splits)
    next
      case (GivebackRebase y)
      with k 2 have "bg_equity_high_water s3 = x" by (auto simp: bagger_commit_def)
      with sep [OF _ bands(3)] have "m_giveback D c i s3 = None"
        by (auto simp: m_giveback_def Let_def eq [symmetric])
      with src GivebackRebase show ?thesis
        by (auto simp: m_loss_lock_def m_profit_lock_def Let_def decide_def split: if_splits)
    qed (use k in auto)
  qed
qed

subsection \<open>Runs\<close>

definition eg_bagger :: bagger_config where
  "eg_bagger = bagger_default\<lparr>bc_profit_lock_pct := 2\<rparr>"

definition eg_guard :: "rat \<Rightarrow> rat \<Rightarrow> u64 \<Rightarrow> guard_input" where
  "eg_guard pos unrealized now = \<lparr>gi_pos_size = pos, gi_pos_notional = \<bar>pos\<bar> * 100,
     gi_unrealized = unrealized, gi_balance = 1000, gi_leverage = 1, gi_avg_price = 100,
     gi_mark_price = 100, gi_order_notional = 0, gi_now_ns = now\<rparr>"

lemmas bagger_eval = eg_bagger_def eg_guard_def bagger_default_def bagger_init_def
  bagger_evaluate_def bagger_enabled_def bag_track_def pos_sign_def bag_periodic_def
  bag_extremes_def bag_mechanisms_def mechanism_defs size_gate_open_def pct_of_def tp_qty_def
  decide_def reducing_side_def bagger_commit_def Let_def

lemma eg_lock: "bagger_evaluate exact_decimal (bagger_init\<lparr>bg_lock_snapshot := 1000\<rparr>) eg_bagger (eg_guard 5 50 9)
    = (bagger_init\<lparr>bg_lock_snapshot := 1000, bg_last_new_trough_ns := 9, bg_last_sign := 1,
         bg_equity_high_water := 1050, bg_peak_unrealized := 50\<rparr>,
       Some \<lparr>fd_qty = 5, fd_side = Ask, fd_taker = True, fd_reason = ''profit lock'',
         fd_commit = LockSnapshot 1050\<rparr>)"
  by (simp add: bagger_eval)

lemma fits_five_halves: "fits (5 / 2)"
  by (rule fitsI [of 1], rule fits_atI [of _ _ 25]) simp_all

lemma bagger_only_reduces_witness:
  "\<bar>5 + side_delta Ask 5\<bar> = 5 - (5 :: rat)"
  using bagger_only_reduces [OF exact.decimal_arith_axioms _ eg_lock] fits_five_halves
  by (simp add: eg_guard_def)

lemma bagger_commit_rearms_witness:
  "snd (bagger_evaluate exact_decimal (bagger_commit (fst (bagger_evaluate exact_decimal
     (bagger_init\<lparr>bg_lock_snapshot := 1000\<rparr>) (eg_bagger\<lparr>bc_cap_pct := 1, bc_size_gate_pct := 1\<rparr>)
     (eg_guard 5 50 9))) (LockSnapshot 1050)) (eg_bagger\<lparr>bc_cap_pct := 1, bc_size_gate_pct := 1\<rparr>)
     (eg_guard 5 50 9)) \<noteq> Some \<lparr>fd_qty = 5, fd_side = Ask, fd_taker = True,
       fd_reason = ''profit lock'', fd_commit = LockSnapshot 1050\<rparr>"
proof -
  let ?c = "eg_bagger\<lparr>bc_cap_pct := 1, bc_size_gate_pct := 1\<rparr>" and ?i = "eg_guard 5 50 9"
  obtain s' where e: "bagger_evaluate exact_decimal (bagger_init\<lparr>bg_lock_snapshot := 1000\<rparr>) ?c ?i
      = (s', Some \<lparr>fd_qty = 5, fd_side = Ask, fd_taker = True, fd_reason = ''profit lock'',
         fd_commit = LockSnapshot 1050\<rparr>)" by (simp add: bagger_eval)
  have small: "fits (1 / 50)" "fits (49 / 50)" "fits (51 / 50)"
    by (rule fitsI [of 2], rule fits_atI [of _ _ 2], simp_all,
        rule fitsI [of 2], rule fits_atI [of _ _ 98], simp_all,
        rule fitsI [of 2], rule fits_atI [of _ _ 102], simp_all)
  have "band_ok 1050 (bc_loss_lock_pct ?c)" "band_ok 1050 (bc_profit_lock_pct ?c)"
    "band_ok 1050 (bc_equity_giveback_pct ?c)"
    using small by (simp_all add: band_ok_def eg_bagger_def bagger_default_def)
  from bagger_commit_rearms [OF exact.decimal_arith_axioms e _ _ this] show ?thesis
    by (cases "bagger_evaluate exact_decimal (bagger_commit s' (LockSnapshot 1050)) ?c ?i")
      (fastforce simp: e)
qed

text \<open>
  The peak belongs to a bag: it is reset when the position is seen flat.  The runner does not
  evaluate the bagger while the position is zero, so a long bag that follows a closed long bag
  inherits its peak and is closed as a trailing take-profit although it never gained; with the
  flat tick in between nothing fires.
\<close>

definition eg_trailing :: bagger_config where
  "eg_trailing = bagger_default\<lparr>bc_trail_pct := 30, bc_size_gate_pct := 1\<rparr>"

theorem bagger_stale_peak:
  "let s1 = fst (bagger_evaluate exact_decimal bagger_init eg_trailing (eg_guard 5 100 1))
   in snd (bagger_evaluate exact_decimal bagger_init eg_trailing (eg_guard 5 100 1)) = None
      \<and> map_option fd_reason (snd (bagger_evaluate exact_decimal s1 eg_trailing (eg_guard 5 0 3)))
          = Some ''trailing TP''
      \<and> snd (bagger_evaluate exact_decimal
          (fst (bagger_evaluate exact_decimal s1 eg_trailing (eg_guard 0 0 2))) eg_trailing (eg_guard 5 0 3))
          = None"
  by (simp add: bagger_eval eg_trailing_def)

end
