(* ===== verification/Runner_Laws.thy ===== *)
theory Runner_Laws
  imports Runner_Guards Bagger_Laws Pnl
begin

text \<open>
  What the runner's guards guarantee: a fill reported over two channels is applied once, the
  liquidation window shows exactly the events of its span and none of the future, the
  inventory cap bounds the worst case of a whole batch, the size boost only enlarges the side
  it is meant to, and a bagger step only reduces and keeps its cooldown.
\<close>

subsection \<open>Deduplication\<close>

datatype dedup_call = DInsert (di_id: u64) (di_ts: u64) | DPrune (dp_cutoff: u64)

definition dedup_step :: "trade_dedup \<Rightarrow> dedup_call \<Rightarrow> trade_dedup" where
  "dedup_step t c = (case c of DInsert i ts \<Rightarrow> fst (dedup_insert t i ts) | DPrune k \<Rightarrow> dedup_prune t k)"

fun dedup_accepted :: "trade_dedup \<Rightarrow> dedup_call list \<Rightarrow> u64 list" where
  "dedup_accepted t [] = []"
| "dedup_accepted t (c # cs) =
     (case c of DInsert i ts \<Rightarrow> (if snd (dedup_insert t i ts) then [i] else []) | DPrune k \<Rightarrow> [])
       @ dedup_accepted (dedup_step t c) cs"

definition dedup_ok :: "trade_dedup \<Rightarrow> bool" where
  "dedup_ok t \<longleftrightarrow> td_seen t = snd ` set (td_order t) \<and> distinct (map snd (td_order t))"

lemma prune_loop:
  "seen = snd ` set xs \<Longrightarrow> distinct (map snd xs) \<Longrightarrow>
     dedup_prune_loop k seen xs =
       \<lparr>td_seen = snd ` set (dropWhile (\<lambda>(ts, i). ts < k) xs),
        td_order = dropWhile (\<lambda>(ts, i). ts < k) xs\<rparr>"
proof (induction k seen xs rule: dedup_prune_loop.induct)
  case (2 k seen ts i rest)
  then have "seen - {i} = snd ` set rest" by auto
  with 2 show ?case by (auto simp: not_le)
qed simp

lemma dropWhile_suffix_distinct: "distinct (map f xs) \<Longrightarrow> distinct (map f (dropWhile P xs))"
  by (induction xs) auto

lemma dedup_ok_prune: "dedup_ok t \<Longrightarrow> dedup_ok (dedup_prune t k)"
  by (auto simp: dedup_ok_def dedup_prune_def prune_loop dropWhile_suffix_distinct)

lemma dedup_ok_insert: "dedup_ok t \<Longrightarrow> dedup_ok (fst (dedup_insert t i ts))"
  by (auto simp: dedup_ok_def dedup_insert_def)

lemma dedup_order_prune:
  "dedup_ok t \<Longrightarrow> td_order (dedup_prune t k) = dropWhile (\<lambda>(ts, i). ts < k) (td_order t)"
  by (simp add: dedup_ok_def dedup_prune_def prune_loop)

interpretation dedup: call_invariant dedup_step "\<lambda>_. True" dedup_ok
  by unfold_locales (auto simp: dedup_step_def dedup_ok_prune dedup_ok_insert split: dedup_call.splits)

lemma dedup_ok_new [simp]: "dedup_ok dedup_new"
  by (simp add: dedup_ok_def dedup_new_def)

text \<open>An id stays known as long as no prune reaches its time stamp.\<close>

lemma dropWhile_keeps:
  "(ts, i) \<in> set xs \<Longrightarrow> \<not> P (ts, i) \<Longrightarrow> (ts, i) \<in> set (dropWhile P xs)"
  by (induction xs) auto

lemma known_never_accepted:
  assumes "dedup_ok t" "(ts, i) \<in> set (td_order t)"
    "\<forall>k. DPrune k \<in> set cs \<longrightarrow> k \<le> ts"
  shows "i \<notin> set (dedup_accepted t cs)"
  using assms
proof (induction cs arbitrary: t)
  case (Cons c cs)
  have ok: "dedup_ok (dedup_step t c)" using Cons.prems(1) by (rule dedup.step_inv) simp
  have in_step: "(ts, i) \<in> set (td_order (dedup_step t c))"
  proof (cases c)
    case (DInsert j s)
    then show ?thesis using Cons.prems(2) by (simp add: dedup_step_def dedup_insert_def)
  next
    case (DPrune k)
    with Cons.prems(3) have "\<not> ts < k" by (auto simp: not_less)
    with DPrune Cons.prems show ?thesis
      by (auto simp: dedup_step_def dedup_order_prune intro!: dropWhile_keeps)
  qed
  have "i \<in> td_seen t" using Cons.prems(1,2) by (force simp: dedup_ok_def)
  then show ?case
    using Cons.IH [OF ok in_step] Cons.prems(3)
    by (auto simp: dedup_insert_def split: dedup_call.splits)
qed simp

lemma unknown_accepted_once:
  assumes "dedup_ok t" "i \<notin> td_seen t"
    "\<forall>ts k. DInsert i ts \<in> set cs \<longrightarrow> DPrune k \<in> set cs \<longrightarrow> k \<le> ts"
  shows "count_list (dedup_accepted t cs) i = (if \<exists>ts. DInsert i ts \<in> set cs then 1 else 0)"
  using assms
proof (induction cs arbitrary: t)
  case (Cons c cs)
  have ok: "dedup_ok (dedup_step t c)" using Cons.prems(1) by (rule dedup.step_inv) simp
  show ?case
  proof (cases "\<exists>ts. c = DInsert i ts")
    case True
    then obtain ts where c: "c = DInsert i ts" by blast
    then have "(ts, i) \<in> set (td_order (dedup_step t c))"
      using Cons.prems(2) by (simp add: dedup_step_def dedup_insert_def)
    from known_never_accepted [OF ok this] Cons.prems(3) c
    have "count_list (dedup_accepted (dedup_step t c) cs) i = 0"
      by (auto simp: count_list_0_iff)
    with c Cons.prems(2) show ?thesis by (auto simp: dedup_insert_def)
  next
    case False
    have "i \<notin> td_seen (dedup_step t c)"
    proof (cases c)
      case (DInsert j s)
      with False Cons.prems(2) show ?thesis by (auto simp: dedup_step_def dedup_insert_def)
    next
      case (DPrune k)
      have "td_seen (dedup_step t c) \<subseteq> td_seen t"
        using DPrune Cons.prems(1)
        by (auto simp: dedup_step_def dedup_prune_def dedup_ok_def prune_loop dest: set_dropWhileD)
      with Cons.prems(2) show ?thesis by blast
    qed
    from Cons.IH [OF ok this] Cons.prems(3) False show ?thesis
      by (auto simp: dedup_insert_def split: dedup_call.splits)
  qed
qed simp

text \<open>
  C34: A trade reported over both channels is applied exactly once: over any sequence of
  insertions and prunes from the empty set, an id whose reports no prune has outlived is
  accepted once when it is reported at all, however often and in whatever order.
\<close>

theorem dedup_exactly_once:
  assumes "\<forall>ts k. DInsert i ts \<in> set cs \<longrightarrow> DPrune k \<in> set cs \<longrightarrow> k \<le> ts"
  shows "count_list (dedup_accepted dedup_new cs) i = (if \<exists>ts. DInsert i ts \<in> set cs then 1 else 0)"
  by (rule unknown_accepted_once [OF dedup_ok_new _ assms]) (simp add: dedup_new_def)

lemma dedup_exactly_once_witness:
  "count_list (dedup_accepted dedup_new [DInsert 7 100, DPrune 90, DInsert 7 101, DInsert 8 102]) 7 = 1"
  using dedup_exactly_once [of 7 "[DInsert 7 100, DPrune 90, DInsert 7 101, DInsert 8 102]"]
  by auto

subsection \<open>The liquidation window\<close>

lemma dropWhile_sorted_filter:
  "sorted (map f xs) \<Longrightarrow> dropWhile (\<lambda>x. f x < c) xs = filter (\<lambda>x. \<not> f x < c) xs"
proof (induction xs)
  case (Cons x xs)
  show ?case
  proof (cases "f x < c")
    case False
    with Cons.prems have "\<forall>y \<in> set xs. \<not> f y < c" by fastforce
    with False show ?thesis by simp
  qed (use Cons in simp)
qed simp

lemma take_partition_point: "take (partition_point P xs) xs = takeWhile P xs"
  unfolding partition_point_def by (metis takeWhile_eq_take)

text \<open>
  The liquidation window shows exactly its span: on events in order of time, an observation
  returns precisely the buffered and newly received events that are at most one window old and
  not later than now, it never shows a future event, and it discards only events that are older
  than the window.
\<close>

theorem liq_window_exact:
  assumes "sorted (map le_ts evs)" "lw_window_ns w \<noteq> 0"
    "evs = lw_buffer w @ (case lw_rx w of Some e \<Rightarrow> e | None \<Rightarrow> [])"
  shows "snd (liq_observe w now) = filter (\<lambda>e. sat_sub now (lw_window_ns w) \<le> le_ts e \<and> le_ts e \<le> now) evs
    \<and> lw_buffer (fst (liq_observe w now)) = filter (\<lambda>e. sat_sub now (lw_window_ns w) \<le> le_ts e) evs"
proof -
  let ?k = "sat_sub now (lw_window_ns w)"
  have d: "dropWhile (\<lambda>e. le_ts e < ?k) evs = filter (\<lambda>e. ?k \<le> le_ts e) evs"
    using dropWhile_sorted_filter [OF assms(1), of ?k] by (simp add: not_less)
  have s: "sorted (map le_ts (filter (\<lambda>e. ?k \<le> le_ts e) evs))"
    using assms(1) by (rule sorted_key_filter)
  from sorted_takeWhile_le [OF s, of now] d show ?thesis
    using assms(2)
    by (simp add: liq_observe_def Let_def assms(3) [symmetric] conj_commute take_partition_point)
qed

lemma liq_window_exact_witness:
  "snd (liq_observe \<lparr>lw_rx = Some [\<lparr>le_ts = 2, le_side = Bid, le_qty = 1, le_price = 5, le_notional = 5\<rparr>,
      \<lparr>le_ts = 9, le_side = Ask, le_qty = 1, le_price = 5, le_notional = 5\<rparr>], lw_buffer = [],
      lw_window_ns = 4\<rparr> 5) = [\<lparr>le_ts = 2, le_side = Bid, le_qty = 1, le_price = 5, le_notional = 5\<rparr>]"
  by (subst liq_window_exact [THEN conjunct1, OF _ _ refl]) (simp_all add: sat_sub_def)

subsection \<open>The inventory cap\<close>

fun quote_total :: "side \<Rightarrow> action list \<Rightarrow> rat" where
  "quote_total sd [] = 0"
| "quote_total sd (a # as) = (case a of
     Quote q \<Rightarrow> (if qi_side q = sd then qi_price q * qi_size q else 0) | _ \<Rightarrow> 0) + quote_total sd as"

definition quotes_on :: "side \<Rightarrow> action list \<Rightarrow> bool" where
  "quotes_on sd as \<longleftrightarrow> list_ex (\<lambda>a. case a of Quote q \<Rightarrow> qi_side q = sd | _ \<Rightarrow> False) as"

text \<open>Notionals on a grid, not negative, and small enough in total.\<close>

definition cap_values :: "nat \<Rightarrow> rat \<Rightarrow> rat \<Rightarrow> rat \<Rightarrow> action list \<Rightarrow> bool" where
  "cap_values g pos rb ra as \<longleftrightarrow> g \<le> 28 \<and> on_grid g pos \<and> on_grid g rb \<and> on_grid g ra
     \<and> 0 \<le> rb \<and> 0 \<le> ra
     \<and> list_all (\<lambda>a. case a of Quote q \<Rightarrow> on_grid g (qi_price q * qi_size q) \<and> 0 \<le> qi_price q * qi_size q
          | _ \<Rightarrow> True) as
     \<and> (\<bar>pos\<bar> + rb + ra + quote_total Bid as + quote_total Ask as) * 10 ^ g < 2 ^ 96"

lemma quote_total_nonneg: "cap_values g pos rb ra as \<Longrightarrow> 0 \<le> quote_total sd as"
proof -
  have "list_all (\<lambda>a. case a of Quote q \<Rightarrow> on_grid g (qi_price q * qi_size q) \<and> 0 \<le> qi_price q * qi_size q
          | _ \<Rightarrow> True) as \<Longrightarrow> 0 \<le> quote_total sd as"
    by (induction as) (auto split: action.splits)
  then show "cap_values g pos rb ra as \<Longrightarrow> 0 \<le> quote_total sd as" by (simp add: cap_values_def)
qed

lemma cap_values_tail:
  "cap_values g pos rb ra (a # as) \<Longrightarrow> cap_values g pos rb ra as"
proof -
  assume c: "cap_values g pos rb ra (a # as)"
  have "quote_total sd as \<le> quote_total sd (a # as)" for sd
    using c by (cases a) (auto simp: cap_values_def)
  then have "(\<bar>pos\<bar> + rb + ra + quote_total Bid as + quote_total Ask as) * 10 ^ g
      \<le> (\<bar>pos\<bar> + rb + ra + quote_total Bid (a # as) + quote_total Ask (a # as)) * 10 ^ g"
    by (intro mult_right_mono add_mono) auto
  also have "\<dots> < 2 ^ 96" using c by (simp only: cap_values_def)
  finally show ?thesis using c by (simp add: cap_values_def del: quote_total.simps)
qed

lemma cap_values_accept:
  assumes c: "cap_values g pos rb ra (Quote q # as)" "n = qi_price q * qi_size q"
  shows "qi_side q = Bid \<Longrightarrow> cap_values g pos (rb + n) ra as"
    "qi_side q = Ask \<Longrightarrow> cap_values g pos rb (ra + n) as"
  using c by (auto simp: cap_values_def algebra_simps intro: on_grid_add)

lemma cap_exact:
  assumes D: "decimal_arith D" and c: "cap_values g pos rb ra (Quote q # as)"
    and n: "n = qi_price q * qi_size q"
  shows "dmul D (qi_price q) (qi_size q) = n"
    "cap_breaches D pos rb ra cap (qi_side q) n \<longleftrightarrow> (case qi_side q of
       Bid \<Rightarrow> cap < pos + rb + n | Ask \<Rightarrow> pos - ra - n < - cap)"
    "qi_side q = Bid \<Longrightarrow> dadd D rb n = rb + n" "qi_side q = Ask \<Longrightarrow> dadd D ra n = ra + n"
proof -
  have o: "g \<le> 28" "on_grid g pos" "on_grid g rb" "on_grid g ra" "0 \<le> rb" "0 \<le> ra"
    "on_grid g n" "0 \<le> n"
    "(\<bar>pos\<bar> + rb + ra + quote_total Bid (Quote q # as) + quote_total Ask (Quote q # as)) * 10 ^ g < 2 ^ 96"
    using c n by (auto simp: cap_values_def simp del: quote_total.simps)
  have "0 \<le> quote_total Bid as" "0 \<le> quote_total Ask as"
    using quote_total_nonneg [OF cap_values_tail [OF c]] by auto
  then have tot: "n \<le> quote_total Bid (Quote q # as) + quote_total Ask (Quote q # as)"
    "qi_side q = Bid \<Longrightarrow> n \<le> quote_total Bid (Quote q # as)"
    "0 \<le> quote_total Bid (Quote q # as)" "0 \<le> quote_total Ask (Quote q # as)"
    using n o(8) by (cases "qi_side q"; simp)+
  have small: "fits x" if "on_grid g x" "\<bar>x\<bar> \<le> \<bar>pos\<bar> + rb + ra + n" for x
  proof (rule fits_grid [OF that(1) o(1)])
    have "\<bar>x\<bar> * 10 ^ g \<le> (\<bar>pos\<bar> + rb + ra + quote_total Bid (Quote q # as)
        + quote_total Ask (Quote q # as)) * 10 ^ g"
      using that(2) tot by (intro mult_right_mono) auto
    with o(9) show "\<bar>x\<bar> * 10 ^ g < 2 ^ 96" by linarith
  qed
  have grids: "on_grid g (pos + rb)" "on_grid g (pos + rb + n)" "on_grid g (pos - ra)"
    "on_grid g (pos - ra - n)" "on_grid g (rb + n)" "on_grid g (ra + n)"
    using o by (auto intro!: on_grid_add on_grid_diff)
  have f: "fits n" "fits (pos + rb)" "fits (pos + rb + n)" "fits (pos - ra)" "fits (pos - ra - n)"
    "fits (rb + n)" "fits (ra + n)"
    using o grids by (auto intro!: small)
  note ex = decimal_arith.add_fits [OF D] decimal_arith.sub_fits [OF D]
  show "dmul D (qi_price q) (qi_size q) = n"
    using decimal_arith.mul_fits [OF D, of "qi_price q" "qi_size q"] f(1) n by simp
  show "cap_breaches D pos rb ra cap (qi_side q) n \<longleftrightarrow> (case qi_side q of
       Bid \<Rightarrow> cap < pos + rb + n | Ask \<Rightarrow> pos - ra - n < - cap)"
    by (simp add: cap_breaches_def ex f split: side.split)
  show "qi_side q = Bid \<Longrightarrow> dadd D rb n = rb + n" "qi_side q = Ask \<Longrightarrow> dadd D ra n = ra + n"
    by (simp_all add: ex f)
qed

abbreviation within_cap :: "rat \<Rightarrow> rat \<Rightarrow> rat \<Rightarrow> rat \<Rightarrow> action list \<Rightarrow> bool" where
  "within_cap pos cap rb ra as \<equiv>
     (quotes_on Bid as \<longrightarrow> pos + rb + quote_total Bid as \<le> cap)
     \<and> (quotes_on Ask as \<longrightarrow> - cap \<le> pos - ra - quote_total Ask as)"

lemma no_quotes_total: "\<not> quotes_on sd as \<Longrightarrow> quote_total sd as = 0"
  by (induction as) (auto simp: quotes_on_def split: action.splits)

lemma cap_loop_within:
  assumes D: "decimal_arith D"
  shows "cap_values g pos rb ra as \<Longrightarrow> within_cap pos cap rb ra (inventory_cap_loop D pos cap rb ra as)"
proof (induction as arbitrary: rb ra)
  case (Cons a as)
  note IH = Cons.IH [OF cap_values_tail [OF Cons.prems]]
  show ?case
  proof (cases a)
    case (Quote q)
    define n where "n = qi_price q * qi_size q"
    note ex = cap_exact [OF D Cons.prems [unfolded Quote] n_def]
    note acc = cap_values_accept [OF Cons.prems [unfolded Quote] n_def]
    show ?thesis
    proof (cases "cap_breaches D pos rb ra cap (qi_side q) n")
      case True
      with IH Quote ex(1) show ?thesis by simp
    next
      case False
      show ?thesis
      proof (cases "qi_side q")
        case Bid
        let ?out = "inventory_cap_loop D pos cap (rb + n) ra as"
        from False ex(2) Bid have le: "pos + rb + n \<le> cap" by simp
        from Cons.IH [OF acc(1) [OF Bid]] no_quotes_total [of Bid ?out] le
        show ?thesis using Quote ex(1,3) False Bid
          by (auto simp: quotes_on_def n_def [symmetric] algebra_simps)
      next
        case Ask
        let ?out = "inventory_cap_loop D pos cap rb (ra + n) as"
        from False ex(2) Ask have le: "- cap \<le> pos - ra - n" by simp
        from Cons.IH [OF acc(2) [OF Ask]] no_quotes_total [of Ask ?out] le
        show ?thesis using Quote ex(1,4) False Ask
          by (auto simp: quotes_on_def n_def [symmetric] algebra_simps)
      qed
    qed
  qed (use IH in \<open>auto simp: quotes_on_def\<close>)
qed (simp add: quotes_on_def)

lemma cap_loop_keeps:
  "filter (\<lambda>a. \<forall>q. a \<noteq> Quote q) (inventory_cap_loop D pos cap rb ra as) = filter (\<lambda>a. \<forall>q. a \<noteq> Quote q) as"
  by (induction as arbitrary: rb ra) (auto simp: Let_def split: action.splits side.splits)

lemma cap_loop_passes:
  assumes D: "decimal_arith D"
  shows "cap_values g pos rb ra as \<Longrightarrow> pos + rb + quote_total Bid as \<le> cap
    \<Longrightarrow> - cap \<le> pos - ra - quote_total Ask as \<Longrightarrow> inventory_cap_loop D pos cap rb ra as = as"
proof (induction as arbitrary: rb ra)
  case (Cons a as)
  show ?case
  proof (cases a)
    case (Quote q)
    define n where "n = qi_price q * qi_size q"
    note ex = cap_exact [OF D Cons.prems(1) [unfolded Quote] n_def]
    note acc = cap_values_accept [OF Cons.prems(1) [unfolded Quote] n_def]
    have nn: "0 \<le> quote_total sd as" for sd
      by (rule quote_total_nonneg [OF cap_values_tail [OF Cons.prems(1)]])
    show ?thesis
    proof (cases "qi_side q")
      case Bid
      with Cons.prems(2,3) Quote Cons.IH [OF acc(1)] ex nn [of Bid] show ?thesis
        by (simp add: n_def [symmetric] algebra_simps)
    next
      case Ask
      with Cons.prems(2,3) Quote Cons.IH [OF acc(2)] ex nn [of Ask] show ?thesis
        by (simp add: n_def [symmetric] algebra_simps)
    qed
  qed (use Cons cap_values_tail [OF Cons.prems(1)] in auto)
qed simp

text \<open>
  C33: The inventory cap bounds the worst case of a batch, not of single orders: if every order
  that was resting and every accepted order of the batch filled on one side, the position would
  stay within the cap whenever the batch adds to that side; every action that is not a new
  order passes, in order; and a batch whose worst case is within the cap passes unchanged.
\<close>

theorem inventory_cap_worst_case:
  assumes D: "decimal_arith D" and v: "cap_values g pos rb ra as" and cap: "0 < cap"
    and out: "out = apply_bot_inventory_cap D as pos rb ra cap"
  shows "within_cap pos cap rb ra out
    \<and> filter (\<lambda>a. \<forall>q. a \<noteq> Quote q) out = filter (\<lambda>a. \<forall>q. a \<noteq> Quote q) as
    \<and> (pos + rb + quote_total Bid as \<le> cap \<and> - cap \<le> pos - ra - quote_total Ask as \<longrightarrow> out = as)"
  using cap_loop_within [OF D v, of cap] cap_loop_keeps [of D pos cap rb ra as]
    cap_loop_passes [OF D v, of cap] cap
  by (auto simp: out apply_bot_inventory_cap_def)

lemma inventory_cap_worst_case_witness:
  "50 + 10 + quote_total Bid (apply_bot_inventory_cap exact_decimal
     [Quote (make_post_only_intent eg_symbol Bid 10 3), CancelAll,
      Quote (make_post_only_intent eg_symbol Bid 10 2)] 50 10 0 100) \<le> 100"
proof -
  let ?as = "[Quote (make_post_only_intent eg_symbol Bid 10 3), CancelAll,
      Quote (make_post_only_intent eg_symbol Bid 10 2)]"
  have "cap_values 8 50 10 0 ?as"
    by (simp add: cap_values_def make_post_only_intent_def)
  moreover have "quotes_on Bid (apply_bot_inventory_cap exact_decimal ?as 50 10 0 100)"
    by (simp add: apply_bot_inventory_cap_def cap_breaches_def make_post_only_intent_def quotes_on_def)
  ultimately show ?thesis
    using inventory_cap_worst_case [OF exact.decimal_arith_axioms, of 8 50 10 0 ?as 100] by simp
qed

text \<open>
  The comment of the cap says that reducing orders always pass; a sell that would take a long
  position past the cap on the other side is dropped.
\<close>

theorem cap_drops_reducing_order:
  "apply_bot_inventory_cap exact_decimal [Quote (make_post_only_intent eg_symbol Ask 10 16)] 50 0 0 100 = []"
  by (simp add: apply_bot_inventory_cap_def cap_breaches_def make_post_only_intent_def)

subsection \<open>The size boost\<close>

text \<open>\<open>grown P a b\<close>: \<open>b\<close> is \<open>a\<close>, or \<open>a\<close> is an order for which \<open>P\<close> holds and \<open>b\<close> is the same
  order with a larger size.\<close>

definition grown :: "(quote_intent \<Rightarrow> bool) \<Rightarrow> action \<Rightarrow> action \<Rightarrow> bool" where
  "grown P a b \<longleftrightarrow> b = a \<or> (\<exists>q v. a = Quote q \<and> b = Quote (q\<lparr>qi_size := v\<rparr>) \<and> qi_size q < v \<and> P q)"

lemma grown_refl [simp]: "list_all2 (grown P) as as"
  by (simp add: list_all2_same grown_def)

lemma map_quotes_grown:
  "(\<And>q. f q = q \<or> (\<exists>v. f q = q\<lparr>qi_size := v\<rparr> \<and> qi_size q < v \<and> P q)) \<Longrightarrow>
     list_all2 (grown P) as (map_quotes f as)"
  unfolding map_quotes_def list_all2_map2
  by (rule list_all2_refl) (fastforce simp: grown_def split: action.split)

lemma boost_size_grows:
  "boost_size D scale mult q = q \<or> (\<exists>v. boost_size D scale mult q = q\<lparr>qi_size := v\<rparr> \<and> qi_size q < v)"
  by (auto simp: boost_size_def Let_def)

context decimal_arith
begin

lemma drift_pos: "0 < dmul D (ddiv D (dsub D a b) c) 10000 \<Longrightarrow> 0 < c \<Longrightarrow> b < a"
proof (rule ccontr)
  assume r: "0 < dmul D (ddiv D (dsub D a b) c) 10000" "0 < c" "\<not> b < a"
  have "dsub D a b \<le> 0" using dsub_mono [of a b 0 0] sub_fits [of 0 0] r(3) by simp
  then have "ddiv D (dsub D a b) c \<le> 0" using r(2) by (intro div_nonpos) (simp add: divide_le_0_iff)
  then have "dmul D (ddiv D (dsub D a b) c) 10000 \<le> 0" by (intro mul_nonpos) simp
  with r(1) show False by simp
qed

end

text \<open>An order that banks a gain against the average entry price, or betters it.\<close>

definition past_avg :: "price \<Rightarrow> quote_intent \<Rightarrow> bool" where
  "past_avg avg q \<longleftrightarrow> (case qi_side q of Ask \<Rightarrow> avg < qi_price q | Bid \<Rightarrow> qi_price q < avg)"

lemma boost_gated_grows:
  assumes "decimal_arith D" "0 < avg"
  shows "boost_gated D powd scale cfg bside avg q = q
    \<or> (\<exists>v. boost_gated D powd scale cfg bside avg q = q\<lparr>qi_size := v\<rparr> \<and> qi_size q < v
         \<and> past_avg avg q \<and> (qi_side q = bside \<or> 0 < ib_add_boost_pct cfg))"
proof -
  have past: "past_avg avg q" if "\<not> (case qi_side q of
      Ask \<Rightarrow> dmul D (ddiv D (dsub D (qi_price q) avg) avg) 10000
    | Bid \<Rightarrow> dmul D (ddiv D (dsub D avg (qi_price q)) avg) 10000) \<le> 0"
    using that decimal_arith.drift_pos [OF assms(1) _ assms(2)]
    by (cases "qi_side q") (auto simp: past_avg_def not_le)
  obtain d where d: "d = (case qi_side q of
      Ask \<Rightarrow> dmul D (ddiv D (dsub D (qi_price q) avg) avg) 10000
    | Bid \<Rightarrow> dmul D (ddiv D (dsub D avg (qi_price q)) avg) 10000)" by simp
  then show ?thesis
    using past boost_size_grows [of D scale _ q]
    unfolding boost_gated_def Let_def d [symmetric] by (auto split: if_splits)
qed

text \<open>
  The size boost touches nothing but sizes, never shrinks one, and enlarges only what it is
  meant to: without the profit gate only the configured side of the current inventory; with it
  only orders on the favourable side of the average entry price (a sell above it, a buy below
  it), on the reducing side unless averaging down is switched on; a flat position boosts
  nothing.
\<close>

theorem boost_enlarges_only:
  assumes D: "decimal_arith D"
    and out: "out = apply_inventory_size_boost D powd scale as pos cap avg cfg"
  shows "list_all2 (grown (\<lambda>q. if ib_profit_gated cfg \<and> \<not> ib_chase cfg
       then past_avg avg q \<and> (Some (qi_side q) = boost_side pos False \<or> 0 < ib_add_boost_pct cfg)
       else Some (qi_side q) = boost_side pos (ib_chase cfg))) as out
     \<and> (pos \<noteq> 0 \<or> out = as)"
proof
  show "pos \<noteq> 0 \<or> out = as"
    by (auto simp: out apply_inventory_size_boost_def boost_side_def)
  show "list_all2 (grown (\<lambda>q. if ib_profit_gated cfg \<and> \<not> ib_chase cfg
       then past_avg avg q \<and> (Some (qi_side q) = boost_side pos False \<or> 0 < ib_add_boost_pct cfg)
       else Some (qi_side q) = boost_side pos (ib_chase cfg))) as out"
  proof (cases "ib_profit_gated cfg \<and> \<not> ib_chase cfg")
    case True
    then show ?thesis
      using boost_gated_grows [OF D, of avg powd scale cfg]
      by (auto simp: out apply_inventory_size_boost_def Let_def not_le intro!: map_quotes_grown
          split: option.split)
  next
    case False
    have "list_all2 (grown (\<lambda>q. Some (qi_side q) = boost_side pos (ib_chase cfg))) as
        (map_quotes (\<lambda>q. if qi_side q = b then boost_size D scale mult q else q) as)"
      if "boost_side pos (ib_chase cfg) = Some b" for b mult
      by (rule map_quotes_grown) (use that boost_size_grows [of D scale mult] in auto)
    with False show ?thesis
      unfolding out apply_inventory_size_boost_def Let_def
      by (auto split: option.split)
  qed
qed

lemma boost_enlarges_only_witness:
  "list_all2 (grown (\<lambda>q. Some (qi_side q) = boost_side 50 False))
     [Quote (make_post_only_intent eg_symbol Ask 10 4)] [Quote (make_post_only_intent eg_symbol Ask 10 6)]"
proof -
  let ?cfg = "\<lparr>ib_max_boost_pct = 100, ib_curve_exponent = 1, ib_chase = False, ib_profit_gated = False,
    ib_profit_full_bps = 0, ib_add_boost_pct = 0, ib_add_full_bps = 0\<rparr>"
  have "[Quote (make_post_only_intent eg_symbol Ask 10 6)] = apply_inventory_size_boost exact_decimal
      (\<lambda>x e. x) (\<lambda>_. 0) [Quote (make_post_only_intent eg_symbol Ask 10 4)] 50 100 10 ?cfg"
    by (simp add: apply_inventory_size_boost_def boost_side_def boost_curve_def map_quotes_def
        boost_size_def make_post_only_intent_def)
  from boost_enlarges_only [OF exact.decimal_arith_axioms this] show ?thesis by simp
qed

subsection \<open>The bagger step\<close>

text \<open>
  C35: A bagger step of a backtest only acts on an open position, after its cooldown, and its
  fill brings the position closer to zero by exactly its size, never past it; the resting
  orders are dropped exactly when the fill closes the whole position; and the cooldown starts
  anew at the fill.
\<close>

theorem bagger_tick_safe:
  assumes D: "decimal_arith D" and half: "fits (\<bar>p_size pos\<bar> / 2)"
    and t: "bagger_tick D e r pos book mark ts = (r', Some (f, dropped))"
  shows "p_size pos \<noteq> 0 \<and> bagger_cooldown_ns \<le> sat_sub ts (br_last_flatten_ns r)
    \<and> br_last_flatten_ns r' = ts \<and> 0 < f_size f \<and> 0 < f_price f
    \<and> \<bar>p_size pos + side_delta (f_side f) (f_size f)\<bar> = \<bar>p_size pos\<bar> - f_size f
    \<and> (dropped \<longleftrightarrow> p_size pos + side_delta (f_side f) (f_size f) = 0)"
proof -
  obtain s d where e: "bagger_evaluate D (br_state r) (be_config e) (bag_input D e pos mark ts) = (s, d)"
    by fastforce
  from t e obtain x px where d: "d = Some x" "bag_price D e pos book x = Some px"
    and c: "bagger_cooldown_ns \<le> sat_sub ts (br_last_flatten_ns r)" "0 < px"
    and r': "br_last_flatten_ns r' = ts"
    and f: "f = bag_fill D e x px (min (fd_qty x) \<bar>p_size pos\<bar>) ts"
    and dr: "dropped = (\<bar>p_size pos\<bar> \<le> min (fd_qty x) \<bar>p_size pos\<bar>)"
    by (auto simp: bagger_tick_def Let_def split: if_splits option.splits)
  have i: "gi_pos_size (bag_input D e pos mark ts) = p_size pos" by (simp add: bag_input_def)
  from evaluate_reduces [OF D _ e [unfolded d(1)]] half i
  have red: "p_size pos \<noteq> 0" "0 < fd_qty x" "fd_qty x \<le> \<bar>p_size pos\<bar>"
    "fd_side x = reducing_side (p_size pos)" by (auto simp: reduces_def)
  then have "f_size f = fd_qty x" "f_side f = fd_side x" "f_price f = px"
    by (auto simp: f bag_fill_def Let_def)
  with red c r' dr show ?thesis by (auto simp: reducing_side_def)
qed

definition eg_env :: bag_env where
  "eg_env = \<lparr>be_config = eg_bagger, be_leverage = 1, be_balance = 1000, be_order_notional = 100,
     be_taker_bps = 5, be_maker_bps = 2, be_symbol = eg_symbol, be_fill_id = 7\<rparr>"

definition eg_runner :: bag_runner where
  "eg_runner = \<lparr>br_state = bagger_init\<lparr>bg_lock_snapshot := 1000\<rparr>, br_last_flatten_ns = 0,
     br_flattens = 0\<rparr>"

definition eg_position :: position where
  "eg_position = \<lparr>p_symbol = eg_symbol, p_size = 5, p_avg_entry = 100, p_realized_pnl = 0\<rparr>"

definition eg_book :: snapshot where
  "eg_book = \<lparr>sn_symbol = eg_symbol, sn_bids = [\<lparr>lv_price = 110, lv_size = 9\<rparr>],
     sn_asks = [\<lparr>lv_price = 111, lv_size = 9\<rparr>], sn_ts = 20000000000\<rparr>"

lemma bagger_tick_safe_witness:
  "\<exists>r' f d. bagger_tick exact_decimal eg_env eg_runner eg_position eg_book 110 20000000000 = (r', Some (f, d))
     \<and> br_last_flatten_ns r' = 20000000000 \<and> \<bar>5 + side_delta (f_side f) (f_size f)\<bar> = 5 - f_size f"
proof -
  obtain r' f d where t: "bagger_tick exact_decimal eg_env eg_runner eg_position eg_book 110 20000000000
      = (r', Some (f, d))"
    by (simp add: bagger_tick_def eg_env_def eg_runner_def eg_position_def eg_book_def bag_input_def
        bag_price_def bagger_cooldown_ns_def sat_sub_def bagger_eval)
  from bagger_tick_safe [OF exact.decimal_arith_axioms _ t] fits_five_halves t show ?thesis
    by (auto simp: eg_position_def)
qed

end
