(* ===== verification/Mark_Series.thy ===== *)
theory Mark_Series
  imports Core
begin

text \<open>
  The mark-price series of \<open>crates/tikr-backtest/src/mark.rs\<close>: points sorted by time stamp, a
  cursor that only moves forward, and the two lookups the runner makes at each event.  The
  series is loaded from files (\<open>load\<close>), which is not modelled; \<open>from_points_with_funding\<close> is.

  \<open>mark_lookup_exact\<close> shows that, on queries in order of time, the cursor answers what a search
  of the whole series would answer.
\<close>

record mark_point =
  mp_ts :: u64
  mp_mark :: price
  mp_funding :: "rat option"

record mark_series =
  ms_points :: "mark_point list"
  ms_cursor :: nat
  ms_current :: "mark_point option"

text \<open>\<open>sort_by_key\<close> is stable, as \<open>sort_key\<close> is.\<close>

definition from_points_with_funding :: "(u64 \<times> price \<times> rat option) list \<Rightarrow> mark_series" where
  "from_points_with_funding ps =
     \<lparr>ms_points = sort_key mp_ts
        (map (\<lambda>(ts, m, f). \<lparr>mp_ts = ts, mp_mark = m, mp_funding = f\<rparr>) ps),
      ms_cursor = 0, ms_current = None\<rparr>"

definition from_points :: "(u64 \<times> price) list \<Rightarrow> mark_series" where
  "from_points ps = from_points_with_funding (map (\<lambda>(ts, m). (ts, m, None)) ps)"

definition ms_len :: "mark_series \<Rightarrow> nat" where
  "ms_len m = length (ms_points m)"

definition ms_is_empty :: "mark_series \<Rightarrow> bool" where
  "ms_is_empty m \<longleftrightarrow> ms_points m = []"

function ms_advance :: "mark_series \<Rightarrow> u64 \<Rightarrow> mark_series" where
  "ms_advance m now =
     (if ms_cursor m < length (ms_points m) \<and> mp_ts (ms_points m ! ms_cursor m) \<le> now
      then ms_advance (m\<lparr>ms_current := Some (ms_points m ! ms_cursor m),
                         ms_cursor := Suc (ms_cursor m)\<rparr>) now
      else m)"
  by pat_completeness auto
termination
  by (relation "measure (\<lambda>(m, now). length (ms_points m) - ms_cursor m)") auto

declare ms_advance.simps [simp del]

definition mark_at :: "mark_series \<Rightarrow> u64 \<Rightarrow> price option \<times> mark_series" where
  "mark_at m now = (let m = ms_advance m now in (map_option mp_mark (ms_current m), m))"

definition funding_at :: "mark_series \<Rightarrow> u64 \<Rightarrow> rat option \<times> mark_series" where
  "funding_at m now = (let m = ms_advance m now
     in (Option.bind (ms_current m) mp_funding, m))"

subsection \<open>The cursor agrees with a search of the series\<close>

text \<open>The reference: the last point, in time order, that is not later than \<open>now\<close>.\<close>

definition latest :: "mark_point list \<Rightarrow> u64 \<Rightarrow> mark_point option" where
  "latest ps now = last_opt (filter (\<lambda>p. mp_ts p \<le> now) ps)"

definition ms_ok :: "mark_series \<Rightarrow> bool" where
  "ms_ok m \<longleftrightarrow> sorted (map mp_ts (ms_points m)) \<and> ms_cursor m \<le> length (ms_points m)
     \<and> ms_current m = (if ms_cursor m = 0 then None else Some (ms_points m ! (ms_cursor m - 1)))"

lemma ms_ok_new [simp]: "ms_ok (from_points_with_funding ps)"
  by (simp add: ms_ok_def from_points_with_funding_def)

lemma ms_advance_points [simp]: "ms_points (ms_advance m now) = ms_points m"
  by (induction m now rule: ms_advance.induct) (subst ms_advance.simps, simp)

lemma ms_ok_advance: "ms_ok m \<Longrightarrow> ms_ok (ms_advance m now)"
  by (induction m now rule: ms_advance.induct) (subst ms_advance.simps, simp add: ms_ok_def)

text \<open>Where the cursor stops: at the first later point, or where it was when that is further on.\<close>

lemma ms_advance_cursor:
  "ms_ok m \<Longrightarrow> ms_cursor (ms_advance m now)
     = max (ms_cursor m) (length (filter (\<lambda>p. mp_ts p \<le> now) (ms_points m)))"
proof (induction m now rule: ms_advance.induct)
  case (1 m now)
  let ?n = "length (filter (\<lambda>p. mp_ts p \<le> now) (ms_points m))"
  have s: "sorted (map mp_ts (ms_points m))" using "1.prems" by (simp add: ms_ok_def)
  have tw: "filter (\<lambda>p. mp_ts p \<le> now) (ms_points m) = takeWhile (\<lambda>p. mp_ts p \<le> now) (ms_points m)"
    by (rule sorted_takeWhile_le [OF s, symmetric])
  show ?case
  proof (cases "ms_cursor m < length (ms_points m) \<and> mp_ts (ms_points m ! ms_cursor m) \<le> now")
    case True
    have "ms_cursor m < ?n"
    proof (rule ccontr)
      assume "\<not> ms_cursor m < ?n"
      then have "?n \<le> ms_cursor m" by simp
      then have "mp_ts (ms_points m ! ?n) \<le> mp_ts (ms_points m ! ms_cursor m)"
        using True s sorted_nth_mono [OF s, of ?n "ms_cursor m"] by simp
      with True have "mp_ts (ms_points m ! ?n) \<le> now" by (metis order_trans)
      moreover have "?n < length (ms_points m)" using True \<open>?n \<le> ms_cursor m\<close> by simp
      ultimately show False
        using nth_length_takeWhile [of "\<lambda>p. mp_ts p \<le> now" "ms_points m"] tw by simp
    qed
    moreover have "ms_ok (m\<lparr>ms_current := Some (ms_points m ! ms_cursor m), ms_cursor := Suc (ms_cursor m)\<rparr>)"
      using "1.prems" True by (simp add: ms_ok_def)
    ultimately show ?thesis using "1.IH" [OF True] True
      by (subst ms_advance.simps) simp
  next
    case False
    have "?n \<le> ms_cursor m"
    proof (rule ccontr)
      assume "\<not> ?n \<le> ms_cursor m"
      then have "ms_points m ! ms_cursor m \<in> set (takeWhile (\<lambda>p. mp_ts p \<le> now) (ms_points m))"
        "ms_cursor m < length (ms_points m)"
        using takeWhile_nth [of "ms_cursor m" "\<lambda>p. mp_ts p \<le> now" "ms_points m"] tw
          nth_mem [of "ms_cursor m" "takeWhile (\<lambda>p. mp_ts p \<le> now) (ms_points m)"]
          length_takeWhile_le [of "\<lambda>p. mp_ts p \<le> now" "ms_points m"] by auto
      with False show False by (auto dest: set_takeWhileD)
    qed
    moreover have "ms_advance m now = m"
      by (subst ms_advance.simps, rule if_not_P [OF False])
    ultimately show ?thesis by simp
  qed
qed

lemma last_opt_last: "last_opt xs = (if xs = [] then None else Some (last xs))"
  by (induction xs rule: last_opt.induct) auto

text \<open>A cursor that no later query has moved past \<open>now\<close> answers for \<open>now\<close>.\<close>

definition ms_before :: "mark_series \<Rightarrow> u64 \<Rightarrow> bool" where
  "ms_before m now \<longleftrightarrow> ms_cursor m \<le> length (filter (\<lambda>p. mp_ts p \<le> now) (ms_points m))"

lemma filter_length_mono: "(\<And>x. P x \<Longrightarrow> Q x) \<Longrightarrow> length (filter P xs) \<le> length (filter Q xs)"
  by (induction xs) (auto simp: le_SucI)

lemma ms_before_later: "ms_before m now \<Longrightarrow> now \<le> t \<Longrightarrow> ms_before m t"
proof -
  assume "ms_before m now" "now \<le> t"
  moreover have "length (filter (\<lambda>p. mp_ts p \<le> now) (ms_points m)) \<le> length (filter (\<lambda>p. mp_ts p \<le> t) (ms_points m))"
    using filter_length_mono [of "\<lambda>p. mp_ts p \<le> now" "\<lambda>p. mp_ts p \<le> t"] \<open>now \<le> t\<close> by fastforce
  ultimately show ?thesis by (simp add: ms_before_def)
qed

lemma ms_advance_latest:
  assumes ok: "ms_ok m" and b: "ms_before m now"
  shows "ms_current (ms_advance m now) = latest (ms_points m) now" "ms_before (ms_advance m now) now"
proof -
  let ?f = "filter (\<lambda>p. mp_ts p \<le> now) (ms_points m)"
  have c: "ms_cursor (ms_advance m now) = length ?f"
    using ms_advance_cursor [OF ok, of now] b by (simp add: ms_before_def)
  then show "ms_before (ms_advance m now) now" by (simp add: ms_before_def)
  have tw: "?f = takeWhile (\<lambda>p. mp_ts p \<le> now) (ms_points m)"
    using ok by (simp add: ms_ok_def sorted_takeWhile_le)
  have "ms_points m ! (length ?f - 1) = last ?f" if "?f \<noteq> []"
    using that takeWhile_nth [of "length ?f - 1" "\<lambda>p. mp_ts p \<le> now" "ms_points m"]
    unfolding tw by (simp add: last_conv_nth)
  with ms_ok_advance [OF ok, of now] c
  show "ms_current (ms_advance m now) = latest (ms_points m) now"
    by (simp add: ms_ok_def latest_def last_opt_last)
qed

text \<open>What the runner asks at each event: the mark, then the funding rate at the same time.\<close>

fun mark_answers :: "mark_series \<Rightarrow> u64 list \<Rightarrow> (price option \<times> rat option) list" where
  "mark_answers m [] = []"
| "mark_answers m (now # ts) =
     (let (p, m1) = mark_at m now; (f, m2) = funding_at m1 now in (p, f) # mark_answers m2 ts)"

lemma mark_answers_latest:
  assumes "ms_ok m" "sorted ts" "\<And>t. ts \<noteq> [] \<Longrightarrow> ms_before m (hd ts)"
  shows "mark_answers m ts = map (\<lambda>t. (map_option mp_mark (latest (ms_points m) t),
           Option.bind (latest (ms_points m) t) mp_funding)) ts"
  using assms
proof (induction ts arbitrary: m)
  case (Cons now ts)
  let ?m1 = "ms_advance m now"
  let ?m2 = "ms_advance ?m1 now"
  have b: "ms_before m now" using Cons.prems(3) by simp
  note l1 = ms_advance_latest [OF Cons.prems(1) b]
  note ok1 = ms_ok_advance [OF Cons.prems(1), of now]
  note l2 = ms_advance_latest [OF ok1 l1(2)]
  have "ms_before ?m2 (hd ts)" if "ts \<noteq> []"
    by (rule ms_before_later [OF l2(2)]) (use Cons.prems(2) that in \<open>cases ts; simp\<close>)
  then have "mark_answers ?m2 ts = map (\<lambda>t. (map_option mp_mark (latest (ms_points m) t),
      Option.bind (latest (ms_points m) t) mp_funding)) ts"
    using Cons.IH [OF ms_ok_advance [OF ok1, of now]] Cons.prems(2) by simp
  then show ?case using l1(1) l2(1) by (simp add: mark_at_def funding_at_def Let_def)
qed simp

text \<open>
  The mark series answers, on queries in order of time, exactly what a search of the whole
  series would: the mark and the funding rate of the last point, in time order, that is not
  later than the query, and nothing before the first point.
\<close>

theorem mark_lookup_exact:
  assumes "sorted ts"
  shows "mark_answers (from_points_with_funding ps) ts = map (\<lambda>t.
      (map_option mp_mark (latest (ms_points (from_points_with_funding ps)) t),
       Option.bind (latest (ms_points (from_points_with_funding ps)) t) mp_funding)) ts"
  by (rule mark_answers_latest [OF ms_ok_new assms])
    (simp add: ms_before_def from_points_with_funding_def)

lemma mark_lookup_exact_witness:
  "mark_answers (from_points_with_funding [(20, 7, Some (1/8)), (10, 5, None)]) [5, 10, 15, 30]
     = [(None, None), (Some 5, None), (Some 5, None), (Some 7, Some (1/8))]"
  using mark_lookup_exact [of "[5, 10, 15, 30]" "[(20, 7, Some (1/8)), (10, 5, None)]"]
  by (simp add: from_points_with_funding_def latest_def)

end
