(* ===== verification/Runner.thy ===== *)
theory Runner
  imports Runner_Guards Sim_Events Pnl Risk_Gate Liquidation Mark_Series
begin

text \<open>
  The backtest runner, \<open>run_inner\<close> of \<open>crates/tikr-paper/src/runner.rs\<close> with
  \<open>external_fills = None\<close>: the event loop that drives a strategy against the fill simulation
  and composes every component below it.  \<open>event_step\<close> is the market-event arm of the loop, cut
  into its stages in the code's order; \<open>notional_arm\<close> and \<open>maxpos_arm\<close> are the two watch-channel
  arms that the biased \<open>select!\<close> polls before the next event; \<open>run_events\<close> is the loop over a
  recorded stream and \<open>shutdown_step\<close> what follows it.

  The strategy is a parameter, a record of its callbacks over its own state, as it is a type
  parameter of the code.  A watch channel is its value and whether the receiver has seen it;
  the only senders of a backtest are the runner's own (balance compounding).  The identifiers
  of synthetic fills come from the same source as those of the simulation.

  Not modelled: the live mode, and what a backtest only reports: logging, the dashboard taps,
  the periodic snapshots and the equity file, alerts, the wall-clock status timer and run time.
\<close>

subsection \<open>Configuration and state\<close>

definition dec_u64 :: "u64 \<Rightarrow> rat" where
  "dec_u64 n = of_nat (unat n)"

record 's strategy =
  st_on_event :: "strategy_context \<Rightarrow> market_event \<Rightarrow> 's \<Rightarrow> 's \<times> action list"
  st_on_quote_rejected :: "strategy_context \<Rightarrow> quote_intent \<Rightarrow> reject_reason \<Rightarrow> 's \<Rightarrow> 's \<times> action list"
  st_on_notional_updated :: "strategy_context \<Rightarrow> rat \<Rightarrow> 's \<Rightarrow> 's \<times> action list"
  st_on_max_position_updated :: "strategy_context \<Rightarrow> rat \<Rightarrow> 's \<Rightarrow> 's \<times> action list"
  st_on_shutdown :: "strategy_context \<Rightarrow> 's \<Rightarrow> 's \<times> action list"

record runner_env =
  re_sim :: sim_env
  re_powd :: "rat \<Rightarrow> rat \<Rightarrow> rat"
  re_digits :: "qsize \<Rightarrow> nat"

record funding_config =
  fg_interval_secs :: u64
  fg_rate_per_interval :: rat

record skim_config =
  sk_budget :: rat
  sk_skim_pct :: rat
  sk_skim_ratio :: rat

record runner_config =
  rc_symbol :: symbol
  rc_initial_balance :: rat
  rc_order_balance_pct :: rat
  rc_max_position_pct :: rat
  rc_boost :: "boost_config option"
  rc_bagger :: bagger_config
  rc_funding :: "funding_config option"
  rc_liquidation :: "liquidation_config option"
  rc_mark_series :: "mark_series option"
  rc_skim :: "skim_config option"
  rc_spot_seed :: "(rat \<times> rat \<times> price) option"
  rc_seed_position :: "(signed_size \<times> price) option"
  rc_retrace_boundary_ts :: "u64 option"
  rc_liq_window_secs :: u32

record fill_counts =
  ct_emitted :: u64
  ct_full :: u64
  ct_partial :: u64
  ct_buys :: u64
  ct_sells :: u64
  ct_buy_volume :: rat
  ct_sell_volume :: rat
  ct_rate :: fill_rate_tracker

record position_stats =
  ps_peak :: rat
  ps_peak_long :: rat
  ps_peak_short :: rat
  ps_sum :: rat
  ps_samples :: u64

record skim_state =
  si_profit :: rat
  si_count :: u64
  si_total :: rat
  si_last_net :: rat
  si_stacked :: rat

record watch =
  wt_value :: rat
  wt_changed :: bool

record paper_report =
  pp_realized :: notional
  pp_unrealized :: notional
  pp_fees :: notional
  pp_funding :: notional
  pp_net :: notional
  pp_sim_duration_secs :: u64
  pp_events_processed :: u64
  pp_risk_state :: "risk_state option"
  pp_counts :: fill_counts
  pp_stats :: position_stats
  pp_mean_position :: rat
  pp_skim :: skim_state
  pp_final_perp_balance :: rat
  pp_final_base_value :: rat
  pp_liquidations :: u64
  pp_rejected_orders :: u64
  pp_projected_net :: notional

record 's runner =
  rn_strategy :: 's
  rn_tracker :: position_tracker
  rn_gate :: "risk_gate option"
  rn_sim :: fill_sim
  rn_liq :: "liquidation_model option"
  rn_bag :: bag_runner
  rn_window :: liq_window
  rn_marks :: "mark_series option"
  rn_book :: snapshot
  rn_last_mid :: price
  rn_last_mark :: price
  rn_counts :: fill_counts
  rn_stats :: position_stats
  rn_skim :: skim_state
  rn_max_position :: rat
  rn_notional_ch :: "watch option"
  rn_maxpos_ch :: "watch option"
  rn_last_funding :: "timestamp option"
  rn_events :: u64
  rn_rejected :: u64
  rn_first_ts :: "timestamp option"
  rn_last_ts :: "timestamp option"
  rn_boundary :: "paper_report option"

subsection \<open>Fills\<close>

definition count_fill :: "decimal_ops \<Rightarrow> fill \<Rightarrow> fill_counts \<Rightarrow> fill_counts" where
  "count_fill D f c =
     (let c = c\<lparr>ct_emitted := ct_emitted c + 1, ct_rate := fill_rate_observe (ct_rate c) (f_ts f)\<rparr>;
          c = (if f_is_full f then c\<lparr>ct_full := ct_full c + 1\<rparr> else c\<lparr>ct_partial := ct_partial c + 1\<rparr>)
      in case f_side f of
           Bid \<Rightarrow> c\<lparr>ct_buys := ct_buys c + 1,
                     ct_buy_volume := dadd D (ct_buy_volume c) (dmul D (f_price f) (f_size f))\<rparr>
         | Ask \<Rightarrow> c\<lparr>ct_sells := ct_sells c + 1,
                     ct_sell_volume := dadd D (ct_sell_volume c) (dmul D (f_price f) (f_size f))\<rparr>)"

definition apply_fill :: "decimal_ops \<Rightarrow> fill \<Rightarrow> 's runner \<Rightarrow> 's runner" where
  "apply_fill D f s = s\<lparr>rn_tracker := tracker_apply D (rn_tracker s) f,
     rn_gate := map_option (\<lambda>g. record_fill g (f_ts f)) (rn_gate s),
     rn_counts := count_fill D f (rn_counts s)\<rparr>"

definition running_balance :: "decimal_ops \<Rightarrow> runner_config \<Rightarrow> position_tracker \<Rightarrow> rat" where
  "running_balance D c t = dsub D (dadd D (rc_initial_balance c) (tr_realized_pnl t)) (tr_fees_paid t)"

text \<open>\<open>QuoteId::new\<close>: the next identifier of the source.\<close>

definition next_id :: "runner_env \<Rightarrow> 's runner \<Rightarrow> quote_id" where
  "next_id E s = se_uuid (re_sim E) (fs_minted (rn_sim s))"

definition used_id :: "fill_sim \<Rightarrow> fill_sim" where
  "used_id fs = fs\<lparr>fs_minted := Suc (fs_minted fs)\<rparr>"

subsection \<open>What an event does before the strategy sees it\<close>

definition sample_position :: "decimal_ops \<Rightarrow> rat \<Rightarrow> price \<Rightarrow> position_stats \<Rightarrow> position_stats" where
  "sample_position D signed_size mid p =
     (let n = dmul D \<bar>signed_size\<bar> mid; p = (if ps_peak p < n then p\<lparr>ps_peak := n\<rparr> else p);
          p = (if 0 < signed_size then if ps_peak_long p < n then p\<lparr>ps_peak_long := n\<rparr> else p
               else if signed_size < 0 \<and> ps_peak_short p < n then p\<lparr>ps_peak_short := n\<rparr> else p)
      in p\<lparr>ps_sum := dadd D (ps_sum p) n, ps_samples := ps_samples p + 1\<rparr>)"

definition book_step :: "decimal_ops \<Rightarrow> market_event \<Rightarrow> 's runner \<Rightarrow> 's runner" where
  "book_step D ev s = (case ev of
     BookUpdate sn \<Rightarrow>
       (let s = s\<lparr>rn_book := (rn_book s)\<lparr>sn_bids := sn_bids sn, sn_asks := sn_asks sn, sn_ts := sn_ts sn\<rparr>\<rparr>
        in case (first_opt (sn_bids sn), first_opt (sn_asks sn)) of
             (Some b, Some a) \<Rightarrow>
               (let mid = ddiv D (dadd D (lv_price b) (lv_price a)) 2
                in s\<lparr>rn_last_mid := mid,
                     rn_stats := sample_position D (tr_size (rn_tracker s)) mid (rn_stats s)\<rparr>)
           | _ \<Rightarrow> s)
   | _ \<Rightarrow> s)"

definition mark_step :: "timestamp \<Rightarrow> 's runner \<Rightarrow> 's runner" where
  "mark_step ts s = (case rn_marks s of
     None \<Rightarrow> s\<lparr>rn_last_mark := rn_last_mid s\<rparr>
   | Some m \<Rightarrow> (let (p, m) = mark_at m ts
       in s\<lparr>rn_marks := Some m, rn_last_mark := (case p of Some p \<Rightarrow> p | None \<Rightarrow> rn_last_mid s)\<rparr>))"

definition funding_amount ::
    "decimal_ops \<Rightarrow> rat \<Rightarrow> price \<Rightarrow> rat \<Rightarrow> u64 \<Rightarrow> u64 \<Rightarrow> rat" where
  "funding_amount D pos_size mark rate dt_ns interval_secs =
     dmul D (dmul D (dmul D (- pos_size) mark) rate)
       (ddiv D (ddiv D (dec_u64 dt_ns) 1000000000) (dec_u64 (max interval_secs 1)))"

definition funding_step :: "decimal_ops \<Rightarrow> runner_config \<Rightarrow> timestamp \<Rightarrow> 's runner \<Rightarrow> 's runner" where
  "funding_step D c ts s =
     (case (if rc_spot_seed c \<noteq> None then None else rc_funding c) of None \<Rightarrow> s
      | Some fc \<Rightarrow>
          if rn_last_mark s \<le> 0 then s
          else
            let s = (case rn_last_funding s of None \<Rightarrow> s
              | Some prev \<Rightarrow>
                  let dt = sat_sub ts prev
                  in if dt = 0 then s
                     else
                       let (recorded, marks) = (case rn_marks s of None \<Rightarrow> (None, None)
                             | Some m \<Rightarrow> let (r, m) = funding_at m ts in (r, Some m));
                           rate = (case recorded of Some r \<Rightarrow> r | None \<Rightarrow> fg_rate_per_interval fc)
                       in s\<lparr>rn_marks := marks, rn_tracker := accrue_funding D (rn_tracker s)
                            (funding_amount D (tr_size (rn_tracker s)) (rn_last_mark s) rate dt
                              (fg_interval_secs fc))\<rparr>)
            in s\<lparr>rn_last_funding := Some ts\<rparr>)"

definition compounding :: "runner_config \<Rightarrow> bool" where
  "compounding c \<longleftrightarrow> 0 < rc_initial_balance c \<and> 0 < rc_order_balance_pct c"

definition derived_cap :: "runner_config \<Rightarrow> bool" where
  "derived_cap c \<longleftrightarrow> \<not> compounding c \<and> 0 < rc_max_position_pct c"

definition wallet_step :: "decimal_ops \<Rightarrow> runner_config \<Rightarrow> 's runner \<Rightarrow> 's runner" where
  "wallet_step D c s =
     (let w = running_balance D c (rn_tracker s); s = s\<lparr>rn_sim := set_wallet (rn_sim s) w\<rparr>
      in if derived_cap c \<and> 0 < w
         then s\<lparr>rn_max_position := ddiv D (dmul D w (rc_max_position_pct c)) 100\<rparr> else s)"

definition liquidation_step ::
    "runner_env \<Rightarrow> runner_config \<Rightarrow> timestamp \<Rightarrow> 's runner \<Rightarrow> 's runner" where
  "liquidation_step E c ts s =
     (let D = se_dec (re_sim E)
      in if rn_last_mark s \<le> 0 then s
         else case rn_liq s of None \<Rightarrow> s
         | Some m \<Rightarrow>
             (case liq_check D (next_id E s) m (tracker_snapshot (rn_tracker s)) (rn_last_mark s)
                 (running_balance D c (rn_tracker s)) ts of
               (None, m) \<Rightarrow> s\<lparr>rn_liq := Some m\<rparr>
             | (Some f, m) \<Rightarrow> apply_fill D f
                 (s\<lparr>rn_liq := Some m, rn_sim := drop_quotes_for (used_id (rn_sim s)) (rc_symbol c)\<rparr>)))"

definition bagger_leverage :: "runner_config \<Rightarrow> rat" where
  "bagger_leverage c = (case rc_liquidation c of None \<Rightarrow> 1
     | Some l \<Rightarrow> if 0 < lc_leverage l then lc_leverage l else 1)"

definition bagger_env :: "runner_env \<Rightarrow> runner_config \<Rightarrow> 's runner \<Rightarrow> bag_env" where
  "bagger_env E c s = \<lparr>be_config = rc_bagger c, be_leverage = bagger_leverage c,
     be_balance = running_balance (se_dec (re_sim E)) c (rn_tracker s),
     be_order_notional = (case rn_notional_ch s of Some w \<Rightarrow> wt_value w | None \<Rightarrow> 0),
     be_taker_bps = dec_u32 (vf_taker_bps (fc_fees (fs_cfg (rn_sim s)))),
     be_maker_bps = dec_i32 (vf_maker_bps (fc_fees (fs_cfg (rn_sim s)))),
     be_symbol = rc_symbol c, be_fill_id = next_id E s\<rparr>"

definition bagger_step :: "runner_env \<Rightarrow> runner_config \<Rightarrow> timestamp \<Rightarrow> 's runner \<Rightarrow> 's runner" where
  "bagger_step E c ts s =
     (let D = se_dec (re_sim E)
      in case bagger_tick D (bagger_env E c s) (rn_bag s) (tracker_snapshot (rn_tracker s))
           (rn_book s) (rn_last_mark s) ts of
        (b, None) \<Rightarrow> s\<lparr>rn_bag := b\<rparr>
      | (b, Some (f, dropped)) \<Rightarrow> apply_fill D f
          (s\<lparr>rn_bag := b, rn_sim := (if dropped then drop_quotes_for (used_id (rn_sim s)) (rc_symbol c)
             else used_id (rn_sim s))\<rparr>))"

subsection \<open>The strategy's answer\<close>

definition context_of ::
    "runner_config \<Rightarrow> timestamp \<Rightarrow> position \<Rightarrow> fill list \<Rightarrow> snapshot \<Rightarrow> view \<Rightarrow> liq_event list
      \<Rightarrow> strategy_context" where
  "context_of c now pos fills book quotes liqs = \<lparr>cx_symbol = rc_symbol c, cx_now = now,
     cx_position = pos, cx_recent_fills = fills, cx_latest_book = book, cx_open_quotes = quotes,
     cx_recent_liqs = liqs\<rparr>"

fun gate_filter ::
    "decimal_ops \<Rightarrow> risk_context \<Rightarrow> risk_gate \<Rightarrow> action list \<Rightarrow> action list \<times> risk_gate" where
  "gate_filter D rx g [] = ([], g)"
| "gate_filter D rx g (a # as) =
     (let (d, g) = gate_check D g a rx; (out, g) = gate_filter D rx g as
      in (if d = Allow then a # out else out, g))"

definition risk_filter ::
    "decimal_ops \<Rightarrow> position \<Rightarrow> timestamp \<Rightarrow> action list \<Rightarrow> 's runner \<Rightarrow> action list \<times> 's runner" where
  "risk_filter D pos ts actions s = (case rn_gate s of None \<Rightarrow> (actions, s)
     | Some g \<Rightarrow>
         (let (out, g) = gate_filter D \<lparr>rx_position = pos,
                rx_pnl = tracker_report D (rn_tracker s) (rn_last_mark s), rx_now = ts\<rparr> g actions
          in (out, s\<lparr>rn_gate := Some g\<rparr>)))"

definition dispatch :: "sim_env \<Rightarrow> timestamp \<Rightarrow> action list \<Rightarrow> fill_sim \<Rightarrow> fill_sim" where
  "dispatch E ts actions fs = foldl (\<lambda>fs a. on_action E fs a ts) fs actions"

definition strategy_step ::
    "runner_env \<Rightarrow> runner_config \<Rightarrow> 's strategy \<Rightarrow> market_event \<Rightarrow> timestamp \<Rightarrow> 's runner \<Rightarrow> 's runner"
  where
  "strategy_step E c S ev ts s =
     (let D = se_dec (re_sim E); pos = tracker_snapshot (rn_tracker s);
          (resting_bid, resting_ask) = committed_notional_by_side D (rn_sim s) (rc_symbol c);
          (quotes, fs) = open_quotes (re_sim E) (rn_sim s) (rc_symbol c);
          (window, liqs) = liq_observe (rn_window s) ts;
          (st, actions) = st_on_event S (context_of c ts pos [] (rn_book s) quotes liqs) ev (rn_strategy s);
          s = s\<lparr>rn_strategy := st, rn_sim := fs, rn_window := window\<rparr>;
          mark_price = (if 0 < rn_last_mark s then rn_last_mark s
                        else (case snapshot_mid D (rn_book s) of Some m \<Rightarrow> m | None \<Rightarrow> rn_last_mid s));
          actions = guard_actions D (re_powd E) (re_digits E) (rc_boost c) pos mark_price
            resting_bid resting_ask (rn_max_position s) actions;
          (actions, s) = risk_filter D pos ts actions s
      in s\<lparr>rn_sim := dispatch (re_sim E) ts actions (rn_sim s)\<rparr>)"

subsection \<open>The simulation's fills\<close>

text \<open>\<open>dispatch_post_fill_actions\<close> in paper mode: both guards, no risk gate.\<close>

definition gated_boost :: "boost_config option \<Rightarrow> bool" where
  "gated_boost b = (case b of None \<Rightarrow> False
     | Some b \<Rightarrow> ib_profit_gated b \<and> \<not> ib_chase b \<and> 0 < ib_profit_full_bps b)"

definition post_fill_actions ::
    "runner_env \<Rightarrow> runner_config \<Rightarrow> position \<Rightarrow> 's runner \<Rightarrow> action list \<Rightarrow> action list" where
  "post_fill_actions E c pos s actions =
     (let D = se_dec (re_sim E)
      in case snapshot_mid D (rn_book s) of None \<Rightarrow> actions
         | Some mid \<Rightarrow>
             if 0 < rn_max_position s \<or> gated_boost (rc_boost c) then
               let avg = p_avg_entry pos; cap_price = (if 0 < avg then avg else mid);
                   signed_pos_notional = dmul D (p_size pos) cap_price;
                   actions = (case rc_boost c of
                     Some b \<Rightarrow> apply_inventory_size_boost D (re_powd E) (re_digits E) actions
                       signed_pos_notional (rn_max_position s) avg b
                   | None \<Rightarrow> actions)
               in if 0 < rn_max_position s then
                    let (rb, ra) = committed_notional_by_side D (rn_sim s) (rc_symbol c)
                    in apply_bot_inventory_cap D actions signed_pos_notional rb ra (rn_max_position s)
                  else actions
             else actions)"

definition post_fill_dispatch ::
    "runner_env \<Rightarrow> runner_config \<Rightarrow> position \<Rightarrow> timestamp \<Rightarrow> action list \<Rightarrow> 's runner \<Rightarrow> 's runner"
  where
  "post_fill_dispatch E c pos ts actions s =
     s\<lparr>rn_sim := dispatch (re_sim E) ts (post_fill_actions E c pos s actions) (rn_sim s)\<rparr>"

text \<open>A watch channel is only written when the value has moved by more than a cent.\<close>

definition send_if_moved :: "decimal_ops \<Rightarrow> rat \<Rightarrow> watch \<Rightarrow> watch" where
  "send_if_moved D new w =
     (if 1 / 100 < \<bar>dsub D new (wt_value w)\<bar> then \<lparr>wt_value = new, wt_changed = True\<rparr> else w)"

definition percent_floor0 :: "decimal_ops \<Rightarrow> rat \<Rightarrow> rat \<Rightarrow> rat" where
  "percent_floor0 D x pct = max (ddiv D (dmul D x pct) 100) 0"

definition republish :: "decimal_ops \<Rightarrow> runner_config \<Rightarrow> 's runner \<Rightarrow> 's runner" where
  "republish D c s =
     (if compounding c then
        let balance = running_balance D c (rn_tracker s)
        in s\<lparr>rn_notional_ch := map_option (send_if_moved D (percent_floor0 D balance (rc_order_balance_pct c)))
               (rn_notional_ch s),
             rn_maxpos_ch := map_option (send_if_moved D (percent_floor0 D balance (rc_max_position_pct c)))
               (rn_maxpos_ch s)\<rparr>
      else s)"

definition fill_step ::
    "runner_env \<Rightarrow> runner_config \<Rightarrow> 's strategy \<Rightarrow> timestamp \<Rightarrow> 's runner \<Rightarrow> fill \<Rightarrow> 's runner" where
  "fill_step E c S ts s f =
     (let D = se_dec (re_sim E); s = republish D c (apply_fill D f s)
      in if \<not> f_is_full f then s
         else
           let pos = tracker_snapshot (rn_tracker s);
               (window, liqs) = liq_observe (rn_window s) ts;
               (st, actions) = st_on_event S (context_of c ts pos [f] (rn_book s)
                   (live_quotes_for (rn_sim s) (rc_symbol c)) liqs) (FillEv f) (rn_strategy s)
           in post_fill_dispatch E c pos ts actions (s\<lparr>rn_strategy := st, rn_window := window\<rparr>))"

definition market_step ::
    "runner_env \<Rightarrow> runner_config \<Rightarrow> 's strategy \<Rightarrow> market_event \<Rightarrow> timestamp \<Rightarrow> 's runner \<Rightarrow> 's runner"
  where
  "market_step E c S ev ts s =
     (let (fills, fs) = on_market_event (re_sim E) (rn_sim s) ev ts
      in foldl (fill_step E c S ts) (s\<lparr>rn_sim := fs\<rparr>) fills)"

subsection \<open>Rejections\<close>

definition max_recovery_rounds :: nat where
  "max_recovery_rounds = 5"

definition recover_one ::
    "runner_env \<Rightarrow> runner_config \<Rightarrow> 's strategy \<Rightarrow> timestamp \<Rightarrow> position \<Rightarrow> 's runner
      \<Rightarrow> quote_intent \<times> reject_reason \<Rightarrow> 's runner" where
  "recover_one E c S ts pos s r =
     (if snd r = MarginInsufficient then s
      else
        let (window, liqs) = liq_observe (rn_window s) ts;
            (st, actions) = st_on_quote_rejected S (context_of c ts pos [] (rn_book s)
                (live_quotes_for (rn_sim s) (rc_symbol c)) liqs) (fst r) (snd r) (rn_strategy s)
        in s\<lparr>rn_strategy := st, rn_window := window, rn_sim := dispatch (re_sim E) ts actions (rn_sim s)\<rparr>)"

text \<open>Entered with \<open>n\<close> rounds left; the queue is drained once more when none is.\<close>

fun recovery_rounds ::
    "runner_env \<Rightarrow> runner_config \<Rightarrow> 's strategy \<Rightarrow> timestamp \<Rightarrow> nat \<Rightarrow> 's runner \<Rightarrow> 's runner" where
  "recovery_rounds E c S ts 0 s = s\<lparr>rn_sim := snd (drain_rejections (rn_sim s))\<rparr>"
| "recovery_rounds E c S ts (Suc n) s =
     (let (rejections, fs) = drain_rejections (rn_sim s); s = s\<lparr>rn_sim := fs\<rparr>
      in if rejections = [] then s
         else
           let s = s\<lparr>rn_rejected := rn_rejected s + of_nat (length rejections)\<rparr>
           in recovery_rounds E c S ts n
                (foldl (recover_one E c S ts (tracker_snapshot (rn_tracker s))) s rejections))"

definition recovery_step ::
    "runner_env \<Rightarrow> runner_config \<Rightarrow> 's strategy \<Rightarrow> timestamp \<Rightarrow> 's runner \<Rightarrow> 's runner" where
  "recovery_step E c S ts s = recovery_rounds E c S ts max_recovery_rounds s"

subsection \<open>Profit skimming\<close>

text \<open>The chunks are taken by a loop that need not end for every arithmetic: an option.\<close>

partial_function (option) skim_chunks ::
    "decimal_ops \<Rightarrow> rat \<Rightarrow> rat \<Rightarrow> price \<Rightarrow> skim_state \<Rightarrow> skim_state option" where
  "skim_chunks D threshold ratio mid k =
     (if threshold \<le> si_profit k \<and> 0 < threshold then
        let spot = dmul D threshold ratio;
            k = (if 0 < spot then k\<lparr>si_stacked := dadd D (si_stacked k) (ddiv D spot mid),
                                    si_total := dadd D (si_total k) spot\<rparr> else k)
        in skim_chunks D threshold ratio mid
             (k\<lparr>si_count := si_count k + 1, si_profit := dsub D (si_profit k) threshold\<rparr>)
      else Some k)"

definition perp_net :: "decimal_ops \<Rightarrow> pnl_report \<Rightarrow> rat \<Rightarrow> rat" where
  "perp_net D r skimmed =
     dsub D (dsub D (dadd D (pr_realized r) (pr_funding r)) (pr_fees r)) skimmed"

definition skim_step :: "decimal_ops \<Rightarrow> runner_config \<Rightarrow> 's runner \<Rightarrow> 's runner option" where
  "skim_step D c s = (case rc_skim c of None \<Rightarrow> Some s
     | Some sk \<Rightarrow>
         if rn_last_mid s \<le> 0 then Some s
         else
           let r = tracker_report D (rn_tracker s) (rn_last_mark s); k = rn_skim s;
               gain = dsub D (perp_net D r (si_total k)) (si_last_net k);
               k = (if 0 < gain then k\<lparr>si_profit := dadd D (si_profit k) gain\<rparr> else k)
           in map_option (\<lambda>k. s\<lparr>rn_skim := k\<lparr>si_last_net := perp_net D r (si_total k)\<rparr>\<rparr>)
                (skim_chunks D (dmul D (sk_budget sk) (sk_skim_pct sk)) (sk_skim_ratio sk)
                  (rn_last_mid s) k))"

subsection \<open>The report\<close>

definition sim_duration :: "timestamp option \<Rightarrow> timestamp option \<Rightarrow> u64" where
  "sim_duration first last_ts = (case (first, last_ts) of
     (Some a, Some b) \<Rightarrow> if a \<le> b then (b - a) div 1000000000 else 0 | _ \<Rightarrow> 0)"

definition finalize :: "decimal_ops \<Rightarrow> runner_config \<Rightarrow> 's runner \<Rightarrow> paper_report" where
  "finalize D c s =
     (let base = tracker_report D (rn_tracker s) (rn_last_mark s); k = rn_skim s; p = rn_stats s
      in \<lparr>pp_realized = pr_realized base, pp_unrealized = pr_unrealized base, pp_fees = pr_fees base,
          pp_funding = pr_funding base, pp_net = pr_net base,
          pp_sim_duration_secs = sim_duration (rn_first_ts s) (rn_last_ts s),
          pp_events_processed = rn_events s, pp_risk_state = map_option rg_state (rn_gate s),
          pp_counts = rn_counts s, pp_stats = p,
          pp_mean_position = (if ps_samples p = 0 then 0
            else round_dp D (ddiv D (ps_sum p) (dec_u64 (ps_samples p))) 8),
          pp_skim = k,
          pp_final_perp_balance = (case rc_skim c of None \<Rightarrow> 0
            | Some sk \<Rightarrow> dadd D (dsub D (dsub D (dadd D (dadd D (sk_budget sk) (pr_realized base))
                (pr_funding base)) (pr_fees base)) (si_total k)) (pr_unrealized base)),
          pp_final_base_value = dmul D (si_stacked k) (rn_last_mark s),
          pp_liquidations = (case rn_liq s of Some m \<Rightarrow> lm_count m | None \<Rightarrow> 0),
          pp_rejected_orders = rn_rejected s, pp_projected_net = pr_net base\<rparr>)"

text \<open>The report is frozen at the first event past the boundary, before it has any effect.\<close>

definition boundary_step :: "decimal_ops \<Rightarrow> runner_config \<Rightarrow> timestamp \<Rightarrow> 's runner \<Rightarrow> 's runner" where
  "boundary_step D c ts s =
     (if rn_boundary s = None \<and> (case rc_retrace_boundary_ts c of Some b \<Rightarrow> b < ts | None \<Rightarrow> False)
      then s\<lparr>rn_boundary := Some (finalize D c s)\<rparr> else s)"

subsection \<open>The loop\<close>

definition stamp_step :: "decimal_ops \<Rightarrow> runner_config \<Rightarrow> timestamp \<Rightarrow> 's runner \<Rightarrow> 's runner" where
  "stamp_step D c ts s =
     (let s = (if rn_first_ts s = None then s\<lparr>rn_first_ts := Some ts\<rparr> else s);
          s = boundary_step D c ts s
      in s\<lparr>rn_last_ts := Some ts\<rparr>)"

definition prepare_step ::
    "runner_env \<Rightarrow> runner_config \<Rightarrow> market_event \<Rightarrow> timestamp \<Rightarrow> 's runner \<Rightarrow> 's runner" where
  "prepare_step E c ev ts s =
     (let D = se_dec (re_sim E)
      in bagger_step E c ts (liquidation_step E c ts (wallet_step D c (funding_step D c ts
           (mark_step ts (book_step D ev (stamp_step D c ts s)))))))"

definition event_step ::
    "runner_env \<Rightarrow> runner_config \<Rightarrow> 's strategy \<Rightarrow> market_event \<Rightarrow> 's runner \<Rightarrow> 's runner option" where
  "event_step E c S ev s =
     (let ts = event_ts ev
      in map_option (\<lambda>s. s\<lparr>rn_events := rn_events s + 1\<rparr>)
           (skim_step (se_dec (re_sim E)) c (recovery_step E c S ts (market_step E c S ev ts
             (strategy_step E c S ev ts (prepare_step E c ev ts s))))))"

text \<open>The watch arms: the strategy learns of a new size or cap before the next event.\<close>

definition loop_now :: "'s runner \<Rightarrow> timestamp" where
  "loop_now s = (case rn_last_ts s of Some t \<Rightarrow> t | None \<Rightarrow> 0)"

definition channel_arm ::
    "runner_env \<Rightarrow> runner_config \<Rightarrow> (strategy_context \<Rightarrow> rat \<Rightarrow> 's \<Rightarrow> 's \<times> action list) \<Rightarrow> rat
      \<Rightarrow> 's runner \<Rightarrow> 's runner" where
  "channel_arm E c callback v s =
     (let pos = tracker_snapshot (rn_tracker s); now = loop_now s;
          (window, liqs) = liq_observe (rn_window s) now;
          (st, actions) = callback (context_of c now pos [] (rn_book s)
              (live_quotes_for (rn_sim s) (rc_symbol c)) liqs) v (rn_strategy s);
          s = s\<lparr>rn_strategy := st, rn_window := window\<rparr>
      in if actions = [] then s else post_fill_dispatch E c pos now actions s)"

definition notional_arm :: "runner_env \<Rightarrow> runner_config \<Rightarrow> 's strategy \<Rightarrow> 's runner \<Rightarrow> 's runner" where
  "notional_arm E c S s = (case rn_notional_ch s of
     Some w \<Rightarrow> if wt_changed w
       then channel_arm E c (st_on_notional_updated S) (wt_value w)
              (s\<lparr>rn_notional_ch := Some (w\<lparr>wt_changed := False\<rparr>)\<rparr>)
       else s
   | None \<Rightarrow> s)"

definition maxpos_arm :: "runner_env \<Rightarrow> runner_config \<Rightarrow> 's strategy \<Rightarrow> 's runner \<Rightarrow> 's runner" where
  "maxpos_arm E c S s = (case rn_maxpos_ch s of
     Some w \<Rightarrow> if wt_changed w
       then channel_arm E c (st_on_max_position_updated S) (wt_value w)
              (s\<lparr>rn_maxpos_ch := Some (w\<lparr>wt_changed := False\<rparr>), rn_max_position := wt_value w\<rparr>)
       else s
   | None \<Rightarrow> s)"

definition settle :: "runner_env \<Rightarrow> runner_config \<Rightarrow> 's strategy \<Rightarrow> 's runner \<Rightarrow> 's runner" where
  "settle E c S s = maxpos_arm E c S (notional_arm E c S s)"

fun run_events ::
    "runner_env \<Rightarrow> runner_config \<Rightarrow> 's strategy \<Rightarrow> market_event list \<Rightarrow> 's runner \<Rightarrow> 's runner option"
  where
  "run_events E c S [] s = Some (settle E c S s)"
| "run_events E c S (ev # evs) s =
     Option.bind (event_step E c S ev (settle E c S s)) (run_events E c S evs)"

definition shutdown_step :: "runner_env \<Rightarrow> runner_config \<Rightarrow> 's strategy \<Rightarrow> 's runner \<Rightarrow> 's runner" where
  "shutdown_step E c S s =
     (let now = sn_ts (rn_book s); (window, liqs) = liq_observe (rn_window s) now;
          (st, actions) = st_on_shutdown S (context_of c now (tracker_snapshot (rn_tracker s)) []
              (rn_book s) (live_quotes_for (rn_sim s) (rc_symbol c)) liqs) (rn_strategy s)
      in s\<lparr>rn_strategy := st, rn_window := window, rn_sim := dispatch (re_sim E) now actions (rn_sim s)\<rparr>)"

subsection \<open>Start and end of a run\<close>

definition start_tracker ::
    "runner_config \<Rightarrow> (notional \<times> notional \<times> notional) option \<Rightarrow> position_tracker" where
  "start_tracker c resume =
     (let from = (\<lambda>sz avg realized fees funding. tracker_from_snapshot (rc_symbol c)
            \<lparr>p_symbol = rc_symbol c, p_size = sz, p_avg_entry = avg, p_realized_pnl = realized\<rparr>
            realized fees funding)
      in case (resume, rc_seed_position c) of
           (Some (r, fe, fu), Some (sz, avg)) \<Rightarrow> from sz avg r fe fu
         | (Some (r, fe, fu), None) \<Rightarrow> from 0 0 r fe fu
         | (None, Some (sz, avg)) \<Rightarrow> from sz avg 0 0 0
         | (None, None) \<Rightarrow>
             (case rc_spot_seed c of
                Some (cash, units, p0) \<Rightarrow> if 0 < units then from units p0 0 0 0
                  else tracker_new (rc_symbol c)
              | None \<Rightarrow> tracker_new (rc_symbol c)))"

definition zero_counts :: fill_counts where
  "zero_counts = \<lparr>ct_emitted = 0, ct_full = 0, ct_partial = 0, ct_buys = 0, ct_sells = 0,
     ct_buy_volume = 0, ct_sell_volume = 0, ct_rate = fill_rate_new\<rparr>"

definition zero_stats :: position_stats where
  "zero_stats = \<lparr>ps_peak = 0, ps_peak_long = 0, ps_peak_short = 0, ps_sum = 0, ps_samples = 0\<rparr>"

definition start_cap :: "decimal_ops \<Rightarrow> runner_config \<Rightarrow> rat" where
  "start_cap D c =
     (let share = ddiv D (dmul D (rc_initial_balance c) (rc_max_position_pct c)) 100
      in if (compounding c \<and> 0 < rc_max_position_pct c) \<or> (derived_cap c \<and> 0 < rc_initial_balance c)
         then share else 0)"

text \<open>A fresh run: no report to resume from.\<close>

definition runner_start ::
    "runner_env \<Rightarrow> runner_config \<Rightarrow> 's \<Rightarrow> risk_gate option \<Rightarrow> fill_sim \<Rightarrow> liq_event list option
      \<Rightarrow> 's runner" where
  "runner_start E c st gate fs liqs =
     (let D = se_dec (re_sim E); spot = (rc_spot_seed c \<noteq> None);
          share = (\<lambda>pct. ddiv D (dmul D (rc_initial_balance c) pct) 100)
      in \<lparr>rn_strategy = st, rn_tracker = start_tracker c None, rn_gate = gate,
          rn_sim = (case rc_spot_seed c of Some (cash, units, p0) \<Rightarrow> seed_spot fs cash units | None \<Rightarrow> fs),
          rn_liq = (if spot then None else map_option liquidation_new (rc_liquidation c)),
          rn_bag = \<lparr>br_state = bagger_init, br_last_flatten_ns = 0, br_flattens = 0\<rparr>,
          rn_window = liq_window_new liqs (rc_liq_window_secs c),
          rn_marks = rc_mark_series c,
          rn_book = \<lparr>sn_symbol = rc_symbol c, sn_bids = [], sn_asks = [], sn_ts = 0\<rparr>,
          rn_last_mid = 0, rn_last_mark = 0, rn_counts = zero_counts, rn_stats = zero_stats,
          rn_skim = \<lparr>si_profit = 0, si_count = 0, si_total = 0, si_last_net = 0, si_stacked = 0\<rparr>,
          rn_max_position = start_cap D c,
          rn_notional_ch = (if compounding c
            then Some \<lparr>wt_value = share (rc_order_balance_pct c), wt_changed = False\<rparr> else None),
          rn_maxpos_ch = (if compounding c \<and> 0 < rc_max_position_pct c
            then Some \<lparr>wt_value = share (rc_max_position_pct c), wt_changed = False\<rparr> else None),
          rn_last_funding = None, rn_events = 0, rn_rejected = 0, rn_first_ts = None,
          rn_last_ts = None, rn_boundary = None\<rparr>)"

definition final_report :: "decimal_ops \<Rightarrow> runner_config \<Rightarrow> 's runner \<Rightarrow> paper_report" where
  "final_report D c s =
     (let post = finalize D c s
      in (case rn_boundary s of Some r \<Rightarrow> r | None \<Rightarrow> post)\<lparr>pp_projected_net := pp_net post\<rparr>)"

definition run ::
    "runner_env \<Rightarrow> runner_config \<Rightarrow> 's strategy \<Rightarrow> market_event list \<Rightarrow> 's runner \<Rightarrow> paper_report option"
  where
  "run E c S evs s = map_option (\<lambda>s. final_report (se_dec (re_sim E)) c (shutdown_step E c S s))
     (run_events E c S evs s)"

end
