(* ===== verification/Runner_Flow.thy ===== *)
theory Runner_Flow
  imports Runner Sim_Registry
begin

text \<open>
  What the event loop keeps.  \<open>engine_invariant\<close> lifts any property that the calls of the fill
  simulation keep to the whole loop, and is interpreted with the engine's own invariant and
  with its cap on open orders.  The other sections are the runner's own books: the fill
  counters, the exposure peaks, the published cap, the rejection rounds and the watch channels.
\<close>

subsection \<open>What the stages leave alone\<close>

lemma apply_fill_fields [simp]:
  "rn_sim (apply_fill D f s) = rn_sim s" "rn_strategy (apply_fill D f s) = rn_strategy s"
  "rn_book (apply_fill D f s) = rn_book s" "rn_window (apply_fill D f s) = rn_window s"
  "rn_max_position (apply_fill D f s) = rn_max_position s"
  "rn_notional_ch (apply_fill D f s) = rn_notional_ch s"
  "rn_maxpos_ch (apply_fill D f s) = rn_maxpos_ch s" "rn_stats (apply_fill D f s) = rn_stats s"
  "rn_rejected (apply_fill D f s) = rn_rejected s"
  "rn_counts (apply_fill D f s) = count_fill D f (rn_counts s)"
  "rn_tracker (apply_fill D f s) = tracker_apply D (rn_tracker s) f"
  "rn_gate (apply_fill D f s) = map_option (\<lambda>g. record_fill g (f_ts f)) (rn_gate s)"
  by (simp_all add: apply_fill_def)

lemma on_action_rejections [simp]: "fs_rejections (on_action E fs a ts) = fs_rejections fs"
  by (cases a) (simp_all add: submit_def submit_cancel_def enqueue_def sample_latency_ns_def
      case_prod_unfold Let_def)

lemma dispatch_Nil [simp]: "dispatch E ts [] fs = fs"
  by (simp add: dispatch_def)

lemma dispatch_Cons [simp]: "dispatch E ts (a # as) fs = dispatch E ts as (on_action E fs a ts)"
  by (simp add: dispatch_def)

lemma dispatch_rejections [simp]: "fs_rejections (dispatch E ts as fs) = fs_rejections fs"
  by (induction as arbitrary: fs) simp_all

lemma bookkeeping_sim [simp]:
  "rn_sim (stamp_step D c ts s) = rn_sim s" "rn_sim (book_step D ev s) = rn_sim s"
  "rn_sim (mark_step ts s) = rn_sim s" "rn_sim (funding_step D c ts s) = rn_sim s"
  "rn_sim (wallet_step D c s) = set_wallet (rn_sim s) (running_balance D c (rn_tracker s))"
proof -
  show "rn_sim (stamp_step D c ts s) = rn_sim s"
    by (simp add: stamp_step_def boundary_step_def Let_def)
  show "rn_sim (book_step D ev s) = rn_sim s"
    by (simp add: book_step_def Let_def split: market_event.split option.split)
  show "rn_sim (mark_step ts s) = rn_sim s"
    by (simp add: mark_step_def case_prod_unfold Let_def split: option.split)
  show "rn_sim (funding_step D c ts s) = rn_sim s"
    by (simp add: funding_step_def case_prod_unfold Let_def split: option.split)
  show "rn_sim (wallet_step D c s) = set_wallet (rn_sim s) (running_balance D c (rn_tracker s))"
    by (simp add: wallet_step_def Let_def)
qed

subsection \<open>The recovery rounds\<close>

lemma drained [simp]: "snd (drain_rejections fs) = fs\<lparr>fs_rejections := []\<rparr>"
  "fst (drain_rejections fs) = fs_rejections fs"
  by (simp_all add: drain_rejections_def)

lemma recover_one_fields [simp]:
  "fs_rejections (rn_sim (recover_one E c S ts pos s r)) = fs_rejections (rn_sim s)"
  "rn_rejected (recover_one E c S ts pos s r) = rn_rejected s"
  by (simp_all add: recover_one_def case_prod_unfold Let_def)

lemma recover_all_fields [simp]:
  "fs_rejections (rn_sim (foldl (recover_one E c S ts pos) s rs)) = fs_rejections (rn_sim s)"
  "rn_rejected (foldl (recover_one E c S ts pos) s rs) = rn_rejected s"
  by (induction rs arbitrary: s) simp_all

lemma recovery_quiet:
  "fs_rejections (rn_sim s) = [] \<Longrightarrow> recovery_rounds E c S ts n s = s"
  by (cases n) (simp_all add: case_prod_unfold)

text \<open>
  C36: The recovery of rejected orders ends after its first round: an order sent during the
  recovery is only placed by a later event, so no round produces new rejections, the bound on
  the rounds is never what ends the loop, every rejection is counted once, and none is left
  for the next event.
\<close>

theorem recovery_single_round:
  "recovery_rounds E c S ts (Suc n) s = recovery_rounds E c S ts 1 s
   \<and> fs_rejections (rn_sim (recovery_rounds E c S ts (Suc n) s)) = []
   \<and> rn_rejected (recovery_rounds E c S ts (Suc n) s)
       = rn_rejected s + of_nat (length (fs_rejections (rn_sim s)))"
  by (simp add: recovery_quiet case_prod_unfold Let_def)

subsection \<open>Lifting a property of the engine\<close>

text \<open>
  The calls the loop makes on the simulation: all but the import of the venue's order list, and
  the drawing of an identifier for a synthetic fill.
\<close>

locale engine_invariant =
  fixes E :: sim_env and P :: "fill_sim \<Rightarrow> bool"
  assumes call: "P fs \<Longrightarrow> paper_call c \<Longrightarrow> P (sim_step E fs c)"
    and mint: "P fs \<Longrightarrow> P (fs\<lparr>fs_minted := n\<rparr>)"
begin

lemma calls:
  "P fs \<Longrightarrow> P (on_action E fs a ts)" "P fs \<Longrightarrow> P (snd (on_market_event E fs ev ts))"
  "P fs \<Longrightarrow> P (set_wallet fs w)" "P fs \<Longrightarrow> P (snd (open_quotes E fs sy))"
  "P fs \<Longrightarrow> P (drop_quotes_for fs sy)" "P fs \<Longrightarrow> P (fs\<lparr>fs_rejections := []\<rparr>)"
  "P fs \<Longrightarrow> P (used_id fs)"
  using call [of fs "ActCall a ts"] call [of fs "EventCall ev ts"] call [of fs "WalletCall w"]
    call [of fs "ViewCall sy"] call [of fs "DropForCall sy"] call [of fs DrainCall] mint [of fs]
  by (simp_all add: used_id_def)

lemma dispatched: "P fs \<Longrightarrow> P (dispatch E ts as fs)"
  by (induction as arbitrary: fs) (simp_all add: calls)

lemma liquidated: "P (rn_sim s) \<Longrightarrow> re_sim R = E \<Longrightarrow> P (rn_sim (liquidation_step R c ts s))"
  by (simp add: liquidation_step_def Let_def calls split: option.split prod.split)

lemma bagged: "P (rn_sim s) \<Longrightarrow> re_sim R = E \<Longrightarrow> P (rn_sim (bagger_step R c ts s))"
  by (simp add: bagger_step_def Let_def calls split: option.split prod.split)

lemma prepared: "P (rn_sim s) \<Longrightarrow> re_sim R = E \<Longrightarrow> P (rn_sim (prepare_step R c ev ts s))"
  by (simp add: prepare_step_def Let_def bagged liquidated calls)

lemma asked: "P (rn_sim s) \<Longrightarrow> re_sim R = E \<Longrightarrow> P (rn_sim (strategy_step R c S ev ts s))"
  by (simp add: strategy_step_def risk_filter_def case_prod_unfold Let_def calls dispatched
      split: option.splits)

lemma post_filled: "P (rn_sim s) \<Longrightarrow> re_sim R = E \<Longrightarrow> P (rn_sim (post_fill_dispatch R c pos ts as s))"
  by (simp add: post_fill_dispatch_def dispatched)

lemma filled: "P (rn_sim s) \<Longrightarrow> re_sim R = E \<Longrightarrow> P (rn_sim (fill_step R c S ts s f))"
  by (simp add: fill_step_def republish_def case_prod_unfold Let_def post_filled)

lemma all_filled: "P (rn_sim s) \<Longrightarrow> re_sim R = E \<Longrightarrow> P (rn_sim (foldl (fill_step R c S ts) s fs))"
  by (induction fs arbitrary: s) (simp_all add: filled)

lemma matched: "P (rn_sim s) \<Longrightarrow> re_sim R = E \<Longrightarrow> P (rn_sim (market_step R c S ev ts s))"
  by (simp add: market_step_def case_prod_unfold Let_def all_filled calls)

lemma recovered_one: "P (rn_sim s) \<Longrightarrow> re_sim R = E \<Longrightarrow> P (rn_sim (recover_one R c S ts pos s r))"
  by (simp add: recover_one_def case_prod_unfold Let_def dispatched)

lemma recovered_all:
  "P (rn_sim s) \<Longrightarrow> re_sim R = E \<Longrightarrow> P (rn_sim (foldl (recover_one R c S ts pos) s rs))"
  by (induction rs arbitrary: s) (simp_all add: recovered_one)

lemma recovered: "P (rn_sim s) \<Longrightarrow> re_sim R = E \<Longrightarrow> P (rn_sim (recovery_rounds R c S ts n s))"
  by (induction n arbitrary: s) (simp_all add: case_prod_unfold Let_def calls recovered_all)

lemma skimmed: "skim_step D c s = Some s' \<Longrightarrow> rn_sim s' = rn_sim s"
  by (auto simp: skim_step_def Let_def split: option.splits if_splits)

lemma event: "event_step R c S ev s = Some s' \<Longrightarrow> P (rn_sim s) \<Longrightarrow> re_sim R = E \<Longrightarrow> P (rn_sim s')"
  by (auto simp: event_step_def Let_def recovery_step_def skimmed
      dest!: skimmed intro!: recovered matched asked prepared)

lemma channelled: "P (rn_sim s) \<Longrightarrow> re_sim R = E \<Longrightarrow> P (rn_sim (channel_arm R c cb v s))"
  by (simp add: channel_arm_def case_prod_unfold Let_def post_filled)

lemma settled: "P (rn_sim s) \<Longrightarrow> re_sim R = E \<Longrightarrow> P (rn_sim (settle R c S s))"
  by (simp add: settle_def maxpos_arm_def notional_arm_def channelled split: option.splits)

lemma run: "run_events R c S evs s = Some s' \<Longrightarrow> P (rn_sim s) \<Longrightarrow> re_sim R = E \<Longrightarrow> P (rn_sim s')"
proof (induction evs arbitrary: s)
  case (Cons ev evs)
  then show ?case
    by (auto simp: bind_eq_Some_conv settled dest: event [OF _ settled])
qed (auto simp: settled)

end

interpretation sound: engine_invariant E "sim_ok (se_dec E)" for E
  by unfold_locales (simp_all add: sim_ok_step sim_ok_minted)

lemma cap_ok_minted: "cap_ok fs \<Longrightarrow> cap_ok (fs\<lparr>fs_minted := n\<rparr>)"
  by (simp add: cap_ok_def resting_count_def)

interpretation capped: engine_invariant E "\<lambda>fs. cap_ok fs \<and> fs_cfg fs = cfg" for E cfg
  by unfold_locales (simp_all add: cap_ok_step sim_step_cfg cap_ok_minted)

lemma runner_start_sim [simp]:
  "rn_sim (runner_start E c st g fs liqs) = (case rc_spot_seed c of
     Some (cash, units, p0) \<Rightarrow> seed_spot fs cash units | None \<Rightarrow> fs)"
  by (simp add: runner_start_def Let_def)

text \<open>
  C7: The engine stays sound inside the loop: whatever the strategy answers to whatever stream,
  with liquidations, bagger fills, recovery and both channels in play, at the end of every run
  the operations in flight are in order of their due times, the cached commitment is the one
  recomputed from the resting orders, and no symbol has more orders resting than the cap.
\<close>

theorem runner_engine_sound:
  assumes run: "run_events E c S evs (runner_start E c st g (fill_sim_new cfg) liqs) = Some s"
  shows "sorted (map po_at (fs_pending (rn_sim s)))
    \<and> fst (committed_for (se_dec (re_sim E)) (rn_sim s) sy)
        = commitment_at (committed_scan (se_dec (re_sim E)) (fs_live (rn_sim s))) sy
    \<and> (case fc_max_open_orders cfg of None \<Rightarrow> True
        | Some k \<Rightarrow> length (filter (\<lambda>q. lq_symbol q = sy) (fs_live (rn_sim s))) \<le> unat k)"
proof -
  let ?s0 = "runner_start E c st g (fill_sim_new cfg) liqs"
  let ?D = "se_dec (re_sim E)"
  have seeded: "rn_sim ?s0 = fill_sim_new cfg \<or> (\<exists>a b. rn_sim ?s0 = seed_spot (fill_sim_new cfg) a b)"
    by (cases "rc_spot_seed c") auto
  have "sim_ok ?D (seed_spot (fill_sim_new cfg) a b)" for a b
    using sim_ok_step [of "re_sim E" "fill_sim_new cfg" "SeedCall a b"] sim_ok_new by simp
  with seeded have "sim_ok ?D (rn_sim ?s0)" by (auto simp: sim_ok_new)
  from sound.run [OF run this] have ok: "sim_ok ?D (rn_sim s)" by simp
  have new: "cap_ok (fill_sim_new cfg) \<and> fs_cfg (fill_sim_new cfg) = cfg"
    by (simp add: cap_ok_def resting_count_def fill_sim_new_def Let_def)
  then have "cap_ok (rn_sim ?s0) \<and> fs_cfg (rn_sim ?s0) = cfg"
    using seeded by (auto simp: seed_spot_def cap_ok_def resting_count_def)
  from capped.run [OF run this] have cap: "cap_ok (rn_sim s)" "fs_cfg (rn_sim s) = cfg" by simp_all
  show ?thesis
    using ok cap commitment.read_exact [of "rn_sim s" ?D]
    by (auto simp: ok_defs committed_for_eq cap_ok_def resting_count_def split: option.splits)
qed

subsection \<open>The watch channels\<close>

lemma channel_arm_fields [simp]:
  "rn_notional_ch (channel_arm E c cb v s) = rn_notional_ch s"
  "rn_maxpos_ch (channel_arm E c cb v s) = rn_maxpos_ch s"
  "rn_max_position (channel_arm E c cb v s) = rn_max_position s"
  by (simp_all add: channel_arm_def post_fill_dispatch_def case_prod_unfold Let_def)

definition seen :: "watch option \<Rightarrow> bool" where
  "seen w = (case w of None \<Rightarrow> True | Some w \<Rightarrow> \<not> wt_changed w)"

lemma notional_arm_seen:
  "seen (rn_notional_ch (notional_arm E c S s))" "seen (rn_notional_ch s) \<Longrightarrow> notional_arm E c S s = s"
  by (auto simp: notional_arm_def seen_def split: option.splits)

lemma maxpos_arm_seen:
  "seen (rn_maxpos_ch (maxpos_arm E c S s))" "seen (rn_maxpos_ch s) \<Longrightarrow> maxpos_arm E c S s = s"
  "rn_notional_ch (maxpos_arm E c S s) = rn_notional_ch s"
  "rn_max_position (maxpos_arm E c S s) = (case rn_maxpos_ch s of
     Some w \<Rightarrow> if wt_changed w then wt_value w else rn_max_position s | None \<Rightarrow> rn_max_position s)"
  by (auto simp: maxpos_arm_def seen_def split: option.splits)

lemma notional_arm_max [simp]:
  "rn_maxpos_ch (notional_arm E c S s) = rn_maxpos_ch s"
  "rn_max_position (notional_arm E c S s) = rn_max_position s"
  by (auto simp: notional_arm_def split: option.splits)

text \<open>
  A published size or cap is delivered, once, before the next market event: after the
  watch arms have run no value is unseen, a changed cap is the cap in force, and running the
  arms again does nothing at all.
\<close>

theorem channels_delivered:
  "seen (rn_notional_ch (settle E c S s)) \<and> seen (rn_maxpos_ch (settle E c S s))
   \<and> rn_max_position (settle E c S s) = (case rn_maxpos_ch s of
       Some w \<Rightarrow> if wt_changed w then wt_value w else rn_max_position s | None \<Rightarrow> rn_max_position s)
   \<and> settle E c S (settle E c S s) = settle E c S s"
  by (auto simp: settle_def notional_arm_seen maxpos_arm_seen split: option.split)

end
