(* ===== verification/Runner_Ledger.thy ===== *)
theory Runner_Ledger
  imports Runner_Flow
begin

text \<open>
  The runner's books: which fills an event applies and what they do (\<open>event_fills\<close>, one ledger
  for the tracker and the counters), and the skimming loop, which ends.
\<close>

subsection \<open>The fills of an event\<close>

definition liquidation_fills :: "runner_env \<Rightarrow> runner_config \<Rightarrow> timestamp \<Rightarrow> 's runner \<Rightarrow> fill list" where
  "liquidation_fills E c ts s =
     (if rn_last_mark s \<le> 0 then []
      else case rn_liq s of None \<Rightarrow> []
      | Some m \<Rightarrow> (case fst (liq_check (se_dec (re_sim E)) (next_id E s) m
            (tracker_snapshot (rn_tracker s)) (rn_last_mark s)
            (running_balance (se_dec (re_sim E)) c (rn_tracker s)) ts) of None \<Rightarrow> [] | Some f \<Rightarrow> [f]))"

definition bagger_fills :: "runner_env \<Rightarrow> runner_config \<Rightarrow> timestamp \<Rightarrow> 's runner \<Rightarrow> fill list" where
  "bagger_fills E c ts s =
     (case snd (bagger_tick (se_dec (re_sim E)) (bagger_env E c s) (rn_bag s)
        (tracker_snapshot (rn_tracker s)) (rn_book s) (rn_last_mark s) ts) of
        None \<Rightarrow> [] | Some (f, _) \<Rightarrow> [f])"

text \<open>The state after the mark and the funding of the event, and the fills from there on.\<close>

definition opened :: "runner_env \<Rightarrow> runner_config \<Rightarrow> market_event \<Rightarrow> 's runner \<Rightarrow> 's runner" where
  "opened E c ev s = (let D = se_dec (re_sim E); ts = event_ts ev in
     wallet_step D c (funding_step D c ts (mark_step ts (book_step D ev (stamp_step D c ts s)))))"

definition event_fills ::
    "runner_env \<Rightarrow> runner_config \<Rightarrow> 's strategy \<Rightarrow> market_event \<Rightarrow> 's runner \<Rightarrow> fill list" where
  "event_fills E c S ev s =
     (let ts = event_ts ev; s1 = opened E c ev s; s2 = liquidation_step E c ts s1;
          s3 = bagger_step E c ts s2
      in liquidation_fills E c ts s1 @ bagger_fills E c ts s2
         @ fst (on_market_event (re_sim E) (rn_sim (strategy_step E c S ev ts s3)) ev ts))"

text \<open>The two books a fill is entered in.\<close>

definition books :: "'s runner \<Rightarrow> position_tracker \<times> fill_counts" where
  "books s = (rn_tracker s, rn_counts s)"

definition enter :: "decimal_ops \<Rightarrow> position_tracker \<times> fill_counts \<Rightarrow> fill \<Rightarrow> position_tracker \<times> fill_counts" where
  "enter D b f = (tracker_apply D (fst b) f, count_fill D f (snd b))"

lemma books_apply_fill [simp]: "books (apply_fill D f s) = enter D (books s) f"
  by (simp add: books_def enter_def)

lemma books_frame [simp]:
  "books (s\<lparr>rn_sim := x\<rparr>) = books s" "books (s\<lparr>rn_liq := l\<rparr>) = books s" "books (s\<lparr>rn_bag := b\<rparr>) = books s"
  "books (s\<lparr>rn_strategy := st\<rparr>) = books s" "books (s\<lparr>rn_window := w\<rparr>) = books s"
  "books (s\<lparr>rn_gate := g\<rparr>) = books s" "books (s\<lparr>rn_rejected := r\<rparr>) = books s"
  "books (s\<lparr>rn_notional_ch := n\<rparr>) = books s" "books (s\<lparr>rn_maxpos_ch := n\<rparr>) = books s"
  "books (s\<lparr>rn_skim := k\<rparr>) = books s" "books (s\<lparr>rn_events := ne\<rparr>) = books s"
  by (simp_all add: books_def)

lemma books_liquidation:
  "books (liquidation_step E c ts s) = foldl (enter (se_dec (re_sim E))) (books s) (liquidation_fills E c ts s)"
  by (auto simp: liquidation_step_def liquidation_fills_def Let_def split: option.split prod.split)

lemma books_bagger:
  "books (bagger_step E c ts s) = foldl (enter (se_dec (re_sim E))) (books s) (bagger_fills E c ts s)"
  by (auto simp: bagger_step_def bagger_fills_def Let_def split: option.split prod.split)

lemma books_strategy [simp]: "books (strategy_step E c S ev ts s) = books s"
  by (auto simp: strategy_step_def risk_filter_def case_prod_unfold Let_def split: option.split)

lemma books_fill_step [simp]: "books (fill_step E c S ts s f) = enter (se_dec (re_sim E)) (books s) f"
  by (simp add: fill_step_def republish_def post_fill_dispatch_def case_prod_unfold Let_def)

lemma books_fill_steps: "books (foldl (fill_step E c S ts) s fs) = foldl (enter (se_dec (re_sim E))) (books s) fs"
  by (induction fs arbitrary: s) simp_all

lemma books_market:
  "books (market_step E c S ev ts s) = foldl (enter (se_dec (re_sim E))) (books s)
     (fst (on_market_event (re_sim E) (rn_sim s) ev ts))"
  by (simp add: market_step_def case_prod_unfold Let_def books_fill_steps)

lemma books_recover_one [simp]: "books (recover_one E c S ts pos s r) = books s"
  by (simp add: recover_one_def case_prod_unfold Let_def)

lemma books_recover_all [simp]: "books (foldl (recover_one E c S ts pos) s rs) = books s"
  by (induction rs arbitrary: s) simp_all

lemma books_recovery [simp]: "books (recovery_rounds E c S ts n s) = books s"
  by (induction n arbitrary: s) (simp_all add: case_prod_unfold Let_def)

lemma books_skim: "skim_step D c s = Some s' \<Longrightarrow> books s' = books s"
  by (auto simp: skim_step_def Let_def split: option.splits if_splits)

lemma books_event:
  assumes "event_step E c S ev s = Some s'"
  shows "books s' = foldl (enter (se_dec (re_sim E))) (books (opened E c ev s)) (event_fills E c S ev s)"
  using assms
  by (auto simp: event_step_def Let_def recovery_step_def prepare_step_def opened_def event_fills_def
      books_market books_bagger books_liquidation dest!: books_skim)

text \<open>What entering a list of fills does to the two books.\<close>

lemma foldl_enter: "foldl (enter D) (t, n) fs = (tracker_run D t fs, foldl (\<lambda>n f. count_fill D f n) n fs)"
  by (induction fs arbitrary: t n) (simp_all add: enter_def)

lemma count_one:
  "ct_emitted (count_fill D f n) = ct_emitted n + 1"
  "ct_full (count_fill D f n) = ct_full n + (if f_is_full f then 1 else 0)"
  "ct_partial (count_fill D f n) = ct_partial n + (if f_is_full f then 0 else 1)"
  "ct_buys (count_fill D f n) = ct_buys n + (if f_side f = Bid then 1 else 0)"
  "ct_sells (count_fill D f n) = ct_sells n + (if f_side f = Ask then 1 else 0)"
  by (simp_all add: count_fill_def Let_def split: side.split)

lemma count_all:
  "ct_emitted (foldl (\<lambda>n f. count_fill D f n) n fs) = ct_emitted n + of_nat (length fs)"
  "ct_full (foldl (\<lambda>n f. count_fill D f n) n fs) = ct_full n + of_nat (length (filter f_is_full fs))"
  "ct_partial (foldl (\<lambda>n f. count_fill D f n) n fs)
     = ct_partial n + of_nat (length (filter (\<lambda>f. \<not> f_is_full f) fs))"
  "ct_buys (foldl (\<lambda>n f. count_fill D f n) n fs) = ct_buys n + of_nat (length (filter (\<lambda>f. f_side f = Bid) fs))"
  "ct_sells (foldl (\<lambda>n f. count_fill D f n) n fs) = ct_sells n + of_nat (length (filter (\<lambda>f. f_side f = Ask) fs))"
  by (induction fs arbitrary: n) (auto simp: count_one)

lemma opened_books:
  "rn_counts (opened E c ev s) = rn_counts s"
  "rn_tracker (opened E c ev s) = (rn_tracker s)\<lparr>tr_funding_accrued := tr_funding_accrued (rn_tracker (opened E c ev s))\<rparr>"
proof -
  have 1: "rn_tracker (book_step D ev s) = rn_tracker s" "rn_counts (book_step D ev s) = rn_counts s"
    for D and s :: "'a runner"
    by (simp_all add: book_step_def Let_def split: market_event.split option.split)
  have 2: "rn_tracker (mark_step ts s) = rn_tracker s" "rn_counts (mark_step ts s) = rn_counts s"
    for ts and s :: "'a runner"
    by (simp_all add: mark_step_def case_prod_unfold Let_def split: option.split)
  have 3: "rn_tracker (stamp_step D c ts s) = rn_tracker s" "rn_counts (stamp_step D c ts s) = rn_counts s"
    for D ts and s :: "'a runner"
    by (simp_all add: stamp_step_def boundary_step_def Let_def)
  have 4: "rn_counts (funding_step D c ts s) = rn_counts s"
    "\<exists>x. rn_tracker (funding_step D c ts s) = (rn_tracker s)\<lparr>tr_funding_accrued := x\<rparr>"
    for D ts and s :: "'a runner"
    by (auto simp: funding_step_def accrue_funding_def case_prod_unfold Let_def split: option.split
        intro: exI [of _ "tr_funding_accrued (rn_tracker s)"])
  have 5: "rn_tracker (wallet_step D c s) = rn_tracker s" "rn_counts (wallet_step D c s) = rn_counts s"
    for D and s :: "'a runner"
    by (simp_all add: wallet_step_def Let_def)
  show "rn_counts (opened E c ev s) = rn_counts s"
    by (simp add: opened_def Let_def 1 2 3 4 5)
  have "\<exists>x. rn_tracker (opened E c ev s) = (rn_tracker s)\<lparr>tr_funding_accrued := x\<rparr>"
    using 4(2) [of "se_dec (re_sim E)" "event_ts ev"] by (simp add: opened_def Let_def 1 2 3 5) (metis 1(1) 2(1) 3(1))
  then show "rn_tracker (opened E c ev s)
      = (rn_tracker s)\<lparr>tr_funding_accrued := tr_funding_accrued (rn_tracker (opened E c ev s))\<rparr>"
    by auto
qed

text \<open>
  C6: One ledger: an event applies exactly the fills of its liquidation, of its bagger step and
  of the engine, once each and in that order, and every book agrees on them.  The tracker is
  the run of these fills from what it was (but for the funding of the event), the fill counter
  grows by their number, and the splits into full and partial and into buys and sells by the
  numbers of each; nothing else the event does, the strategy's answers, the recovery and the
  skimming included, touches a book.
\<close>

theorem runner_single_ledger:
  assumes "event_step E c S ev s = Some s'"
  shows "\<exists>funding. let fs = event_fills E c S ev s; n = rn_counts s; n' = rn_counts s' in
    rn_tracker s' = tracker_run (se_dec (re_sim E)) ((rn_tracker s)\<lparr>tr_funding_accrued := funding\<rparr>) fs
    \<and> ct_emitted n' = ct_emitted n + of_nat (length fs)
    \<and> ct_full n' = ct_full n + of_nat (length (filter f_is_full fs))
    \<and> ct_partial n' = ct_partial n + of_nat (length (filter (\<lambda>f. \<not> f_is_full f) fs))
    \<and> ct_buys n' = ct_buys n + of_nat (length (filter (\<lambda>f. f_side f = Bid) fs))
    \<and> ct_sells n' = ct_sells n + of_nat (length (filter (\<lambda>f. f_side f = Ask) fs))"
proof -
  let ?o = "opened E c ev s" and ?D = "se_dec (re_sim E)" and ?fs = "event_fills E c S ev s"
  have "books s' = (tracker_run ?D (rn_tracker ?o) ?fs, foldl (\<lambda>n f. count_fill ?D f n) (rn_counts s) ?fs)"
    using books_event [OF assms] by (simp add: books_def opened_books(1) foldl_enter)
  then have t: "rn_tracker s' = tracker_run ?D (rn_tracker ?o) ?fs"
    and n: "rn_counts s' = foldl (\<lambda>n f. count_fill ?D f n) (rn_counts s) ?fs"
    by (simp_all add: books_def)
  show ?thesis
    by (rule exI [of _ "tr_funding_accrued (rn_tracker ?o)"])
      (simp add: Let_def t n count_all opened_books(2) [symmetric])
qed

subsection \<open>Skimming ends\<close>

context decimal_arith
begin

lemma skim_chunks_end:
  assumes thr: "0 < thr" "on_grid g thr" "g \<le> 28"
  shows "on_grid g (si_profit k) \<Longrightarrow> 0 \<le> si_profit k \<Longrightarrow> si_profit k * 10 ^ g < 2 ^ 96
    \<Longrightarrow> si_profit k < of_nat (Suc n) * thr \<Longrightarrow> of_nat n * thr \<le> si_profit k \<Longrightarrow>
    \<exists>k'. skim_chunks D thr ratio mid k = Some k' \<and> si_profit k' = si_profit k - of_nat n * thr
      \<and> si_count k' = si_count k + of_nat n \<and> si_last_net k' = si_last_net k"
proof (induction n arbitrary: k)
  case 0
  then show ?case by (subst skim_chunks.simps) simp
next
  case (Suc n)
  define k1 where "k1 = (if 0 < dmul D thr ratio
    then k\<lparr>si_stacked := dadd D (si_stacked k) (ddiv D (dmul D thr ratio) mid),
           si_total := dadd D (si_total k) (dmul D thr ratio)\<rparr> else k)"
  have more: "thr \<le> of_nat (Suc n) * thr" using thr(1) by (simp add: algebra_simps)
  with Suc.prems(5) have le: "thr \<le> si_profit k" by linarith
  have "fits (si_profit k - thr)"
  proof (rule fits_grid)
    show "on_grid g (si_profit k - thr)" using Suc.prems(1) thr(2) by (rule on_grid_diff)
    have "\<bar>si_profit k - thr\<bar> * 10 ^ g \<le> si_profit k * 10 ^ g"
      using thr(1) le by (intro mult_right_mono) auto
    with Suc.prems(3) show "\<bar>si_profit k - thr\<bar> * 10 ^ g < 2 ^ 96" by linarith
  qed (rule thr(3))
  then have sub: "dsub D (si_profit k) thr = si_profit k - thr" by (rule sub_fits)
  let ?k2 = "k1\<lparr>si_count := si_count k1 + 1, si_profit := dsub D (si_profit k1) thr\<rparr>"
  have k1: "si_profit k1 = si_profit k" "si_count k1 = si_count k" "si_last_net k1 = si_last_net k"
    by (simp_all add: k1_def)
  have small: "(si_profit k - thr) * 10 ^ g < 2 ^ 96"
  proof -
    have "(si_profit k - thr) * 10 ^ g \<le> si_profit k * 10 ^ g"
      using thr(1) by (intro mult_right_mono) auto
    with Suc.prems(3) show ?thesis by linarith
  qed
  have "\<exists>k'. skim_chunks D thr ratio mid ?k2 = Some k' \<and> si_profit k' = si_profit ?k2 - of_nat n * thr
      \<and> si_count k' = si_count ?k2 + of_nat n \<and> si_last_net k' = si_last_net ?k2"
    by (rule Suc.IH)
      (use Suc.prems le small thr(2) in \<open>simp_all add: k1 sub algebra_simps on_grid_diff\<close>)
  moreover have "skim_chunks D thr ratio mid k = skim_chunks D thr ratio mid ?k2"
    using le thr(1) by (subst skim_chunks.simps) (simp add: k1_def Let_def)
  ultimately show ?case by (auto simp: k1 sub algebra_simps)
qed

end

text \<open>
  C37: The skimming loop ends, for every correctly rounding arithmetic: from a profit that is
  representable with its threshold it takes exactly as many chunks as fit into the profit and
  keeps the remainder, which is less than one chunk and not negative.
\<close>

theorem skim_terminates:
  assumes D: "decimal_arith D" and thr: "0 < thr" "on_grid g thr" "g \<le> 28"
    and k: "on_grid g (si_profit k)" "0 \<le> si_profit k" "si_profit k * 10 ^ g < 2 ^ 96"
  shows "\<exists>k'. skim_chunks D thr ratio mid k = Some k'
    \<and> si_count k' = si_count k + of_nat (nat \<lfloor>si_profit k / thr\<rfloor>)
    \<and> si_profit k' = si_profit k - of_int \<lfloor>si_profit k / thr\<rfloor> * thr
    \<and> 0 \<le> si_profit k' \<and> si_profit k' < thr"
proof -
  let ?n = "nat \<lfloor>si_profit k / thr\<rfloor>"
  have n: "(of_nat ?n :: rat) = of_int \<lfloor>si_profit k / thr\<rfloor>" using k(2) thr(1) by simp
  have "of_int \<lfloor>si_profit k / thr\<rfloor> \<le> si_profit k / thr" "si_profit k / thr < of_int \<lfloor>si_profit k / thr\<rfloor> + 1"
    by linarith+
  then have b: "of_int \<lfloor>si_profit k / thr\<rfloor> * thr \<le> si_profit k"
    "si_profit k < (of_int \<lfloor>si_profit k / thr\<rfloor> + 1) * thr"
    by (simp_all only: pos_le_divide_eq [OF thr(1)] pos_divide_less_eq [OF thr(1)])
  then have "si_profit k < of_nat (Suc ?n) * thr" "of_nat ?n * thr \<le> si_profit k"
    unfolding of_nat_Suc n by (simp_all add: algebra_simps)
  from decimal_arith.skim_chunks_end [OF D thr k this]
  obtain k' where "skim_chunks D thr ratio mid k = Some k'" "si_count k' = si_count k + of_nat ?n"
    "si_profit k' = si_profit k - of_int \<lfloor>si_profit k / thr\<rfloor> * thr"
    unfolding n by metis
  with b show ?thesis by (auto simp: algebra_simps)
qed

lemma skim_terminates_witness:
  "\<exists>k'. skim_chunks rust_decimal 50 1 100
      \<lparr>si_profit = 120, si_count = 0, si_total = 0, si_last_net = 0, si_stacked = 0\<rparr> = Some k'
    \<and> si_count k' = 2 \<and> si_profit k' = 20"
proof -
  have "on_grid 0 (of_int 50 :: rat)" "on_grid 0 (of_int 120 :: rat)" by (rule on_grid_int)+
  moreover have "\<lfloor>(120 :: rat) / 50\<rfloor> = 2" by (simp add: floor_eq_iff)
  ultimately show ?thesis
    using skim_terminates [OF rust.decimal_arith_axioms, of 50 0
        "\<lparr>si_profit = 120, si_count = 0, si_total = 0, si_last_net = 0, si_stacked = 0\<rparr>" 1 100]
    by (auto simp: on_grid_int)
qed

end
