(* ===== verification/Runner_Order.thy ===== *)
theory Runner_Order
  imports Runner_Ledger Runner_Laws Sim_Time
begin

text \<open>
  Order and limits inside an event of the loop: the fills of an event do not depend on what
  the strategy answers to it, a halted gate silences the main path, and the inventory cap
  bounds what is committed in the engine once a batch has been sent.
\<close>

subsection \<open>What the guards and the gate let through\<close>

lemma guarded_cases:
  assumes "a \<in> set (map_quotes f as)"
  obtains "a \<in> set as" | q where "Quote q \<in> set as" "a = Quote (f q)"
  using assms by (auto simp: map_quotes_def split: action.splits)

lemma cap_subset: "set (apply_bot_inventory_cap D as pos rb ra cap) \<subseteq> set as"
proof -
  have "set (inventory_cap_loop D pos cap rb ra as) \<subseteq> set as" for rb ra
    by (induction as arbitrary: rb ra) (auto simp: Let_def split: action.splits side.splits if_splits)
  then show ?thesis by (simp add: apply_bot_inventory_cap_def)
qed

text \<open>A boosted batch: the same actions, with some orders enlarged.\<close>

lemma boosted_from:
  assumes "a \<in> set (apply_inventory_size_boost D powd digits as pos cap avg cfg)"
  obtains "a \<in> set as" | q v where "Quote q \<in> set as" "a = Quote (q\<lparr>qi_size := v\<rparr>)" "qi_size q < v"
proof -
  have gated: "boost_gated D powd digits cfg b avg q = q
      \<or> (\<exists>v. boost_gated D powd digits cfg b avg q = q\<lparr>qi_size := v\<rparr> \<and> qi_size q < v)" for b q
    using boost_size_grows [of D digits _ q]
    by (auto simp: boost_gated_def Let_def split: option.split)
  from assms have "a \<in> set as
      \<or> (\<exists>b. a \<in> set (map_quotes (boost_gated D powd digits cfg b avg) as))
      \<or> (\<exists>b m. a \<in> set (map_quotes (\<lambda>q. if qi_side q = b then boost_size D digits m q else q) as))"
    by (auto simp: apply_inventory_size_boost_def Let_def split: if_splits option.splits)
  then show thesis
  proof (elim disjE exE)
    fix b assume "a \<in> set (map_quotes (boost_gated D powd digits cfg b avg) as)"
    then show thesis by (rule guarded_cases) (use gated that in metis)+
  next
    fix b m assume "a \<in> set (map_quotes (\<lambda>q. if qi_side q = b then boost_size D digits m q else q) as)"
    then show thesis by (rule guarded_cases) (use boost_size_grows [of D digits m] that in metis)+
  qed (rule that(1))
qed

lemma guard_from:
  assumes "a \<in> set (guard_actions D powd digits boost pos mark rb ra cap as)"
  obtains "a \<in> set as" | q v where "Quote q \<in> set as" "a = Quote (q\<lparr>qi_size := v\<rparr>)" "qi_size q < v"
proof (cases boost)
  case None
  with assms cap_subset show thesis
    by (auto simp: guard_actions_def Let_def intro: that(1) dest!: subsetD [OF cap_subset])
next
  case (Some cfg)
  with assms have "a \<in> set (apply_inventory_size_boost D powd digits as
      (dmul D (p_size pos) (if 0 < p_avg_entry pos then p_avg_entry pos else mark)) cap (p_avg_entry pos) cfg)"
    by (auto simp: guard_actions_def Let_def dest!: subsetD [OF cap_subset])
  then show thesis by (rule boosted_from) (use that in metis)+
qed

lemma gate_filter_subset: "set (fst (gate_filter D rx g as)) \<subseteq> set as"
  by (induction as arbitrary: g) (auto simp: case_prod_unfold Let_def)

lemma gate_filter_halted:
  "rs_halted (rg_state g) \<Longrightarrow> gate_filter D rx g as = ([], g)"
  by (induction as) (simp_all add: gate_check_halted)

lemma risk_filter_subset: "set (fst (risk_filter D pos ts as s)) \<subseteq> set as"
  using gate_filter_subset by (auto simp: risk_filter_def case_prod_unfold Let_def split: option.splits)

lemma risk_filter_sim [simp]: "rn_sim (snd (risk_filter D pos ts as s)) = rn_sim s"
  by (simp add: risk_filter_def case_prod_unfold Let_def split: option.split)

text \<open>The batch that a strategy step sends.\<close>

definition cap_mark :: "decimal_ops \<Rightarrow> 's runner \<Rightarrow> price" where
  "cap_mark D s = (if 0 < rn_last_mark s then rn_last_mark s
     else (case snapshot_mid D (rn_book s) of Some m \<Rightarrow> m | None \<Rightarrow> rn_last_mid s))"

definition guarded_batch ::
    "runner_env \<Rightarrow> runner_config \<Rightarrow> 's strategy \<Rightarrow> market_event \<Rightarrow> timestamp \<Rightarrow> 's runner \<Rightarrow> action list"
  where
  "guarded_batch E c S ev ts s =
     (let D = se_dec (re_sim E); pos = tracker_snapshot (rn_tracker s);
          committed = committed_notional_by_side D (rn_sim s) (rc_symbol c);
          x = context_of c ts pos [] (rn_book s) (fst (open_quotes (re_sim E) (rn_sim s) (rc_symbol c)))
            (snd (liq_observe (rn_window s) ts))
      in guard_actions D (re_powd E) (re_digits E) (rc_boost c) pos (cap_mark D s)
           (fst committed) (snd committed) (rn_max_position s) (snd (st_on_event S x ev (rn_strategy s))))"

definition sent_batch ::
    "runner_env \<Rightarrow> runner_config \<Rightarrow> 's strategy \<Rightarrow> market_event \<Rightarrow> timestamp \<Rightarrow> 's runner \<Rightarrow> action list"
  where
  "sent_batch E c S ev ts s = fst (risk_filter (se_dec (re_sim E)) (tracker_snapshot (rn_tracker s)) ts
     (guarded_batch E c S ev ts s) s)"

lemma risk_filter_frame:
  "fst (risk_filter D pos ts as (s\<lparr>rn_strategy := st, rn_sim := fs, rn_window := w\<rparr>))
     = fst (risk_filter D pos ts as s)"
  by (simp add: risk_filter_def case_prod_unfold Let_def split: option.split)

lemma strategy_step_sim:
  "rn_sim (strategy_step E c S ev ts s) = dispatch (re_sim E) ts (sent_batch E c S ev ts s)
     (snd (open_quotes (re_sim E) (rn_sim s) (rc_symbol c)))"
  unfolding sent_batch_def guarded_batch_def cap_mark_def strategy_step_def Let_def case_prod_unfold
  by (simp add: risk_filter_frame split: option.split)

lemma sent_subset: "set (sent_batch E c S ev ts s) \<subseteq> set (guarded_batch E c S ev ts s)"
  by (simp add: sent_batch_def risk_filter_subset)

subsection \<open>No look-ahead through the loop\<close>

definition answers_orders :: "'s strategy \<Rightarrow> bool" where
  "answers_orders S \<longleftrightarrow> (\<forall>x e st. \<forall>a \<in> set (snd (st_on_event S x e st)). is_order a \<or> a = NoOp)"

lemma sent_orders:
  assumes "answers_orders S" "a \<in> set (sent_batch E c S ev ts s)"
  shows "is_order a \<or> a = NoOp"
proof -
  have "a \<in> set (guarded_batch E c S ev ts s)" using assms(2) sent_subset by fastforce
  then show ?thesis
    unfolding guarded_batch_def Let_def
    by (rule guard_from) (use assms(1) in \<open>auto simp: answers_orders_def is_order_def\<close>)
qed

lemma viewed_queue [simp]:
  "fs_pending (snd (open_quotes E fs sy)) = fs_pending fs" "fs_live (snd (open_quotes E fs sy)) = fs_live fs"
  "fs_managers (snd (open_quotes E fs sy)) = fs_managers fs"
  by (simp_all add: open_quotes_def Let_def)

lemma fills_without_answer:
  assumes "queue_sorted (rn_sim s)" "ts < - 1" "answers_orders S"
  shows "fst (on_market_event (re_sim E) (rn_sim (strategy_step E c S ev ts s)) ev ts)
    = fst (on_market_event (re_sim E) (snd (open_quotes (re_sim E) (rn_sim s) (rc_symbol c))) ev ts)"
proof -
  let ?fs = "snd (open_quotes (re_sim E) (rn_sim s) (rc_symbol c))"
  have "queue_sorted ?fs" using assms(1) by (simp add: queue_sorted_def)
  moreover have "\<forall>a \<in> set (sent_batch E c S ev ts s). is_order a \<or> a = NoOp"
    using sent_orders [OF assms(3)] by blast
  ultimately obtain st ps where "rn_sim (strategy_step E c S ev ts s) = retime ps st ?fs"
    "takeWhile (\<lambda>p. po_at p \<le> ts) ps = takeWhile (\<lambda>p. po_at p \<le> ts) (fs_pending ?fs)"
    using orders_retime [OF _ assms(2), of ?fs "sent_batch E c S ev ts s" "re_sim E"]
    unfolding strategy_step_sim dispatch_def by metis
  then show ?thesis using retime_event [of ts ps ?fs "re_sim E" st ev] by auto
qed

text \<open>
  C5: No look-ahead through the whole loop: two strategies that answer an event with orders get
  the same fills for it, liquidation and bagger included, whatever they answer; what a strategy
  decides on an event can only change later events.
\<close>

theorem runner_no_look_ahead:
  assumes ok: "sim_ok (se_dec (re_sim E)) (rn_sim s)" and ts: "event_ts ev < - 1"
    and S: "answers_orders S" "answers_orders S'"
  shows "event_fills E c S ev s = event_fills E c S' ev s"
proof -
  let ?s3 = "bagger_step E c (event_ts ev) (liquidation_step E c (event_ts ev) (opened E c ev s))"
  have "sim_ok (se_dec (re_sim E)) (rn_sim (opened E c ev s))"
    using sound.calls(3) [OF ok] by (simp add: opened_def Let_def)
  then have "sim_ok (se_dec (re_sim E)) (rn_sim ?s3)"
    by (intro sound.bagged sound.liquidated) simp_all
  then have "queue_sorted (rn_sim ?s3)" by (simp add: sim_ok_def)
  from fills_without_answer [OF this ts S(1)] fills_without_answer [OF this ts S(2)]
  show ?thesis by (simp add: event_fills_def Let_def)
qed

subsection \<open>A halted gate\<close>

text \<open>
  A halted gate silences the main path: as long as it is halted, no answer of the strategy
  to a market event, an order, a cancel or a cancel of everything, reaches the engine, and the
  gate stays as it is.
\<close>

theorem halted_runner_silent:
  assumes "rn_gate s = Some g" "rs_halted (rg_state g)"
  shows "fs_pending (rn_sim (strategy_step E c S ev ts s)) = fs_pending (rn_sim s)
    \<and> fs_live (rn_sim (strategy_step E c S ev ts s)) = fs_live (rn_sim s)
    \<and> rn_gate (strategy_step E c S ev ts s) = Some g"
proof -
  have "sent_batch E c S ev ts s = []"
    using assms by (simp add: sent_batch_def risk_filter_def gate_filter_halted)
  then have "fs_pending (rn_sim (strategy_step E c S ev ts s)) = fs_pending (rn_sim s)"
    "fs_live (rn_sim (strategy_step E c S ev ts s)) = fs_live (rn_sim s)"
    by (simp_all add: strategy_step_sim)
  moreover have "rn_gate (strategy_step E c S ev ts s) = Some g"
    using assms by (simp add: strategy_step_def risk_filter_def gate_filter_halted case_prod_unfold Let_def)
  ultimately show ?thesis by simp
qed

subsection \<open>The cap and what is committed in the engine\<close>

text \<open>In exact arithmetic the committed notional of a side is a sum over the two order lists.\<close>

definition resting_value :: "fill_sim \<Rightarrow> symbol \<Rightarrow> side \<Rightarrow> live_quote \<Rightarrow> rat" where
  "resting_value fs sy sd q = (if lq_symbol q = sy \<and> lq_id q \<notin> fs_managers fs \<and> lq_side q = sd
     then lq_price q * lq_size q else 0)"

fun inflight_value :: "fill_sim \<Rightarrow> symbol \<Rightarrow> side \<Rightarrow> op \<Rightarrow> rat" where
  "inflight_value fs sy sd (PlaceOp i oid) =
     (if qi_symbol i = sy \<and> \<not> managed fs oid \<and> qi_side i = sd then qi_price i * qi_size i else 0)"
| "inflight_value fs sy sd _ = 0"

definition committed_sum :: "fill_sim \<Rightarrow> symbol \<Rightarrow> side \<Rightarrow> rat" where
  "committed_sum fs sy sd = sum_list (map (resting_value fs sy sd) (fs_live fs))
     + sum_list (map (\<lambda>p. inflight_value fs sy sd (po_op p)) (fs_pending fs))"

lemma committed_exact:
  "committed_notional_by_side exact_decimal fs sy = (committed_sum fs sy Bid, committed_sum fs sy Ask)"
proof -
  have live: "foldl (\<lambda>acc q. if lq_symbol q = sy \<and> lq_id q \<notin> fs_managers fs
        then add_by_side exact_decimal (lq_side q) (dmul exact_decimal (lq_price q) (lq_size q)) acc else acc)
      acc qs = (fst acc + sum_list (map (resting_value fs sy Bid) qs),
                snd acc + sum_list (map (resting_value fs sy Ask) qs))" for acc qs
    by (induction qs arbitrary: acc) (auto simp: add_by_side_def resting_value_def split: side.split)
  have pend: "foldl (\<lambda>acc p. case po_op p of
        PlaceOp i oid \<Rightarrow> if qi_symbol i = sy \<and> \<not> managed fs oid
          then add_by_side exact_decimal (qi_side i) (dmul exact_decimal (qi_price i) (qi_size i)) acc else acc
      | _ \<Rightarrow> acc) acc ps = (fst acc + sum_list (map (\<lambda>p. inflight_value fs sy Bid (po_op p)) ps),
          snd acc + sum_list (map (\<lambda>p. inflight_value fs sy Ask (po_op p)) ps))" for acc ps
  proof (induction ps arbitrary: acc)
    case (Cons p ps)
    then show ?case by (cases "po_op p") (auto simp: add_by_side_def split: side.split)
  qed simp
  show ?thesis
    by (simp add: committed_notional_by_side_def live pend committed_sum_def)
qed

fun orders_value :: "symbol \<Rightarrow> side \<Rightarrow> action \<Rightarrow> rat" where
  "orders_value sy sd (Quote q) = (if qi_symbol q = sy \<and> qi_side q = sd then qi_price q * qi_size q else 0)"
| "orders_value sy sd _ = 0"

lemma sum_insort: "sum_list (map f (insort_key k x xs)) = f x + sum_list (map f xs)" for f :: "'a \<Rightarrow> rat"
  by (induction xs) auto

lemma sum_sort: "sum_list (map f (sort_key k xs)) = sum_list (map f xs)" for f :: "'a \<Rightarrow> rat"
  by (induction xs) (simp_all add: sum_insort)

lemma values_cong:
  assumes "fs_managers fs' = fs_managers fs"
  shows "resting_value fs' = resting_value fs" "inflight_value fs' = inflight_value fs"
proof -
  show "resting_value fs' = resting_value fs"
    by (intro ext) (simp add: resting_value_def assms)
  have "managed fs' oid = managed fs oid" for oid
    by (simp add: managed_def assms split: option.split)
  then show "inflight_value fs' = inflight_value fs"
    by (intro ext) (metis inflight_value.simps op.exhaust)
qed

lemma committed_enqueue:
  "committed_sum (enqueue fs t x) sy sd = committed_sum fs sy sd + inflight_value fs sy sd x"
proof -
  have "fs_managers (enqueue fs t x) = fs_managers fs" by (simp add: enqueue_def)
  from values_cong [OF this] show ?thesis
    by (simp add: committed_sum_def) (simp add: enqueue_def sum_sort)
qed

lemma committed_frame:
  assumes "fs_managers fs' = fs_managers fs" "fs_live fs' = fs_live fs" "fs_pending fs' = fs_pending fs"
  shows "committed_sum fs' sy sd = committed_sum fs sy sd"
  by (simp add: committed_sum_def values_cong [OF assms(1)] assms)

lemma committed_latency:
  "committed_sum (fs\<lparr>fs_latency_rng := x\<rparr>) sy sd = committed_sum fs sy sd"
  "inflight_value (fs\<lparr>fs_latency_rng := x\<rparr>) = inflight_value fs"
  by (rule committed_frame, simp_all) (rule values_cong, simp)

lemma committed_on_action:
  "committed_sum (on_action E fs a ts) sy sd = committed_sum fs sy sd + orders_value sy sd a"
proof -
  have "\<exists>st. snd (sample_latency_ns E fs ms) = fs\<lparr>fs_latency_rng := st\<rparr>" for ms
    using sample_latency_state [of E fs ms] by blast
  then obtain st where st: "\<And>ms. snd (sample_latency_ns E fs ms) = fs\<lparr>fs_latency_rng := st ms\<rparr>" by metis
  show ?thesis
    by (cases a) (simp_all add: submit_def submit_cancel_def case_prod_unfold Let_def st
        committed_enqueue committed_latency managed_def)
qed

lemma committed_dispatch:
  "committed_sum (dispatch E ts as fs) sy sd = committed_sum fs sy sd + sum_list (map (orders_value sy sd) as)"
  by (induction as arbitrary: fs) (simp_all add: committed_on_action)

lemma committed_viewed: "committed_sum (snd (open_quotes E fs sy')) sy sd = committed_sum fs sy sd"
  by (rule committed_frame) simp_all

text \<open>The loop of the cap in exact arithmetic, for orders of one symbol with values not negative.\<close>

definition orders_ok :: "symbol \<Rightarrow> action list \<Rightarrow> bool" where
  "orders_ok sy as \<longleftrightarrow> (\<forall>q. Quote q \<in> set as \<longrightarrow> qi_symbol q = sy \<and> 0 \<le> qi_price q \<and> 0 \<le> qi_size q)"

lemma orders_ok_Cons: "orders_ok sy (a # as) \<longleftrightarrow>
    (case a of Quote q \<Rightarrow> qi_symbol q = sy \<and> 0 \<le> qi_price q \<and> 0 \<le> qi_size q | _ \<Rightarrow> True) \<and> orders_ok sy as"
  by (cases a) (auto simp: orders_ok_def)

lemma orders_value_nonneg: "orders_ok sy as \<Longrightarrow> a \<in> set as \<Longrightarrow> 0 \<le> orders_value sy sd a"
  by (cases a) (auto simp: orders_ok_def)

abbreviation batch_value :: "symbol \<Rightarrow> side \<Rightarrow> action list \<Rightarrow> rat" where
  "batch_value sy sd as \<equiv> sum_list (map (orders_value sy sd) as)"

lemma batch_value_nonneg: "orders_ok sy as \<Longrightarrow> 0 \<le> batch_value sy sd as"
  by (rule sum_list_nonneg) (auto simp: orders_value_nonneg)

lemma cap_loop_exact:
  assumes "orders_ok sy as" "out = inventory_cap_loop exact_decimal pos cap rb ra as"
  shows "(0 < batch_value sy Bid out \<longrightarrow> pos + rb + batch_value sy Bid out \<le> cap)
    \<and> (0 < batch_value sy Ask out \<longrightarrow> - cap \<le> pos - ra - batch_value sy Ask out)"
  using assms
proof (induction as arbitrary: rb ra out)
  case (Cons a as)
  have ok: "orders_ok sy as" using Cons.prems(1) by (simp add: orders_ok_Cons)
  have nn: "0 \<le> batch_value sy sd (inventory_cap_loop exact_decimal pos cap b r as)" for sd b r
  proof (rule batch_value_nonneg)
    have "set (inventory_cap_loop exact_decimal pos cap b r as) \<subseteq> set as" for b r
      by (induction as arbitrary: b r) (auto simp: Let_def split: action.splits side.splits if_splits)
    then show "orders_ok sy (inventory_cap_loop exact_decimal pos cap b r as)"
      using ok by (auto simp: orders_ok_def)
  qed
  note IH = Cons.IH [OF ok refl]
  show ?case
  proof (cases a)
    case (Quote q)
    then have q: "qi_symbol q = sy" "0 \<le> qi_price q * qi_size q"
      using Cons.prems(1) by (auto simp: orders_ok_Cons)
    show ?thesis
    proof (cases "qi_side q")
      case Bid
      then show ?thesis
        using Quote q Cons.prems(2) IH [of rb ra] IH [of "rb + qi_price q * qi_size q" ra]
          nn [of Bid "rb + qi_price q * qi_size q" ra]
        by (auto simp: cap_breaches_def Let_def algebra_simps)
    next
      case Ask
      then show ?thesis
        using Quote q Cons.prems(2) IH [of rb ra] IH [of rb "ra + qi_price q * qi_size q"]
          nn [of Ask rb "ra + qi_price q * qi_size q"]
        by (auto simp: cap_breaches_def Let_def algebra_simps)
    qed
  qed (use IH [of rb ra] Cons.prems(2) in auto)
qed simp

lemma gate_filter_value:
  assumes "orders_ok sy as" shows "batch_value sy sd (fst (gate_filter D rx g as)) \<le> batch_value sy sd as"
  using assms
proof (induction as arbitrary: g)
  case (Cons a as)
  have "orders_ok sy as" "0 \<le> orders_value sy sd a"
    using Cons.prems orders_value_nonneg [OF Cons.prems, of a sd] by (simp_all add: orders_ok_Cons)
  with Cons.IH [OF this(1), of "snd (gate_check D g a rx)"] show ?case
    by (auto simp: case_prod_unfold Let_def)
qed simp

lemma risk_filter_value:
  "orders_ok sy as \<Longrightarrow> batch_value sy sd (fst (risk_filter D pos ts as s)) \<le> batch_value sy sd as"
  by (simp add: risk_filter_def case_prod_unfold Let_def gate_filter_value split: option.split)

definition answers_own_symbol :: "symbol \<Rightarrow> 's strategy \<Rightarrow> 's \<Rightarrow> bool" where
  "answers_own_symbol sy S st \<longleftrightarrow> (\<forall>x e. cx_symbol x = sy \<longrightarrow> orders_ok sy (snd (st_on_event S x e st)))"

text \<open>What the position counts for in the cap: at its entry price, or at the mark.\<close>

definition deployed :: "'s runner \<Rightarrow> rat" where
  "deployed s = tr_size (rn_tracker s)
     * (if 0 < tr_avg_entry (rn_tracker s) then tr_avg_entry (rn_tracker s) else cap_mark exact_decimal s)"

lemma guarded_batch_cap:
  assumes D: "se_dec (re_sim E) = exact_decimal" and cap: "0 < rn_max_position s"
    and S: "answers_own_symbol (rc_symbol c) S (rn_strategy s)" and out: "out = guarded_batch E c S ev ts s"
  shows "orders_ok (rc_symbol c) out
    \<and> (0 < batch_value (rc_symbol c) Bid out \<longrightarrow> deployed s + committed_sum (rn_sim s) (rc_symbol c) Bid
         + batch_value (rc_symbol c) Bid out \<le> rn_max_position s)
    \<and> (0 < batch_value (rc_symbol c) Ask out \<longrightarrow> - rn_max_position s
         \<le> deployed s - committed_sum (rn_sim s) (rc_symbol c) Ask - batch_value (rc_symbol c) Ask out)"
proof -
  let ?sy = "rc_symbol c"
  let ?x = "context_of c ts (tracker_snapshot (rn_tracker s)) [] (rn_book s)
      (fst (open_quotes (re_sim E) (rn_sim s) ?sy)) (snd (liq_observe (rn_window s) ts))"
  let ?as = "snd (st_on_event S ?x ev (rn_strategy s))"
  let ?boosted = "case rc_boost c of Some cfg \<Rightarrow> apply_inventory_size_boost exact_decimal (re_powd E)
      (re_digits E) ?as (deployed s) (rn_max_position s) (tr_avg_entry (rn_tracker s)) cfg | None \<Rightarrow> ?as"
  have ok: "orders_ok ?sy ?as" using S by (simp add: answers_own_symbol_def context_of_def)
  have boosted: "orders_ok ?sy ?boosted"
  proof (cases "rc_boost c")
    case (Some cfg)
    have "qi_symbol q = ?sy \<and> 0 \<le> qi_price q \<and> 0 \<le> qi_size q"
      if "Quote q \<in> set (apply_inventory_size_boost exact_decimal (re_powd E) (re_digits E) ?as (deployed s)
        (rn_max_position s) (tr_avg_entry (rn_tracker s)) cfg)" for q
      using that by (rule boosted_from) (use ok in \<open>force simp: orders_ok_def\<close>)+
    with Some show ?thesis by (simp add: orders_ok_def)
  qed (simp add: ok)
  have "out = inventory_cap_loop exact_decimal (deployed s) (rn_max_position s)
      (committed_sum (rn_sim s) ?sy Bid) (committed_sum (rn_sim s) ?sy Ask) ?boosted"
    using cap
    by (simp add: out guarded_batch_def guard_actions_def apply_bot_inventory_cap_def Let_def D committed_exact
        deployed_def tracker_snapshot_def split: option.split)
  moreover from this have "set out \<subseteq> set ?boosted"
    using cap_subset [of exact_decimal ?boosted "deployed s" "committed_sum (rn_sim s) ?sy Bid"
        "committed_sum (rn_sim s) ?sy Ask" "rn_max_position s"] cap
    by (simp only: apply_bot_inventory_cap_def not_le [symmetric] if_False)
  then have "orders_ok ?sy out" using boosted unfolding orders_ok_def by blast
  ultimately show ?thesis using cap_loop_exact [OF boosted] by blast
qed

lemma commitment_capped:
  assumes D: "se_dec (re_sim E) = exact_decimal" and cap: "0 < rn_max_position s"
    and S: "answers_own_symbol (rc_symbol c) S (rn_strategy s)"
    and before: "committed_notional_by_side exact_decimal (rn_sim s) (rc_symbol c) = (rb, ra)"
    and after: "committed_notional_by_side exact_decimal (rn_sim (strategy_step E c S ev ts s)) (rc_symbol c)
      = (rb', ra')"
  shows "(rb' = rb \<or> rb < rb' \<and> deployed s + rb' \<le> rn_max_position s)
    \<and> (ra' = ra \<or> ra < ra' \<and> - rn_max_position s \<le> deployed s - ra')"
proof -
  let ?sy = "rc_symbol c" and ?g = "guarded_batch E c S ev ts s" and ?b = "sent_batch E c S ev ts s"
  note g = guarded_batch_cap [OF D cap S refl, of ev ts]
  have b: "batch_value ?sy sd ?b \<le> batch_value ?sy sd ?g" for sd
    unfolding sent_batch_def by (rule risk_filter_value) (use g in blast)
  have "orders_ok ?sy ?b" using g sent_subset [of E c S ev ts s] by (auto simp: orders_ok_def)
  then have nn: "0 \<le> batch_value ?sy sd ?b" for sd by (rule batch_value_nonneg)
  have "rb = committed_sum (rn_sim s) ?sy Bid" "ra = committed_sum (rn_sim s) ?sy Ask"
    "rb' = rb + batch_value ?sy Bid ?b" "ra' = ra + batch_value ?sy Ask ?b"
    using before after by (simp_all add: committed_exact strategy_step_sim committed_dispatch committed_viewed)
  note eq = this
  from g have bid: "0 < batch_value ?sy Bid ?g \<longrightarrow> deployed s + rb + batch_value ?sy Bid ?g \<le> rn_max_position s"
    and ask: "0 < batch_value ?sy Ask ?g \<longrightarrow> - rn_max_position s \<le> deployed s - ra - batch_value ?sy Ask ?g"
    by (simp_all add: eq)
  have "rb' = rb \<or> rb < rb' \<and> deployed s + rb' \<le> rn_max_position s"
    using bid b [of Bid] nn [of Bid] eq(3) by auto
  moreover have "ra' = ra \<or> ra < ra' \<and> - rn_max_position s \<le> deployed s - ra'"
    using ask b [of Ask] nn [of Ask] eq(4) by auto
  ultimately show ?thesis ..
qed


end
