(* ===== verification/Runner_Runs.thy ===== *)
theory Runner_Runs
  imports Runner_Order Sim_Runs
begin

text \<open>
  Concrete runs of the loop: the instances of its general properties, and three runs that show
  behaviour its comments rule out.
\<close>

definition eg_runner_env :: runner_env where
  "eg_runner_env = \<lparr>re_sim = eg_env, re_powd = (\<lambda>x e. x), re_digits = (\<lambda>_. 0)\<rparr>"

definition eg_runner_config :: runner_config where
  "eg_runner_config = \<lparr>rc_symbol = eg_market, rc_initial_balance = 50, rc_order_balance_pct = 0,
     rc_max_position_pct = 0, rc_boost = None, rc_bagger = bagger_default, rc_funding = None,
     rc_liquidation = Some \<lparr>lc_leverage = 10, lc_maint_margin_rate = 0, lc_close_fee_bps = 0\<rparr>,
     rc_mark_series = None, rc_skim = None, rc_spot_seed = None, rc_seed_position = None,
     rc_retrace_boundary_ts = None, rc_liq_window_secs = 0\<rparr>"

text \<open>A strategy that answers every event, and every fill of its own, with a fixed batch.\<close>

definition eg_strategy :: "action list \<Rightarrow> action list \<Rightarrow> unit strategy" where
  "eg_strategy on_event on_fill = \<lparr>
     st_on_event = (\<lambda>x e st. (st, case e of FillEv f \<Rightarrow> on_fill | _ \<Rightarrow> on_event)),
     st_on_quote_rejected = (\<lambda>x q r st. (st, [])),
     st_on_notional_updated = (\<lambda>x v st. (st, [])),
     st_on_max_position_updated = (\<lambda>x v st. (st, [])),
     st_on_shutdown = (\<lambda>x st. (st, []))\<rparr>"

definition eg_halted :: risk_gate where
  "eg_halted = \<lparr>rg_limits = eg_limits,
     rg_state = \<lparr>rs_halted = True, rs_halt_reason = None, rs_recent_fill_window = []\<rparr>\<rparr>"

definition eg_begin :: "risk_gate option \<Rightarrow> fill_sim \<Rightarrow> unit runner" where
  "eg_begin g fs = runner_start eg_runner_env eg_runner_config () g fs None"

subsection \<open>Runs\<close>

lemma event_returns: "rc_skim c = None \<Longrightarrow> \<exists>s'. event_step E c S ev s = Some s'"
  by (simp add: event_step_def skim_step_def Let_def)

lemma run_returns: "rc_skim c = None \<Longrightarrow> \<exists>s'. run_events E c S evs s = Some s'"
proof (induction evs arbitrary: s)
  case (Cons ev evs)
  obtain s1 where "event_step E c S ev (settle E c S s) = Some s1"
    using event_returns [OF Cons.prems] by blast
  with Cons show ?case by simp
qed simp

lemma runner_engine_sound_witness:
  "\<exists>s. run_events eg_runner_env eg_runner_config (eg_strategy [CancelAll] [])
      [Heartbeat 5, BookUpdate eg_snapshot] (eg_begin None (fill_sim_new (eg_sim_config False))) = Some s
    \<and> length (filter (\<lambda>q. lq_symbol q = eg_market) (fs_live (rn_sim s))) \<le> 2"
proof -
  have "rc_skim eg_runner_config = None" by (simp add: eg_runner_config_def)
  from run_returns [OF this] obtain s where
    s: "run_events eg_runner_env eg_runner_config (eg_strategy [CancelAll] [])
      [Heartbeat 5, BookUpdate eg_snapshot] (eg_begin None (fill_sim_new (eg_sim_config False))) = Some s"
    by blast
  from runner_engine_sound [OF this [unfolded eg_begin_def], of eg_market] s
  show ?thesis by (auto simp: eg_sim_config_def)
qed

lemma runner_single_ledger_witness:
  "\<exists>s'. event_step eg_runner_env eg_runner_config (eg_strategy [] [])
      (Trade eg_market 98 2 Ask 5) (eg_begin None (eg_resting False)) = Some s'
    \<and> ct_emitted (rn_counts s') = of_nat (length (event_fills eg_runner_env eg_runner_config
        (eg_strategy [] []) (Trade eg_market 98 2 Ask 5) (eg_begin None (eg_resting False))))"
proof -
  have "rc_skim eg_runner_config = None" by (simp add: eg_runner_config_def)
  from event_returns [OF this] obtain s' where s: "event_step eg_runner_env eg_runner_config
      (eg_strategy [] []) (Trade eg_market 98 2 Ask 5) (eg_begin None (eg_resting False)) = Some s'" by blast
  have "ct_emitted (rn_counts (eg_begin None (eg_resting False))) = 0"
    by (simp add: eg_begin_def runner_start_def zero_counts_def Let_def)
  with runner_single_ledger [OF s] s show ?thesis by (auto simp: Let_def)
qed

lemma eg_begin_sim [simp]: "rn_sim (eg_begin g fs) = fs"
  by (simp add: eg_begin_def eg_runner_config_def)

lemma runner_no_look_ahead_witness:
  "event_fills eg_runner_env eg_runner_config (eg_strategy [Quote (eg_intent Bid 97 1 PostOnly)] [])
      (Trade eg_market 98 2 Ask 5) (eg_begin None (eg_resting False))
   = event_fills eg_runner_env eg_runner_config (eg_strategy [] [CancelAll] \<lparr>st_on_event := \<lambda>x e st. (st, [])\<rparr>)
      (Trade eg_market 98 2 Ask 5) (eg_begin None (eg_resting False))"
  by (rule runner_no_look_ahead)
    (simp_all add: sim_ok_eg answers_orders_def eg_strategy_def is_order_def split: market_event.split)

lemma halted_runner_silent_witness:
  "fs_pending (rn_sim (strategy_step eg_runner_env eg_runner_config (eg_strategy [CancelAll] [])
      (Heartbeat 5) 5 (eg_begin (Some eg_halted) (eg_resting False)))) = []"
  using halted_runner_silent [of "eg_begin (Some eg_halted) (eg_resting False)" eg_halted eg_runner_env
      eg_runner_config "eg_strategy [CancelAll] []" "Heartbeat 5" 5]
  by (simp add: eg_halted_def eg_begin_def runner_start_def eg_runner_config_def Let_def)
    (simp add: eg_resting_def fill_sim_new_def Let_def)

text \<open>Two bids are resting for 295; a cap of 330 lets one of two further bids through.\<close>

definition eg_capped :: "unit runner" where
  "eg_capped = (eg_begin None (eg_resting False))\<lparr>rn_max_position := 330, rn_last_mark := 100\<rparr>"


lemmas runner_eval = eg_begin_def eg_runner_env_def eg_runner_config_def eg_strategy_def eg_halted_def
  runner_start_def start_tracker_def tracker_new_def zero_counts_def zero_stats_def start_cap_def
  compounding_def derived_cap_def liq_window_new_def strategy_step_def risk_filter_def
  gate_filter_halted liq_observe_def guard_actions_def apply_bot_inventory_cap_def dispatch_def
  market_step_def fill_step_def republish_def post_fill_dispatch_def post_fill_actions_def
  gated_boost_def snapshot_mid_def apply_fill_def count_fill_def record_fill_def
  tracker_snapshot_def tracker_apply_def charge_fee_def dec_sign_def state_dp_def
  open_quotes_def context_of_def live_quotes_for_def

subsection \<open>A halted gate does not stop the orders that follow a fill\<close>

text \<open>
  The gate is halted before the trade, and every answer to a market event is dropped; the trade
  fills a resting order, the strategy answers its own fill with a new order, and that order
  reaches the engine and rests at the next event.
\<close>

theorem halted_gate_bypassed:
  "let S = eg_strategy [] [Quote (eg_intent Bid 90 7 PostOnly)];
       s = market_step eg_runner_env eg_runner_config S (Trade eg_market 98 2 Ask 5) 5
             (strategy_step eg_runner_env eg_runner_config S (Trade eg_market 98 2 Ask 5) 5
               (eg_begin (Some eg_halted) (eg_resting False)))
   in map_option (\<lambda>g. rs_halted (rg_state g)) (rn_gate s) = Some True
      \<and> map po_op (fs_pending (rn_sim s)) = [PlaceOp (eg_intent Bid 90 7 PostOnly) None]"
  by (simp add: runner_eval sim_eval)

subsection \<open>The engine keeps a position the account has lost\<close>

text \<open>Five units at 100 with 50 in the account, held by the tracker and by the engine.\<close>

definition eg_levered_long :: "unit runner" where
  "eg_levered_long = (eg_begin None ((fill_sim_new ((eg_sim_config False)\<lparr>fc_max_position_notional := Some 300\<rparr>))
       \<lparr>fs_position_units := [eg_market \<mapsto> 5]\<rparr>))
     \<lparr>rn_tracker := (tracker_new eg_market)\<lparr>tr_size := 5, tr_avg_entry := 100\<rparr>, rn_last_mark := 80\<rparr>"

text \<open>
  The forced liquidation closes the position of the tracker, but not the one the engine keeps
  for its own gates: the account is flat, yet a small bid is rejected as if it added to five
  units; with the engine's units at zero the same bid rests.
\<close>

theorem liquidation_leaves_phantom:
  "let s = liquidation_step eg_runner_env eg_runner_config 7 eg_levered_long;
       bid = eg_intent Bid 80 1 PostOnly
   in tr_size (rn_tracker s) = 0
      \<and> fs_position_units (rn_sim s) eg_market = Some 5
      \<and> fst (place_gates exact_decimal (rn_sim s) bid) = Some PositionCap
      \<and> fst (place_gates exact_decimal ((rn_sim s)\<lparr>fs_position_units := [eg_market \<mapsto> 0]\<rparr>) bid) = None"
  by (simp add: eg_levered_long_def runner_eval sim_eval liquidation_step_def liq_check_def liq_price_def
      liquidation_new_def running_balance_def next_id_def used_id_def drop_quotes_for_def
      realized_delta_def projected_position_def)

subsection \<open>The same gain is skimmed twice\<close>

definition eg_skim_config :: runner_config where
  "eg_skim_config = eg_runner_config\<lparr>rc_skim := Some \<lparr>sk_budget = 100, sk_skim_pct = 1 / 10, sk_skim_ratio = 1\<rparr>\<rparr>"

definition eg_realize :: "rat \<Rightarrow> unit runner \<Rightarrow> unit runner" where
  "eg_realize r s = s\<lparr>rn_tracker := (rn_tracker s)\<lparr>tr_realized_pnl := r\<rparr>\<rparr>"

text \<open>
  A gain of ten, its loss and the same gain again: only gains are added to the profit since the
  last skim, so two chunks are moved out for a net profit of ten, and the account is worth less
  than the budget it started with.
\<close>

theorem skim_counts_recovered_gain:
  "let s0 = (eg_begin None (eg_resting False))\<lparr>rn_last_mid := 100\<rparr>;
       step = (\<lambda>r s. Option.bind s (\<lambda>s. skim_step exact_decimal eg_skim_config (eg_realize r s)));
       k = map_option rn_skim (step 10 (step 0 (step 10 (Some s0))))
   in map_option si_total k = Some 20 \<and> map_option si_count k = Some 2
      \<and> map_option (\<lambda>s. pp_final_perp_balance (finalize exact_decimal eg_skim_config s))
          (step 10 (step 0 (step 10 (Some s0)))) = Some 90"
  by (simp add: skim_step_def eg_skim_config_def eg_realize_def runner_eval tracker_report_def
      perp_net_def skim_chunks.simps finalize_def)

end
