(* ===== verification/Parquet_Store.thy ===== *)
theory Parquet_Store
  imports Core "HOL-Library.AList" "HOL-Library.List_Lexorder" "HOL-Library.Char_ord"
begin

text \<open>
  The recording directory the recorder writes and the loaders read: file names with the table
  each file holds.  A table is the list of its rows, a column of a row a field; the \<open>f64\<close>
  columns hold rationals.  A file that is still being written, or whose writing failed, has no
  \<open>PAR1\<close> trailer, and \<open>is_complete_parquet\<close> (\<open>crates/tikr-backtest/src/parquet_util.rs\<close>)
  makes the loaders skip it.  The rows are those of \<open>crates/tikr-record/src/main.rs\<close>.
\<close>

record book_row =
  br_ts :: u64
  br_side :: int
  br_price :: rat
  br_size :: rat
  br_seq :: u64

record trade_row =
  tw_ts :: u64
  tw_price :: rat
  tw_size :: rat
  tw_taker :: int
  tw_trade_id :: u64

record mark_row =
  mw_ts :: u64
  mw_price :: rat
  mw_funding :: rat
  mw_next_funding_ts :: u64

datatype table =
  BookTable "book_row list"
| TradeTable "trade_row list"
| MarkTable "mark_row list"
| Truncated

type_synonym directory = "(string \<times> table) list"

fun is_complete_parquet :: "table \<Rightarrow> bool" where
  "is_complete_parquet Truncated \<longleftrightarrow> False"
| "is_complete_parquet _ \<longleftrightarrow> True"

text \<open>\<open>str::starts_with\<close> and \<open>str::ends_with\<close>.\<close>

definition starts_with :: "string \<Rightarrow> string \<Rightarrow> bool" where
  "starts_with p s \<longleftrightarrow> take (length p) s = p"

definition ends_with :: "string \<Rightarrow> string \<Rightarrow> bool" where
  "ends_with p s \<longleftrightarrow> length p \<le> length s \<and> drop (length s - length p) s = p"

definition shard_name :: "string \<Rightarrow> string \<Rightarrow> string \<Rightarrow> string" where
  "shard_name kind base stamp = kind @ ''_'' @ base @ ''_'' @ stamp @ ''.parquet''"

definition shard_prefix :: "string \<Rightarrow> string \<Rightarrow> string" where
  "shard_prefix kind base = kind @ ''_'' @ base @ ''_''"

lemma starts_with_append [simp]: "starts_with p (p @ s)"
  by (simp add: starts_with_def)

lemma ends_with_append [simp]: "ends_with p (s @ p)"
  by (simp add: ends_with_def)

text \<open>The outcome of one write: \<open>File::create\<close> truncates what was there before.\<close>

datatype write_outcome = Written | CreateFails | WriteFails

definition write_file :: "(string \<Rightarrow> write_outcome) \<Rightarrow> string \<Rightarrow> table \<Rightarrow> directory \<Rightarrow> bool \<times> directory" where
  "write_file W name t d = (case W name of
     Written \<Rightarrow> (True, AList.update name t d)
   | CreateFails \<Rightarrow> (False, d)
   | WriteFails \<Rightarrow> (False, AList.update name Truncated d))"

text \<open>\<open>u8::try_from\<close> on an \<open>i64\<close> column.\<close>

definition u8_of :: "int \<Rightarrow> nat option" where
  "u8_of v = (if 0 \<le> v \<and> v < 256 then Some (nat v) else None)"

lemma u8_of_simps [simp]: "u8_of 0 = Some 0" "u8_of 1 = Some 1"
  by (simp_all add: u8_of_def)

end
