(* ===== verification/Recorder.thy ===== *)
theory Recorder
  imports Parquet_Store
begin

text \<open>
  The market-data recorder of \<open>crates/tikr-record/src/main.rs\<close>: \<open>Recorder\<close> buffers the rows of
  book snapshots, trades and mark prices and \<open>flush\<close> writes each non-empty buffer to a file named
  by the second of the flush; \<open>record_step\<close> is an iteration of the loop of \<open>run_recorder\<close>, whose
  \<open>select!\<close> takes one item from one of the streams, and \<open>run_recorder\<close> the loop and the final
  flush.  The clock, the outcome of the writes and the conversion to \<open>f64\<close> come from outside:
  an item carries the time of its arrival.  The subscriptions themselves and logging are not
  modelled.
\<close>

record mark_update =
  mu_ts :: timestamp
  mu_mark_price :: rat
  mu_funding_rate :: rat
  mu_next_funding_ts :: timestamp

text \<open>What the process reads of its surroundings at one iteration.\<close>

text \<open>\<open>ck_loop\<close> is read at the head of the iteration, \<open>ck_now\<close> after the item has arrived.\<close>

record record_clock =
  ck_loop :: u64
  ck_stamp :: string
  ck_now :: u64
  ck_writes :: "string \<Rightarrow> write_outcome"

record recorder =
  rd_symbol :: string
  rd_book_buf :: "book_row list"
  rd_trade_buf :: "trade_row list"
  rd_mark_buf :: "mark_row list"
  rd_seq :: u64
  rd_trade_id :: u64
  rd_flush_count :: u64
  rd_last_flush :: u64
  rd_books_written :: u64
  rd_trades_written :: u64
  rd_marks_written :: u64

definition recorder_new :: "string \<Rightarrow> u64 \<Rightarrow> recorder" where
  "recorder_new base now = \<lparr>rd_symbol = base, rd_book_buf = [], rd_trade_buf = [], rd_mark_buf = [],
     rd_seq = 0, rd_trade_id = 0, rd_flush_count = 0, rd_last_flush = now, rd_books_written = 0,
     rd_trades_written = 0, rd_marks_written = 0\<rparr>"

definition record_level ::
    "(rat \<Rightarrow> rat) \<Rightarrow> timestamp \<Rightarrow> int \<Rightarrow> recorder \<Rightarrow> level \<Rightarrow> recorder" where
  "record_level to_f64 ts side r l =
     (let r = r\<lparr>rd_seq := rd_seq r + 1\<rparr>
      in r\<lparr>rd_book_buf := rd_book_buf r @ [\<lparr>br_ts = ts, br_side = side,
           br_price = to_f64 (lv_price l), br_size = to_f64 (lv_size l), br_seq = rd_seq r\<rparr>]\<rparr>)"

definition record_book :: "(rat \<Rightarrow> rat) \<Rightarrow> snapshot \<Rightarrow> recorder \<Rightarrow> recorder" where
  "record_book to_f64 sn r = foldl (record_level to_f64 (sn_ts sn) 1)
     (foldl (record_level to_f64 (sn_ts sn) 0) r (sn_bids sn)) (sn_asks sn)"

definition record_trade ::
    "(rat \<Rightarrow> rat) \<Rightarrow> timestamp \<Rightarrow> price \<Rightarrow> qsize \<Rightarrow> side \<Rightarrow> recorder \<Rightarrow> recorder" where
  "record_trade to_f64 ts p q taker r =
     (let r = r\<lparr>rd_trade_id := rd_trade_id r + 1\<rparr>
      in r\<lparr>rd_trade_buf := rd_trade_buf r @ [\<lparr>tw_ts = ts, tw_price = to_f64 p, tw_size = to_f64 q,
           tw_taker = (if taker = Bid then 0 else 1), tw_trade_id = rd_trade_id r\<rparr>]\<rparr>)"

definition record_mark :: "(rat \<Rightarrow> rat) \<Rightarrow> mark_update \<Rightarrow> recorder \<Rightarrow> recorder" where
  "record_mark to_f64 u r = r\<lparr>rd_mark_buf := rd_mark_buf r @ [\<lparr>mw_ts = mu_ts u,
     mw_price = to_f64 (mu_mark_price u), mw_funding = to_f64 (mu_funding_rate u),
     mw_next_funding_ts = mu_next_funding_ts u\<rparr>]\<rparr>"

definition row_count :: "recorder \<Rightarrow> nat" where
  "row_count r = length (rd_book_buf r) + length (rd_trade_buf r) + length (rd_mark_buf r)"

subsection \<open>Flushing\<close>

text \<open>A step of \<open>flush\<close> per table; the first failure ends it, with its buffer kept.\<close>

definition flush_books :: "record_clock \<Rightarrow> recorder \<Rightarrow> directory \<Rightarrow> bool \<times> recorder \<times> directory" where
  "flush_books k r d =
     (if rd_book_buf r = [] then (True, r, d)
      else case write_file (ck_writes k) (shard_name ''book'' (rd_symbol r) (ck_stamp k))
             (BookTable (rd_book_buf r)) d of
        (False, d) \<Rightarrow> (False, r, d)
      | (True, d) \<Rightarrow> (True, r\<lparr>rd_books_written := rd_books_written r + of_nat (length (rd_book_buf r)),
                            rd_book_buf := []\<rparr>, d))"

definition flush_trades :: "record_clock \<Rightarrow> recorder \<Rightarrow> directory \<Rightarrow> bool \<times> recorder \<times> directory" where
  "flush_trades k r d =
     (if rd_trade_buf r = [] then (True, r, d)
      else case write_file (ck_writes k) (shard_name ''trades'' (rd_symbol r) (ck_stamp k))
             (TradeTable (rd_trade_buf r)) d of
        (False, d) \<Rightarrow> (False, r, d)
      | (True, d) \<Rightarrow> (True, r\<lparr>rd_trades_written := rd_trades_written r + of_nat (length (rd_trade_buf r)),
                            rd_trade_buf := []\<rparr>, d))"

definition flush_marks :: "record_clock \<Rightarrow> recorder \<Rightarrow> directory \<Rightarrow> bool \<times> recorder \<times> directory" where
  "flush_marks k r d =
     (if rd_mark_buf r = [] then (True, r, d)
      else case write_file (ck_writes k) (shard_name ''mark'' (rd_symbol r) (ck_stamp k))
             (MarkTable (rd_mark_buf r)) d of
        (False, d) \<Rightarrow> (False, r, d)
      | (True, d) \<Rightarrow> (True, r\<lparr>rd_marks_written := rd_marks_written r + of_nat (length (rd_mark_buf r)),
                            rd_mark_buf := []\<rparr>, d))"

definition flush :: "record_clock \<Rightarrow> recorder \<Rightarrow> directory \<Rightarrow> bool \<times> recorder \<times> directory" where
  "flush k r d =
     (if rd_book_buf r = [] \<and> rd_trade_buf r = [] \<and> rd_mark_buf r = [] then (True, r, d)
      else case flush_books k r d of (False, rest) \<Rightarrow> (False, rest)
      | (True, r, d) \<Rightarrow> (case flush_trades k r d of (False, rest) \<Rightarrow> (False, rest)
      | (True, r, d) \<Rightarrow> (case flush_marks k r d of (False, rest) \<Rightarrow> (False, rest)
      | (True, r, d) \<Rightarrow>
          (True, r\<lparr>rd_flush_count := rd_flush_count r + 1, rd_last_flush := ck_now k\<rparr>, d))))"

definition flush_interval :: u64 where
  "flush_interval = 60000000000"

definition flush_row_threshold :: nat where
  "flush_row_threshold = 1000"

definition flush_if_stale :: "record_clock \<Rightarrow> recorder \<Rightarrow> directory \<Rightarrow> bool \<times> recorder \<times> directory" where
  "flush_if_stale k r d =
     (if sat_sub (ck_now k) (rd_last_flush r) < flush_interval then (True, r, d) else flush k r d)"

subsection \<open>The loop\<close>

datatype record_item =
  DepthItem "market_event option"
| TradeItem "market_event option"
| MarkItem "mark_update option"
| ProgressTick
| ShutdownItem

text \<open>
  The arm of the item: \<open>None\<close> breaks out of the loop.  A mark stream that ends is given up, which
  leaves the recorder as it is; the failure of a flush is only logged.
\<close>

fun record_arm ::
    "(rat \<Rightarrow> rat) \<Rightarrow> record_clock \<Rightarrow> record_item \<Rightarrow> recorder \<times> directory \<Rightarrow> (recorder \<times> directory) option"
  where
  "record_arm f k (DepthItem None) s = None"
| "record_arm f k (DepthItem (Some ev)) (r, d) =
     (case ev of BookUpdate sn \<Rightarrow> Some (record_book f sn r, d) | _ \<Rightarrow> Some (r, d))"
| "record_arm f k (TradeItem None) s = None"
| "record_arm f k (TradeItem (Some ev)) (r, d) =
     (case ev of Trade sy p q sd ts \<Rightarrow> Some (record_trade f ts p q sd r, d) | _ \<Rightarrow> Some (r, d))"
| "record_arm f k (MarkItem None) s = Some s"
| "record_arm f k (MarkItem (Some u)) (r, d) = Some (record_mark f u r, d)"
| "record_arm f k ProgressTick (r, d) = Some (snd (flush_if_stale k r d))"
| "record_arm f k ShutdownItem s = None"

definition record_step ::
    "(rat \<Rightarrow> rat) \<Rightarrow> record_clock \<Rightarrow> record_item \<Rightarrow> recorder \<times> directory \<Rightarrow> (recorder \<times> directory) option"
  where
  "record_step f k i s = (case record_arm f k i s of None \<Rightarrow> None
     | Some (r, d) \<Rightarrow> Some (if flush_row_threshold \<le> row_count r then snd (flush k r d) else (r, d)))"

definition cap_reached :: "u64 \<Rightarrow> u64 option \<Rightarrow> record_clock \<Rightarrow> bool" where
  "cap_reached started cap k = (case cap of None \<Rightarrow> False | Some c \<Rightarrow> c \<le> sat_sub (ck_loop k) started)"

text \<open>The items still to come when the loop breaks are never read.\<close>

fun record_loop ::
    "(rat \<Rightarrow> rat) \<Rightarrow> u64 \<Rightarrow> u64 option \<Rightarrow> (record_clock \<times> record_item) list \<Rightarrow> recorder \<times> directory
      \<Rightarrow> recorder \<times> directory" where
  "record_loop f started cap [] s = s"
| "record_loop f started cap ((k, i) # is) s =
     (if cap_reached started cap k then s
      else case record_step f k i s of None \<Rightarrow> s | Some s \<Rightarrow> record_loop f started cap is s)"

text \<open>The loop and the final flush; \<open>None\<close> is the error of the final flush.\<close>

definition run_recorder ::
    "(rat \<Rightarrow> rat) \<Rightarrow> string \<Rightarrow> u64 \<Rightarrow> u64 option \<Rightarrow> (record_clock \<times> record_item) list \<Rightarrow> record_clock
      \<Rightarrow> directory \<Rightarrow> recorder option \<times> directory" where
  "run_recorder f base started cap is k d =
     (let (r, d) = record_loop f started cap is (recorder_new base started, d)
      in case flush k r d of (ok, r, d) \<Rightarrow> (if ok then Some r else None, d))"

text \<open>\<open>split_symbol\<close>: the known quote suffixes, then the last four characters.\<close>

fun split_known :: "string list \<Rightarrow> string \<Rightarrow> (string \<times> string) option" where
  "split_known [] s = None"
| "split_known (q # qs) s =
     (if ends_with q s \<and> length q < length s then Some (take (length s - length q) s, q)
      else split_known qs s)"

definition split_symbol :: "string \<Rightarrow> string \<times> string" where
  "split_symbol s = (case split_known [''USDT'', ''BUSD'', ''USDC'', ''TUSD''] s of
     Some r \<Rightarrow> r
   | None \<Rightarrow> if 4 < length s then (take (length s - 4) s, drop (length s - 4) s) else (s, ''USDT''))"

end
