(* ===== verification/Replay.thy ===== *)
theory Replay
  imports Parquet_Store "HOL-Library.Product_Lexorder"
begin

text \<open>
  The replay engine of \<open>crates/tikr-backtest/src/replay.rs\<close>: \<open>replay_load\<close> reads the recorded
  tables of a directory into one totally ordered event list and checks the sequence numbers,
  \<open>replay_next\<close> is \<open>ParquetReplay::next\<close> with its heartbeats and its coalescing of the rows of
  one snapshot, and \<open>replay_all\<close> drains the stream, which is a total function: the termination
  proof is that no replay runs forever.

  Prices are integer ticks (\<open>i64\<close>; the range is checked where they are converted).  A
  \<open>BTreeMap\<close> of levels is the list of its entries in order of the key.  The threads of the
  loader only split the list of files into consecutive parts, so the files are read in order
  here; reading the parquet encoding, null cells and the other column types are left out, and
  the text of a schema error.
\<close>

subsection \<open>Ordered maps on ticks\<close>

type_synonym 'v tick_map = "(int \<times> 'v) list"

fun bt_insert :: "int \<Rightarrow> 'v \<Rightarrow> 'v tick_map \<Rightarrow> 'v tick_map" where
  "bt_insert k v [] = [(k, v)]"
| "bt_insert k v ((a, w) # m) =
     (if k < a then (k, v) # (a, w) # m else if k = a then (k, v) # m else (a, w) # bt_insert k v m)"

definition bt_remove :: "int \<Rightarrow> 'v tick_map \<Rightarrow> 'v tick_map" where
  "bt_remove k m = filter (\<lambda>(a, v). a \<noteq> k) m"

subsection \<open>Books\<close>

record tick_book =
  tb_bids :: "level tick_map"
  tb_asks :: "level tick_map"
  tb_last_applied_ts :: u64

definition tick_book_new :: tick_book where
  "tick_book_new = \<lparr>tb_bids = [], tb_asks = [], tb_last_applied_ts = 0\<rparr>"

definition set_level :: "decimal_ops \<Rightarrow> rat \<Rightarrow> int \<Rightarrow> rat \<Rightarrow> level tick_map \<Rightarrow> level tick_map" where
  "set_level D tick t q m =
     (if q = 0 then bt_remove t m
      else bt_insert t \<lparr>lv_price = dmul D (of_int t) tick, lv_size = q\<rparr> m)"

definition apply_delta_row ::
    "decimal_ops \<Rightarrow> rat \<Rightarrow> u64 \<Rightarrow> nat \<Rightarrow> int \<Rightarrow> rat \<Rightarrow> tick_book \<Rightarrow> tick_book" where
  "apply_delta_row D tick ts sd t q b =
     (let b = (if ts \<noteq> tb_last_applied_ts b
               then \<lparr>tb_bids = [], tb_asks = [], tb_last_applied_ts = ts\<rparr> else b)
      in if sd = 0 then b\<lparr>tb_bids := set_level D tick t q (tb_bids b)\<rparr>
         else b\<lparr>tb_asks := set_level D tick t q (tb_asks b)\<rparr>)"

definition book_snapshot :: "symbol \<Rightarrow> timestamp \<Rightarrow> tick_book \<Rightarrow> snapshot" where
  "book_snapshot sy ts b = \<lparr>sn_symbol = sy, sn_bids = map snd (rev (tb_bids b)),
     sn_asks = map snd (tb_asks b), sn_ts = ts\<rparr>"

subsection \<open>Loaded events\<close>

datatype event_payload =
  BookDelta nat int rat u64
| TradePrint rat rat nat

record loaded_event =
  ld_ts :: u64
  ld_symbol_idx :: nat
  ld_payload :: event_payload
  ld_src :: u64

fun payload_rank :: "event_payload \<Rightarrow> nat" where
  "payload_rank (BookDelta sd t q n) = 0"
| "payload_rank (TradePrint p q sd) = 1"

record replay_config =
  rp_heartbeat_ms :: u64
  rp_symbols :: "symbol list"
  rp_tick_size :: rat
  rp_allow_seq_gaps :: bool

datatype replay_error = SeqGap string u64 u64 u64 | Schema

record loaded_data =
  dt_cfg :: replay_config
  dt_events :: "loaded_event list"

subsection \<open>Reading the tables\<close>

definition to_i64 :: "rat \<Rightarrow> int option" where
  "to_i64 x = (let t = (if 0 \<le> x then \<lfloor>x\<rfloor> else \<lceil>x\<rceil>)
     in if - (2 ^ 63) \<le> t \<and> t < 2 ^ 63 then Some t else None)"

definition price_to_ticks :: "decimal_ops \<Rightarrow> rat \<Rightarrow> rat \<Rightarrow> int option" where
  "price_to_ticks D p tick = (if tick \<le> 0 then None else to_i64 (round_dp D (ddiv D p tick) 0))"

definition row_src :: "u32 \<Rightarrow> nat \<Rightarrow> u64" where
  "row_src file_rank i = or (push_bit 32 (ucast file_rank)) (of_nat i)"

definition book_event ::
    "decimal_ops \<Rightarrow> rat \<Rightarrow> nat \<Rightarrow> u32 \<Rightarrow> nat \<times> book_row \<Rightarrow> loaded_event option" where
  "book_event D tick idx rank ir = (case ir of (i, r) \<Rightarrow>
     (case (u8_of (br_side r), from_f64 D (br_price r), from_f64 D (br_size r)) of
        (Some sd, Some p, Some q) \<Rightarrow>
          (case price_to_ticks D p tick of None \<Rightarrow> None
           | Some t \<Rightarrow> Some \<lparr>ld_ts = br_ts r, ld_symbol_idx = idx,
               ld_payload = BookDelta sd t q (br_seq r), ld_src = row_src rank i\<rparr>)
      | _ \<Rightarrow> None))"

definition load_book_parquet ::
    "decimal_ops \<Rightarrow> rat \<Rightarrow> nat \<Rightarrow> u32 \<Rightarrow> table \<Rightarrow> replay_error + loaded_event list" where
  "load_book_parquet D tick idx rank t = (case t of
     BookTable rows \<Rightarrow> (case those (map (book_event D tick idx rank) (enumerate 0 rows)) of
        Some es \<Rightarrow> Inr es | None \<Rightarrow> Inl Schema)
   | _ \<Rightarrow> Inl Schema)"

text \<open>The columns are converted first; then rows with no price or no size are dropped.\<close>

definition trade_event ::
    "decimal_ops \<Rightarrow> nat \<Rightarrow> u32 \<Rightarrow> nat \<times> trade_row \<Rightarrow> loaded_event option option" where
  "trade_event D idx rank ir = (case ir of (i, r) \<Rightarrow>
     (case (from_f64 D (tw_price r), from_f64 D (tw_size r), u8_of (tw_taker r)) of
        (Some p, Some q, Some sd) \<Rightarrow> Some (if p \<le> 0 \<or> q \<le> 0 then None
          else Some \<lparr>ld_ts = tw_ts r, ld_symbol_idx = idx, ld_payload = TradePrint p q sd,
                 ld_src = row_src rank i\<rparr>)
      | _ \<Rightarrow> None))"

definition load_trades_parquet ::
    "decimal_ops \<Rightarrow> nat \<Rightarrow> u32 \<Rightarrow> table \<Rightarrow> replay_error + loaded_event list" where
  "load_trades_parquet D idx rank t = (case t of
     TradeTable rows \<Rightarrow> (case those (map (trade_event D idx rank) (enumerate 0 rows)) of
        Some es \<Rightarrow> Inr (List.map_filter id es) | None \<Rightarrow> Inl Schema)
   | _ \<Rightarrow> Inl Schema)"

subsection \<open>Loading a directory\<close>

record load_task =
  lt_path :: string
  lt_table :: table
  lt_is_book :: bool
  lt_symbol_idx :: nat

definition symbol_tasks :: "directory \<Rightarrow> nat \<times> symbol \<Rightarrow> load_task list" where
  "symbol_tasks dir is = (case is of (idx, sy) \<Rightarrow>
     List.map_filter (\<lambda>(name, t).
       if \<not> ends_with ''.parquet'' name \<or> \<not> is_complete_parquet t then None
       else if starts_with (shard_prefix ''book'' (sy_base sy)) name
       then Some \<lparr>lt_path = name, lt_table = t, lt_is_book = True, lt_symbol_idx = idx\<rparr>
       else if starts_with (shard_prefix ''trades'' (sy_base sy)) name
       then Some \<lparr>lt_path = name, lt_table = t, lt_is_book = False, lt_symbol_idx = idx\<rparr>
       else None) dir)"

definition load_tasks :: "replay_config \<Rightarrow> directory \<Rightarrow> load_task list" where
  "load_tasks c dir = sort_key lt_path (concat (map (symbol_tasks dir) (enumerate 0 (rp_symbols c))))"

definition load_one :: "decimal_ops \<Rightarrow> rat \<Rightarrow> nat \<times> load_task \<Rightarrow> replay_error + loaded_event list" where
  "load_one D tick rt = (case rt of (rank, t) \<Rightarrow>
     if lt_is_book t then load_book_parquet D tick (lt_symbol_idx t) (of_nat rank) (lt_table t)
     else load_trades_parquet D (lt_symbol_idx t) (of_nat rank) (lt_table t))"

fun load_all :: "decimal_ops \<Rightarrow> rat \<Rightarrow> (nat \<times> load_task) list \<Rightarrow> replay_error + loaded_event list" where
  "load_all D tick [] = Inr []"
| "load_all D tick (t # ts) = (case load_one D tick t of Inl e \<Rightarrow> Inl e
     | Inr es \<Rightarrow> (case load_all D tick ts of Inl e \<Rightarrow> Inl e | Inr es' \<Rightarrow> Inr (es @ es')))"

definition position_of :: "'a \<Rightarrow> 'a list \<Rightarrow> nat" where
  "position_of x xs = length (takeWhile (\<lambda>y. y \<noteq> x) xs)"

definition alpha_rank :: "symbol list \<Rightarrow> nat \<Rightarrow> nat" where
  "alpha_rank sys idx = position_of idx
     (map snd (sort_key fst (zip (map sy_base sys) [0..<length sys])))"

definition event_key :: "symbol list \<Rightarrow> loaded_event \<Rightarrow> u64 \<times> nat \<times> nat \<times> u64" where
  "event_key sys e =
     (ld_ts e, alpha_rank sys (ld_symbol_idx e), payload_rank (ld_payload e), ld_src e)"

fun check_seq :: "string \<Rightarrow> u64 option \<Rightarrow> loaded_event list \<Rightarrow> replay_error option" where
  "check_seq base last_seq [] = None"
| "check_seq base last_seq (e # es) = (case ld_payload e of
     BookDelta sd t q n \<Rightarrow>
       (case last_seq of
          Some prev \<Rightarrow> if n \<noteq> prev + 1 then Some (SeqGap base (ld_ts e) (prev + 1) n)
                       else check_seq base (Some n) es
        | None \<Rightarrow> check_seq base (Some n) es)
   | TradePrint p q sd \<Rightarrow> check_seq base last_seq es)"

fun check_symbols :: "loaded_event list \<Rightarrow> (nat \<times> symbol) list \<Rightarrow> replay_error option" where
  "check_symbols es [] = None"
| "check_symbols es ((idx, sy) # sys) =
     (case check_seq (sy_base sy) None (filter (\<lambda>e. ld_symbol_idx e = idx) es) of
        Some err \<Rightarrow> Some err | None \<Rightarrow> check_symbols es sys)"

text \<open>With gaps allowed a gap is only logged.\<close>

definition replay_load :: "decimal_ops \<Rightarrow> replay_config \<Rightarrow> directory \<Rightarrow> replay_error + loaded_data" where
  "replay_load D c dir =
     (case load_all D (rp_tick_size c) (enumerate 0 (load_tasks c dir)) of Inl err \<Rightarrow> Inl err
      | Inr es \<Rightarrow>
          (let es = sort_key (event_key (rp_symbols c)) es
           in case (if rp_allow_seq_gaps c then None
                    else check_symbols es (enumerate 0 (rp_symbols c))) of
                Some err \<Rightarrow> Inl err
              | None \<Rightarrow> Inr \<lparr>dt_cfg = c, dt_events = es\<rparr>))"

definition data_len :: "loaded_data \<Rightarrow> nat" where
  "data_len d = length (dt_events d)"

definition data_is_empty :: "loaded_data \<Rightarrow> bool" where
  "data_is_empty d \<longleftrightarrow> dt_events d = []"

definition ts_span_ns :: "loaded_data \<Rightarrow> (u64 \<times> u64) option" where
  "ts_span_ns d = (case (first_opt (dt_events d), last_opt (dt_events d)) of
     (Some f, Some l) \<Rightarrow> Some (ld_ts f, ld_ts l) | _ \<Rightarrow> None)"

subsection \<open>The stream\<close>

record replay =
  rp_data :: loaded_data
  rp_books :: "tick_book list"
  rp_cursor :: nat
  rp_last :: "u64 option"

definition from_shared :: "loaded_data \<Rightarrow> replay" where
  "from_shared d = \<lparr>rp_data = d,
     rp_books = replicate (length (rp_symbols (dt_cfg d))) tick_book_new,
     rp_cursor = 0, rp_last = None\<rparr>"

definition heartbeat_due :: "u64 \<Rightarrow> u64 option \<Rightarrow> u64 \<Rightarrow> u64 option" where
  "heartbeat_due ms last_ts next_ts = (case last_ts of None \<Rightarrow> None
     | Some l \<Rightarrow>
         (let hb_ns = sat_mul ms 1000000; next_hb = sat_add l hb_ns
          in if 0 < hb_ns \<and> next_hb < next_ts then Some next_hb else None))"

text \<open>The remaining rows of a snapshot, and how many they are.\<close>

fun coalesce ::
    "decimal_ops \<Rightarrow> rat \<Rightarrow> u64 \<Rightarrow> nat \<Rightarrow> tick_book \<Rightarrow> loaded_event list \<Rightarrow> tick_book \<times> nat" where
  "coalesce D tick ts idx b [] = (b, 0)"
| "coalesce D tick ts idx b (e # es) =
     (if ld_ts e \<noteq> ts \<or> ld_symbol_idx e \<noteq> idx then (b, 0)
      else case ld_payload e of
             BookDelta sd t q n \<Rightarrow>
               (case coalesce D tick ts idx (apply_delta_row D tick ts sd t q b) es of
                  (b, k) \<Rightarrow> (b, Suc k))
           | TradePrint p q sd \<Rightarrow> (b, 0))"

definition replay_next :: "decimal_ops \<Rightarrow> replay \<Rightarrow> (market_event \<times> replay) option" where
  "replay_next D p =
     (let c = dt_cfg (rp_data p); es = dt_events (rp_data p)
      in case drop (rp_cursor p) es of [] \<Rightarrow> None
         | e # rest \<Rightarrow>
             (case heartbeat_due (rp_heartbeat_ms c) (rp_last p) (ld_ts e) of
                Some hb \<Rightarrow> Some (Heartbeat hb, p\<lparr>rp_last := Some hb\<rparr>)
              | None \<Rightarrow>
                  (let p = p\<lparr>rp_cursor := Suc (rp_cursor p), rp_last := Some (ld_ts e)\<rparr>;
                       idx = ld_symbol_idx e; ts = ld_ts e; sy = rp_symbols c ! idx
                   in case ld_payload e of
                        BookDelta sd t q n \<Rightarrow>
                          (case coalesce D (rp_tick_size c) ts idx
                              (apply_delta_row D (rp_tick_size c) ts sd t q (rp_books p ! idx)) rest of
                             (b, k) \<Rightarrow> Some (BookUpdate (book_snapshot sy ts b),
                                p\<lparr>rp_books := (rp_books p)[idx := b], rp_cursor := rp_cursor p + k\<rparr>))
                      | TradePrint pr q sd \<Rightarrow>
                          Some (Trade sy pr q (if sd = 0 then Bid else Ask) ts, p))))"

lemma heartbeat_due_bounds:
  assumes "heartbeat_due ms last_ts next_ts = Some hb"
  obtains l where "last_ts = Some l" "l < hb" "hb < next_ts" "0 < sat_mul ms 1000000"
    "hb = sat_add l (sat_mul ms 1000000)"
proof -
  from assms obtain l where l: "last_ts = Some l" "0 < sat_mul ms 1000000"
      "sat_add l (sat_mul ms 1000000) < next_ts" "hb = sat_add l (sat_mul ms 1000000)"
    by (auto simp: heartbeat_due_def Let_def split: option.splits if_splits)
  have "l < - 1"
    by (rule le_less_trans [OF sat_add_mono less_le_trans [OF l(3) word_order.extremum]])
  with l that [of l] show thesis by (auto intro: sat_add_strict)
qed

text \<open>What is left of a stream: the events, then the distance to the next one.\<close>

definition time_left :: "replay \<Rightarrow> nat" where
  "time_left p = (case drop (rp_cursor p) (dt_events (rp_data p)) of [] \<Rightarrow> 0
     | e # es \<Rightarrow> unat (ld_ts e) - (case rp_last p of Some l \<Rightarrow> unat l | None \<Rightarrow> 0))"

lemma replay_next_decreases:
  assumes "replay_next D p = Some (ev, p')"
  shows "(p', p) \<in> measures [\<lambda>p. length (dt_events (rp_data p)) - rp_cursor p, time_left]"
proof (cases "drop (rp_cursor p) (dt_events (rp_data p))")
  case Nil
  with assms show ?thesis by (simp add: replay_next_def)
next
  case (Cons e rest)
  then have lt: "rp_cursor p < length (dt_events (rp_data p))"
    by (metis drop_all list.distinct(1) not_less)
  show ?thesis
  proof (cases "heartbeat_due (rp_heartbeat_ms (dt_cfg (rp_data p))) (rp_last p) (ld_ts e)")
    case None
    with assms Cons lt show ?thesis
      by (auto simp: replay_next_def Let_def split: event_payload.splits prod.splits)
  next
    case (Some hb)
    then obtain l where l: "rp_last p = Some l" "l < hb" "hb < ld_ts e"
      by (rule heartbeat_due_bounds)
    from assms Cons Some have "p' = p\<lparr>rp_last := Some hb\<rparr>" by (simp add: replay_next_def Let_def)
    with l Cons show ?thesis by (simp add: time_left_def word_less_nat_alt)
  qed
qed

function replay_all :: "decimal_ops \<Rightarrow> replay \<Rightarrow> market_event list" where
  "replay_all D p = (case replay_next D p of None \<Rightarrow> []
     | Some (ev, p') \<Rightarrow> ev # replay_all D p')"
  by pat_completeness auto
termination
  by (relation "inv_image (measures [\<lambda>p. length (dt_events (rp_data p)) - rp_cursor p, time_left]) snd")
    (auto dest: replay_next_decreases)

declare replay_all.simps [simp del]

end
