(* ===== verification/Replay_Laws.thy ===== *)
theory Replay_Laws
  imports Replay "HOL-Library.Multiset"
begin

text \<open>
  What the replay promises: its book updates hold exactly the rows of their snapshot
  (\<open>replay_books_exact\<close>), the stream is in order of time and never silent for longer than the
  heartbeat (\<open>replay_paced\<close>), a directory is read the same however it is listed
  (\<open>load_order_irrelevant\<close>), and a gap in the sequence numbers is an error exactly when there
  is one (\<open>load_detects_gaps\<close>).
\<close>

subsection \<open>Ordered maps\<close>

abbreviation ascending :: "'v tick_map \<Rightarrow> bool" where
  "ascending m \<equiv> sorted_wrt (<) (map fst m)"

lemma bt_insert_ball [simp]:
  "(\<forall>x \<in> set (bt_insert k v m). P (fst x)) \<longleftrightarrow> P k \<and> (\<forall>x \<in> set m. P (fst x))"
  by (induction k v m rule: bt_insert.induct) auto

lemma ascending_insert: "ascending m \<Longrightarrow> ascending (bt_insert k v m)"
  by (induction k v m rule: bt_insert.induct) auto

lemma ascending_remove: "ascending m \<Longrightarrow> ascending (bt_remove k m)"
  by (auto simp: bt_remove_def sorted_wrt_map intro: sorted_wrt_filter)

lemma map_of_bt_insert [simp]: "map_of (bt_insert k v m) = (map_of m)(k \<mapsto> v)"
  by (induction k v m rule: bt_insert.induct) auto

lemma map_of_bt_remove [simp]: "map_of (bt_remove k m) = (map_of m)(k := None)"
  by (induction m) (auto simp: bt_remove_def)

lemma ascending_distinct: "ascending m \<Longrightarrow> distinct (map fst m)"
  by (simp add: strict_sorted_iff)

lemma ascending_unique:
  assumes "ascending xs" "ascending ys" "map_of xs = map_of ys"
  shows "xs = ys"
proof -
  have s: "set xs = set ys"
    using assms by (metis (no_types) ascending_distinct map_of_inject_set)
  have "sorted (map fst xs)" "distinct (map fst xs)" "sorted (map fst ys)" "distinct (map fst ys)"
    using assms(1,2) by (simp_all add: strict_sorted_iff)
  then show ?thesis using map_sorted_distinct_set_unique [of fst xs ys] s
    by (simp add: distinct_map strict_sorted_iff inj_on_def)
qed

lemma bt_insert_below: "\<forall>x \<in> fst ` set m. k < x \<Longrightarrow> bt_insert k v m = (k, v) # m"
  by (cases m) auto

lemma bt_insert_above: "\<forall>x \<in> fst ` set m. x < k \<Longrightarrow> bt_insert k v m = m @ [(k, v)]"
  by (induction k v m rule: bt_insert.induct) auto

subsection \<open>The rows of a snapshot\<close>

fun is_delta :: "loaded_event \<Rightarrow> bool" where
  "is_delta e = (case ld_payload e of BookDelta sd t q n \<Rightarrow> True | TradePrint p q sd \<Rightarrow> False)"

definition same_snapshot :: "loaded_event \<Rightarrow> loaded_event \<Rightarrow> bool" where
  "same_snapshot e e' \<longleftrightarrow> ld_ts e' = ld_ts e \<and> ld_symbol_idx e' = ld_symbol_idx e \<and> is_delta e'"

definition apply_event :: "decimal_ops \<Rightarrow> rat \<Rightarrow> tick_book \<Rightarrow> loaded_event \<Rightarrow> tick_book" where
  "apply_event D tick b e = (case ld_payload e of
     BookDelta sd t q n \<Rightarrow> apply_delta_row D tick (ld_ts e) sd t q b | TradePrint p q sd \<Rightarrow> b)"

lemma coalesce_takeWhile:
  "coalesce D tick (ld_ts e) (ld_symbol_idx e) b es =
     (foldl (apply_event D tick) b (takeWhile (same_snapshot e) es),
      length (takeWhile (same_snapshot e) es))"
  by (induction es arbitrary: b)
    (auto simp: same_snapshot_def apply_event_def split: event_payload.splits prod.splits)

subsection \<open>The real events of a stream\<close>

fun is_heartbeat :: "market_event \<Rightarrow> bool" where
  "is_heartbeat (Heartbeat ts) \<longleftrightarrow> True"
| "is_heartbeat _ \<longleftrightarrow> False"

text \<open>The stream without its heartbeats, by recursion on the loaded events.\<close>

function real_events ::
    "decimal_ops \<Rightarrow> replay_config \<Rightarrow> tick_book list \<Rightarrow> loaded_event list \<Rightarrow> market_event list" where
  "real_events D c bs [] = []"
| "real_events D c bs (e # es) =
     (let idx = ld_symbol_idx e; sy = rp_symbols c ! idx
      in case ld_payload e of
           BookDelta sd t q n \<Rightarrow>
             (let b = foldl (apply_event D (rp_tick_size c)) (bs ! idx) (e # takeWhile (same_snapshot e) es)
              in BookUpdate (book_snapshot sy (ld_ts e) b)
                   # real_events D c (bs[idx := b]) (dropWhile (same_snapshot e) es))
         | TradePrint p q sd \<Rightarrow>
             Trade sy p q (if sd = 0 then Bid else Ask) (ld_ts e) # real_events D c bs es)"
  by pat_completeness auto
termination
  by (relation "measure (\<lambda>(D, c, bs, es). length es)") (auto simp: length_dropWhile_le less_Suc_eq_le)

lemma replay_real_events:
  "filter (\<lambda>ev. \<not> is_heartbeat ev) (replay_all D p)
   = real_events D (dt_cfg (rp_data p)) (rp_books p) (drop (rp_cursor p) (dt_events (rp_data p)))"
proof (induction D p rule: replay_all.induct)
  case (1 D p)
  let ?c = "dt_cfg (rp_data p)" and ?es = "dt_events (rp_data p)"
  show ?case
  proof (cases "drop (rp_cursor p) ?es")
    case Nil
    then show ?thesis by (subst replay_all.simps) (simp add: replay_next_def)
  next
    case (Cons e rest)
    then have rest: "drop (Suc (rp_cursor p)) ?es = rest" by (metis drop_Suc list.sel(3) tl_drop)
    show ?thesis
    proof (cases "heartbeat_due (rp_heartbeat_ms ?c) (rp_last p) (ld_ts e)")
      case (Some hb)
      with Cons have "replay_next D p = Some (Heartbeat hb, p\<lparr>rp_last := Some hb\<rparr>)"
        by (simp add: replay_next_def Let_def)
      with 1 [OF this refl] show ?thesis by (subst replay_all.simps) simp
    next
      case None
      show ?thesis
      proof (cases "ld_payload e")
        case (TradePrint pr q sd)
        with Cons None obtain p' where p': "replay_next D p = Some (Trade (rp_symbols ?c ! ld_symbol_idx e)
            pr q (if sd = 0 then Bid else Ask) (ld_ts e), p')" "rp_data p' = rp_data p"
            "rp_books p' = rp_books p" "rp_cursor p' = Suc (rp_cursor p)"
          by (simp add: replay_next_def Let_def)
        with 1 [OF p'(1) refl] Cons rest TradePrint show ?thesis
          by (subst replay_all.simps) (simp add: Let_def)
      next
        case (BookDelta sd t q n)
        let ?b = "foldl (apply_event D (rp_tick_size ?c)) (rp_books p ! ld_symbol_idx e)
            (e # takeWhile (same_snapshot e) rest)"
        from BookDelta Cons None obtain p' where p': "replay_next D p = Some (BookUpdate (book_snapshot
            (rp_symbols ?c ! ld_symbol_idx e) (ld_ts e) ?b), p')" "rp_data p' = rp_data p"
            "rp_books p' = (rp_books p)[ld_symbol_idx e := ?b]"
            "rp_cursor p' = Suc (rp_cursor p) + length (takeWhile (same_snapshot e) rest)"
          by (simp add: replay_next_def Let_def coalesce_takeWhile apply_event_def [of D _ _ e])
        have "drop (rp_cursor p') ?es = dropWhile (same_snapshot e) rest"
          unfolding p'(4) by (metis add.commute drop_drop dropWhile_eq_drop rest)
        with 1 [OF p'(1) refl] p' Cons BookDelta show ?thesis
          by (subst replay_all.simps) (simp add: Let_def)
      qed
    qed
  qed
qed

subsection \<open>The book of a snapshot\<close>

text \<open>The reference: the last row of each tick decides, a size of zero deletes.\<close>

definition side_rows :: "bool \<Rightarrow> loaded_event list \<Rightarrow> (int \<times> rat) list" where
  "side_rows bid es = List.map_filter (\<lambda>e. case ld_payload e of
     BookDelta sd t q n \<Rightarrow> if (sd = 0) = bid then Some (t, q) else None
   | TradePrint p q sd \<Rightarrow> None) es"

definition final_level :: "decimal_ops \<Rightarrow> rat \<Rightarrow> (int \<times> rat) list \<Rightarrow> int \<Rightarrow> level option" where
  "final_level D tick rows t = (case map_of (rev rows) t of None \<Rightarrow> None
     | Some q \<Rightarrow> if q = 0 then None else Some \<lparr>lv_price = dmul D (of_int t) tick, lv_size = q\<rparr>)"

definition final_levels :: "decimal_ops \<Rightarrow> rat \<Rightarrow> (int \<times> rat) list \<Rightarrow> level tick_map" where
  "final_levels D tick rows =
     List.map_filter (\<lambda>t. map_option (Pair t) (final_level D tick rows t)) (sort (remdups (map fst rows)))"

definition snapshot_of_rows :: "decimal_ops \<Rightarrow> rat \<Rightarrow> symbol \<Rightarrow> timestamp \<Rightarrow> loaded_event list \<Rightarrow> snapshot" where
  "snapshot_of_rows D tick sy ts es = \<lparr>sn_symbol = sy,
     sn_bids = map snd (rev (final_levels D tick (side_rows True es))),
     sn_asks = map snd (final_levels D tick (side_rows False es)), sn_ts = ts\<rparr>"

definition set_levels :: "decimal_ops \<Rightarrow> rat \<Rightarrow> level tick_map \<Rightarrow> (int \<times> rat) list \<Rightarrow> level tick_map" where
  "set_levels D tick m rows = foldl (\<lambda>m (t, q). set_level D tick t q m) m rows"

lemma set_levels_map:
  "ascending m \<Longrightarrow> ascending (set_levels D tick m rows)
   \<and> map_of (set_levels D tick m rows) = (\<lambda>t. case map_of (rev rows) t of None \<Rightarrow> map_of m t
       | Some q \<Rightarrow> if q = 0 then None else Some \<lparr>lv_price = dmul D (of_int t) tick, lv_size = q\<rparr>)"
proof (induction rows rule: rev_induct)
  case (snoc r rows)
  obtain t q where r: "r = (t, q)" by (cases r)
  have step: "set_levels D tick m (rows @ [r]) = set_level D tick t q (set_levels D tick m rows)"
    by (simp add: set_levels_def r)
  from snoc show ?case unfolding step
    by (auto simp: r set_level_def ascending_insert ascending_remove fun_eq_iff)
qed (simp add: set_levels_def)

lemma map_of_map_filter_pair:
  "map_of (List.map_filter (\<lambda>t. map_option (Pair t) (f t)) ts) t = (if t \<in> set ts then f t else None)"
  by (induction ts) (auto simp: List.map_filter_simps split: option.splits)

lemma fst_map_filter_pair:
  "map fst (List.map_filter (\<lambda>t. map_option (Pair t) (f t)) ts) = filter (\<lambda>t. f t \<noteq> None) ts"
  by (induction ts) (auto simp: List.map_filter_simps split: option.splits)

lemma ascending_final_levels: "ascending (final_levels D tick rows)"
proof -
  have "sorted_wrt (<) (sort (remdups (map fst rows)))"
    unfolding strict_sorted_iff by simp
  then show ?thesis by (simp only: final_levels_def fst_map_filter_pair sorted_wrt_filter)
qed

lemma map_of_final_levels: "map_of (final_levels D tick rows) = final_level D tick rows"
proof (rule ext)
  fix t
  have "t \<notin> fst ` set rows \<Longrightarrow> final_level D tick rows t = None"
    by (simp add: final_level_def map_of_eq_None_iff [THEN iffD2])
  then show "map_of (final_levels D tick rows) t = final_level D tick rows t"
    by (auto simp: final_levels_def map_of_map_filter_pair)
qed

lemma set_levels_empty: "set_levels D tick [] rows = final_levels D tick rows"
  by (rule ascending_unique)
    (use set_levels_map [of "[]" D tick rows] in
      \<open>auto simp: ascending_final_levels map_of_final_levels final_level_def fun_eq_iff split: option.split\<close>)

lemma side_rows_simps [simp]:
  "side_rows bid [] = []"
  "ld_payload e = BookDelta sd t q n \<Longrightarrow>
     side_rows bid (e # es) = (if (sd = 0) = bid then [(t, q)] else []) @ side_rows bid es"
  "ld_payload e = TradePrint p r tk \<Longrightarrow> side_rows bid (e # es) = side_rows bid es"
  by (simp_all add: side_rows_def List.map_filter_simps)

lemma set_levels_Cons [simp]:
  "set_levels D tick m [] = m"
  "set_levels D tick m ((t, q) # rows) = set_levels D tick (set_level D tick t q m) rows"
  by (simp_all add: set_levels_def)

lemma apply_events_same_ts:
  "\<forall>e \<in> set es. is_delta e \<and> ld_ts e = tb_last_applied_ts b \<Longrightarrow>
   foldl (apply_event D tick) b es =
     b\<lparr>tb_bids := set_levels D tick (tb_bids b) (side_rows True es),
       tb_asks := set_levels D tick (tb_asks b) (side_rows False es)\<rparr>"
proof (induction es arbitrary: b)
  case (Cons e es)
  obtain sd t q n where e: "ld_payload e = BookDelta sd t q n"
    using Cons.prems by (cases "ld_payload e") auto
  let ?b = "apply_event D tick b e"
  have b: "?b = (if sd = 0 then b\<lparr>tb_bids := set_level D tick t q (tb_bids b)\<rparr>
      else b\<lparr>tb_asks := set_level D tick t q (tb_asks b)\<rparr>)"
    using Cons.prems by (simp add: apply_event_def e apply_delta_row_def)
  then have "tb_last_applied_ts ?b = tb_last_applied_ts b" by simp
  with Cons show ?case by (simp add: e b)
qed simp

text \<open>A book that has not seen the time stamp, or is empty, forgets what it held.\<close>

lemma apply_snapshot:
  assumes e: "is_delta e" and fresh: "ld_ts e \<noteq> tb_last_applied_ts b \<or> tb_bids b = [] \<and> tb_asks b = []"
    and es: "\<forall>e' \<in> set es. same_snapshot e e'"
  shows "foldl (apply_event D tick) b (e # es) =
     \<lparr>tb_bids = final_levels D tick (side_rows True (e # es)),
      tb_asks = final_levels D tick (side_rows False (e # es)), tb_last_applied_ts = ld_ts e\<rparr>"
proof -
  let ?b = "\<lparr>tb_bids = [], tb_asks = [], tb_last_applied_ts = ld_ts e\<rparr>"
  obtain sd t q n where p: "ld_payload e = BookDelta sd t q n"
    using e by (cases "ld_payload e") auto
  have "apply_event D tick b e = apply_event D tick ?b e"
    using fresh by (cases b) (auto simp: apply_event_def p apply_delta_row_def)
  then have "foldl (apply_event D tick) b (e # es) = foldl (apply_event D tick) ?b (e # es)" by simp
  also have "\<dots> = ?b\<lparr>tb_bids := set_levels D tick [] (side_rows True (e # es)),
      tb_asks := set_levels D tick [] (side_rows False (e # es))\<rparr>"
    using e es by (subst apply_events_same_ts) (auto simp: same_snapshot_def)
  finally show ?thesis by (simp add: set_levels_empty)
qed

subsection \<open>The order of the loaded events\<close>

lemma position_of_nth: "x \<in> set xs \<Longrightarrow> xs ! position_of x xs = x"
  by (induction xs) (auto simp: position_of_def)

lemma alpha_rank_inj:
  assumes "i < length sys" "j < length sys"
  shows "alpha_rank sys i = alpha_rank sys j \<longleftrightarrow> i = j"
proof -
  let ?r = "map snd (sort_key fst (zip (map sy_base sys) [0..<length sys]))"
  have "set ?r = set (map snd (zip (map sy_base sys) [0..<length sys]))"
    by (simp only: set_map set_sort)
  also have "\<dots> = {..<length sys}" by (subst map_snd_zip) auto
  finally have "set ?r = {..<length sys}" .
  with assms have "?r ! position_of i ?r = i" "?r ! position_of j ?r = j"
    by (simp_all only: position_of_nth lessThan_iff)
  then show ?thesis unfolding alpha_rank_def by metis
qed

definition snapshot_key :: "symbol list \<Rightarrow> loaded_event \<Rightarrow> u64 \<times> nat \<times> nat" where
  "snapshot_key sys e = (ld_ts e, alpha_rank sys (ld_symbol_idx e), payload_rank (ld_payload e))"

abbreviation known :: "symbol list \<Rightarrow> loaded_event list \<Rightarrow> bool" where
  "known sys es \<equiv> \<forall>e \<in> set es. ld_symbol_idx e < length sys"

lemma is_delta_rank: "is_delta e \<longleftrightarrow> payload_rank (ld_payload e) = 0"
  by (cases "ld_payload e") auto

lemma same_snapshot_key:
  assumes "is_delta e" "ld_symbol_idx e < length sys" "ld_symbol_idx e' < length sys"
  shows "same_snapshot e e' \<longleftrightarrow> snapshot_key sys e' = snapshot_key sys e"
  using assms by (auto simp: same_snapshot_def snapshot_key_def is_delta_rank alpha_rank_inj simp del: is_delta.simps)

lemma sorted_snapshot_key:
  "sorted (map (event_key sys) es) \<Longrightarrow> sorted (map (snapshot_key sys) es)"
  unfolding sorted_map
  by (erule sorted_wrt_mono_rel [rotated]) (auto simp: event_key_def snapshot_key_def less_eq_prod_def)

text \<open>In the sorted stream the rows of a snapshot are next to each other.\<close>

lemma snapshot_contiguous:
  assumes sorted: "sorted (map (snapshot_key sys) (e # es))" and e: "is_delta e" and k: "known sys (e # es)"
  shows "takeWhile (same_snapshot e) es = filter (same_snapshot e) es"
    and "dropWhile (same_snapshot e) es = filter (\<lambda>e'. \<not> same_snapshot e e') es"
proof -
  let ?P = "\<lambda>e'. snapshot_key sys e' \<le> snapshot_key sys e"
  have same: "same_snapshot e e' \<longleftrightarrow> ?P e'" if "e' \<in> set es" for e'
  proof -
    have "snapshot_key sys e \<le> snapshot_key sys e'" using sorted that by simp
    moreover have "same_snapshot e e' \<longleftrightarrow> snapshot_key sys e' = snapshot_key sys e"
      using e k that by (intro same_snapshot_key) simp_all
    ultimately show ?thesis by auto
  qed
  have tw: "takeWhile ?P es = filter ?P es"
    by (rule sorted_takeWhile_le) (use sorted in simp)
  show t: "takeWhile (same_snapshot e) es = filter (same_snapshot e) es"
    using tw same by (metis (no_types, lifting) filter_cong takeWhile_cong)
  have "takeWhile (same_snapshot e) es @ dropWhile (same_snapshot e) es = es" by simp
  then have "\<forall>e' \<in> set (dropWhile (same_snapshot e) es). \<not> same_snapshot e e'"
    unfolding t by (metis (no_types, lifting) append_self_conv filter_append filter_empty_conv filter_filter
        filter_cong)
  then have "filter (\<lambda>e'. \<not> same_snapshot e e') (dropWhile (same_snapshot e) es) = dropWhile (same_snapshot e) es"
    by simp
  moreover have "filter (\<lambda>e'. \<not> same_snapshot e e') (takeWhile (same_snapshot e) es) = []"
    by (auto simp: filter_empty_conv dest: set_takeWhileD)
  ultimately show "dropWhile (same_snapshot e) es = filter (\<lambda>e'. \<not> same_snapshot e e') es"
    by (metis append_Nil filter_append takeWhile_dropWhile_id)
qed

subsection \<open>Every update is its snapshot\<close>

text \<open>The reference stream: an update per snapshot, from all its rows and no others.\<close>

function snapshot_stream :: "decimal_ops \<Rightarrow> replay_config \<Rightarrow> loaded_event list \<Rightarrow> market_event list" where
  "snapshot_stream D c [] = []"
| "snapshot_stream D c (e # es) =
     (let sy = rp_symbols c ! ld_symbol_idx e
      in case ld_payload e of
           BookDelta sd t q n \<Rightarrow>
             BookUpdate (snapshot_of_rows D (rp_tick_size c) sy (ld_ts e) (e # filter (same_snapshot e) es))
               # snapshot_stream D c (filter (\<lambda>e'. \<not> same_snapshot e e') es)
         | TradePrint p q sd \<Rightarrow>
             Trade sy p q (if sd = 0 then Bid else Ask) (ld_ts e) # snapshot_stream D c es)"
  by pat_completeness auto
termination
  by (relation "measure (\<lambda>(D, c, es). length es)") (auto simp: le_imp_less_Suc)

definition fresh_books :: "tick_book list \<Rightarrow> loaded_event list \<Rightarrow> bool" where
  "fresh_books bs es \<longleftrightarrow> (\<forall>e \<in> set es. ld_symbol_idx e < length bs \<and> (is_delta e \<longrightarrow>
     ld_ts e \<noteq> tb_last_applied_ts (bs ! ld_symbol_idx e)
     \<or> tb_bids (bs ! ld_symbol_idx e) = [] \<and> tb_asks (bs ! ld_symbol_idx e) = []))"

lemma real_events_snapshots:
  "sorted (map (snapshot_key (rp_symbols c)) es) \<Longrightarrow> known (rp_symbols c) es \<Longrightarrow> fresh_books bs es \<Longrightarrow>
   real_events D c bs es = snapshot_stream D c es"
proof (induction D c bs es rule: real_events.induct)
  case (2 D c bs e es)
  note sorted = 2(3) and known = 2(4) and fresh = 2(5)
  show ?case
  proof (cases "ld_payload e")
    case (TradePrint p q sd)
    have "real_events D c bs es = snapshot_stream D c es"
      by (rule 2(2) [OF refl refl TradePrint]) (use sorted known fresh in \<open>auto simp: fresh_books_def\<close>)
    then show ?thesis by (simp add: TradePrint Let_def)
  next
    case (BookDelta sd t q n)
    then have e: "is_delta e" by simp
    note near = snapshot_contiguous [OF sorted e known]
    let ?rows = "takeWhile (same_snapshot e) es" and ?rest = "dropWhile (same_snapshot e) es"
    let ?i = "ld_symbol_idx e"
    let ?b = "foldl (apply_event D (rp_tick_size c)) (bs ! ?i) (e # ?rows)"
    have b: "?b = \<lparr>tb_bids = final_levels D (rp_tick_size c) (side_rows True (e # ?rows)),
        tb_asks = final_levels D (rp_tick_size c) (side_rows False (e # ?rows)), tb_last_applied_ts = ld_ts e\<rparr>"
      by (rule apply_snapshot) (use e fresh in \<open>auto simp: fresh_books_def dest: set_takeWhileD\<close>)
    have "fresh_books (bs[?i := ?b]) ?rest"
      unfolding fresh_books_def
    proof
      fix e' assume e': "e' \<in> set ?rest"
      then have "\<not> same_snapshot e e'" "e' \<in> set es" by (simp_all add: near(2))
      with fresh b show "ld_symbol_idx e' < length (bs[?i := ?b]) \<and> (is_delta e' \<longrightarrow>
          ld_ts e' \<noteq> tb_last_applied_ts (bs[?i := ?b] ! ld_symbol_idx e')
          \<or> tb_bids (bs[?i := ?b] ! ld_symbol_idx e') = [] \<and> tb_asks (bs[?i := ?b] ! ld_symbol_idx e') = [])"
        by (cases "ld_symbol_idx e' = ?i")
          (auto simp: fresh_books_def same_snapshot_def simp del: foldl_Cons is_delta.simps)
    qed
    moreover have "sorted (map (snapshot_key (rp_symbols c)) ?rest)" "known (rp_symbols c) ?rest"
      using sorted known by (auto intro: sorted_key_dropWhile dest: set_dropWhileD)
    ultimately have "real_events D c (bs[?i := ?b]) ?rest = snapshot_stream D c ?rest"
      by (intro 2(1) [OF refl refl BookDelta refl])
    then show ?thesis
      by (simp add: BookDelta Let_def b [unfolded near] near snapshot_of_rows_def book_snapshot_def
        del: foldl_Cons side_rows_simps)
  qed
qed simp

subsection \<open>What is loaded\<close>

lemma those_Some: "those xs = Some ys \<Longrightarrow> xs = map Some ys"
  by (induction xs arbitrary: ys) (auto split: option.splits)

lemma load_one_idx:
  assumes "load_one D tick (rank, t) = Inr es" "e \<in> set es"
  shows "ld_symbol_idx e = lt_symbol_idx t"
proof (cases "lt_is_book t")
  case True
  with assms(1) obtain rows where "map (book_event D tick (lt_symbol_idx t) (of_nat rank)) (enumerate 0 rows) = map Some es"
    by (auto simp: load_one_def load_book_parquet_def dest!: those_Some split: table.splits option.splits)
  with assms(2) obtain ir where "book_event D tick (lt_symbol_idx t) (of_nat rank) ir = Some e"
    by (metis (no_types, lifting) in_set_conv_nth length_map nth_map)
  then show ?thesis by (auto simp: book_event_def split: prod.splits option.splits)
next
  case False
  with assms(1) obtain rows os where
    os: "map (trade_event D (lt_symbol_idx t) (of_nat rank)) (enumerate 0 rows) = map Some os"
      and es: "es = List.map_filter id os"
    by (auto simp: load_one_def load_trades_parquet_def dest!: those_Some split: table.splits option.splits)
  from es assms(2) have "Some e \<in> set os" by (auto simp: map_filter_def)
  with os obtain ir where "trade_event D (lt_symbol_idx t) (of_nat rank) ir = Some (Some e)"
    by (metis (no_types, lifting) in_set_conv_nth length_map nth_map)
  then show ?thesis by (auto simp: trade_event_def split: prod.splits option.splits if_splits)
qed

lemma load_all_idx:
  "load_all D tick ts = Inr es \<Longrightarrow> e \<in> set es \<Longrightarrow> \<exists>t \<in> set ts. ld_symbol_idx e = lt_symbol_idx (snd t)"
proof (induction ts arbitrary: es)
  case (Cons t ts)
  obtain rank u where t: "t = (rank, u)" by (cases t)
  from Cons show ?case
    by (auto simp: t split: sum.splits dest: load_one_idx)
qed simp

lemma load_tasks_idx: "t \<in> set (load_tasks c dir) \<Longrightarrow> lt_symbol_idx t < length (rp_symbols c)"
  by (auto simp: load_tasks_def symbol_tasks_def map_filter_def enumerate_eq_zip set_zip split: if_splits)

lemma replay_load_Inr:
  assumes "replay_load D c dir = Inr d"
  shows "dt_cfg d = c" "sorted (map (event_key (rp_symbols c)) (dt_events d))" "known (rp_symbols c) (dt_events d)"
    "\<exists>es. load_all D (rp_tick_size c) (enumerate 0 (load_tasks c dir)) = Inr es
       \<and> dt_events d = sort_key (event_key (rp_symbols c)) es"
proof -
  from assms obtain es where es: "load_all D (rp_tick_size c) (enumerate 0 (load_tasks c dir)) = Inr es"
    and d: "d = \<lparr>dt_cfg = c, dt_events = sort_key (event_key (rp_symbols c)) es\<rparr>"
    by (auto simp: replay_load_def Let_def split: sum.splits option.splits if_splits)
  then show "dt_cfg d = c" "sorted (map (event_key (rp_symbols c)) (dt_events d))"
    "\<exists>es. load_all D (rp_tick_size c) (enumerate 0 (load_tasks c dir)) = Inr es
       \<and> dt_events d = sort_key (event_key (rp_symbols c)) es" by simp_all
  show "known (rp_symbols c) (dt_events d)"
    using load_all_idx [OF es] load_tasks_idx by (fastforce simp: d enumerate_eq_zip dest: set_zip_rightD)
qed

lemma replay_snapshots:
  assumes "replay_load D c dir = Inr d"
  shows "filter (\<lambda>ev. \<not> is_heartbeat ev) (replay_all D (from_shared d)) = snapshot_stream D c (dt_events d)"
proof -
  note d = replay_load_Inr [OF assms]
  have "fresh_books (rp_books (from_shared d)) (dt_events d)"
    using d(1,3) by (auto simp: fresh_books_def from_shared_def tick_book_new_def)
  then have "real_events D c (rp_books (from_shared d)) (dt_events d) = snapshot_stream D c (dt_events d)"
    using d by (intro real_events_snapshots sorted_snapshot_key) auto
  then show ?thesis using d(1) by (simp add: replay_real_events from_shared_def)
qed

text \<open>
  C11: The replay shows the recorded snapshots and nothing else: without its heartbeats the
  stream has, in order, one update per snapshot and the trades, and the book of an update is
  built from all rows of its time stamp and symbol, the last row of a tick deciding, and from no
  row of another snapshot.
\<close>

theorem replay_books_exact:
  assumes "replay_load D c dir = Inr d"
  shows "filter (\<lambda>ev. \<not> is_heartbeat ev) (replay_all D (from_shared d))
    = snapshot_stream D c (dt_events d)"
  by (rule replay_snapshots [OF assms])

subsection \<open>Pace\<close>

definition paced :: "u64 \<Rightarrow> u64 \<Rightarrow> u64 \<Rightarrow> bool" where
  "paced ms a b \<longleftrightarrow> a \<le> b \<and> (0 < ms \<longrightarrow> unat b - unat a \<le> unat ms * 1000000)"

lemma paced_event:
  assumes "heartbeat_due ms (Some l) next_ts = None" "l \<le> next_ts"
  shows "paced ms l next_ts"
proof -
  have "unat next_ts - unat l \<le> unat ms * 1000000" if "0 < ms"
  proof -
    have "0 < unat (sat_mul ms 1000000)"
      using that by (simp add: unat_sat_mul word_less_nat_alt)
    then have "0 < sat_mul ms 1000000" by (simp add: word_less_nat_alt)
    with assms(1) have "next_ts \<le> sat_add l (sat_mul ms 1000000)"
      by (auto simp: heartbeat_due_def Let_def split: if_splits)
    then show ?thesis
      using unat_u64_bound [of next_ts] by (auto simp: word_le_nat_alt unat_sat_add unat_sat_mul)
  qed
  with assms(2) show ?thesis by (simp add: paced_def)
qed

lemma paced_heartbeat:
  assumes "heartbeat_due ms (Some l) next_ts = Some hb"
  shows "paced ms l hb \<and> hb < next_ts"
proof -
  from assms obtain l' where "Some l = Some l'" "l' < hb" "hb < next_ts" "hb = sat_add l' (sat_mul ms 1000000)"
    by (rule heartbeat_due_bounds)
  then show ?thesis by (auto simp: paced_def unat_sat_add unat_sat_mul)
qed

lemma replay_paced_aux:
  assumes "sorted (map ld_ts (dt_events (rp_data p)))"
    and "\<forall>l. rp_last p = Some l \<longrightarrow> (\<forall>e \<in> set (drop (rp_cursor p) (dt_events (rp_data p))). l \<le> ld_ts e)"
  shows "successively (paced (rp_heartbeat_ms (dt_cfg (rp_data p))))
    ((case rp_last p of Some l \<Rightarrow> [l] | None \<Rightarrow> []) @ map event_ts (replay_all D p))"
  using assms
proof (induction D p rule: replay_all.induct)
  case (1 D p)
  let ?c = "dt_cfg (rp_data p)" and ?es = "dt_events (rp_data p)"
  let ?ms = "rp_heartbeat_ms ?c"
  show ?case
  proof (cases "drop (rp_cursor p) ?es")
    case Nil
    then show ?thesis by (subst replay_all.simps) (simp add: replay_next_def split: option.split)
  next
    case (Cons e rest)
    have rest: "set (drop (k + Suc (rp_cursor p)) ?es) \<subseteq> set rest" for k
      using Cons by (metis add_Suc_right drop_Suc drop_drop list.sel(3) set_drop_subset tl_drop)
    have e_rest: "\<forall>e' \<in> set rest. ld_ts e \<le> ld_ts e'"
      using sorted_wrt_drop [of "(\<le>)" "map ld_ts ?es" "rp_cursor p"] "1.prems"(1) by (simp add: drop_map Cons)
    show ?thesis
    proof (cases "heartbeat_due ?ms (rp_last p) (ld_ts e)")
      case (Some hb)
      then obtain l where l: "rp_last p = Some l" by (rule heartbeat_due_bounds)
      have next_hb: "replay_next D p = Some (Heartbeat hb, p\<lparr>rp_last := Some hb\<rparr>)"
        using Cons Some by (simp add: replay_next_def Let_def)
      have hb: "paced ?ms l hb" "hb < ld_ts e" using paced_heartbeat Some l by auto
      have "successively (paced ?ms) ([hb] @ map event_ts (replay_all D (p\<lparr>rp_last := Some hb\<rparr>)))"
        using "1.IH" [OF next_hb refl] "1.prems"(1) e_rest hb(2) Cons by (auto intro: less_imp_le order.trans)
      with l hb(1) next_hb show ?thesis by (subst replay_all.simps) simp
    next
      case None
      obtain ev p' k where n: "replay_next D p = Some (ev, p')" "event_ts ev = ld_ts e"
          "rp_last p' = Some (ld_ts e)" "rp_cursor p' = k + Suc (rp_cursor p)" "rp_data p' = rp_data p"
        using Cons None
        by (cases "ld_payload e") (auto simp: replay_next_def Let_def coalesce_takeWhile book_snapshot_def)
      have "successively (paced ?ms) ([ld_ts e] @ map event_ts (replay_all D p'))"
        using "1.IH" [OF n(1) refl] "1.prems"(1) e_rest rest [of k] n by auto
      moreover have "paced ?ms l (ld_ts e)" if "rp_last p = Some l" for l
        using paced_event [of ?ms l "ld_ts e"] None "1.prems"(2) Cons that by simp
      ultimately show ?thesis
        using n by (subst replay_all.simps) (auto split: option.split)
    qed
  qed
qed

text \<open>
  C38: The stream is in order of time and never silent: no event is earlier than the one before
  it, and with heartbeats enabled no two consecutive events are further apart than the
  configured interval, whatever the recording's pauses.
\<close>

theorem replay_paced:
  assumes "replay_load D c dir = Inr d"
  shows "successively (paced (rp_heartbeat_ms c)) (map event_ts (replay_all D (from_shared d)))"
proof -
  note d = replay_load_Inr [OF assms]
  have "sorted (map ld_ts (dt_events d))"
    using d(2) unfolding sorted_map by (rule sorted_wrt_mono_rel [rotated]) (auto simp: event_key_def less_eq_prod_def)
  with replay_paced_aux [of "from_shared d" D] d(1) show ?thesis by (simp add: from_shared_def)
qed

subsection \<open>The listing of the directory\<close>

lemma filter_map_filter:
  "(\<And>x y. f x = Some y \<Longrightarrow> P y \<longleftrightarrow> Q x) \<Longrightarrow>
     filter P (List.map_filter f xs) = List.map_filter f (filter Q xs)"
  by (induction xs) (auto simp: List.map_filter_simps split: option.split)

lemma symbol_tasks_path:
  "filter (\<lambda>t. lt_path t = k) (symbol_tasks dir i) = symbol_tasks (filter (\<lambda>(name, t). name = k) dir) i"
  unfolding symbol_tasks_def by (auto intro!: filter_map_filter split: prod.splits if_splits)

lemma filter_name:
  "distinct (map fst dir) \<Longrightarrow> filter (\<lambda>(name, t). name = k) dir
     = (case map_of dir k of None \<Rightarrow> [] | Some t \<Rightarrow> [(k, t)])"
proof (induction dir)
  case (Cons e dir)
  have "map_of dir (fst e) = None" using Cons.prems by (simp add: map_of_eq_None_iff)
  with Cons show ?case by (cases e) auto
qed simp

lemma tasks_path:
  "distinct (map fst dir) \<Longrightarrow> filter (\<lambda>t. lt_path t = k) (concat (map (symbol_tasks dir) is))
     = concat (map (symbol_tasks (case map_of dir k of None \<Rightarrow> [] | Some t \<Rightarrow> [(k, t)])) is)"
  by (simp add: filter_concat symbol_tasks_path filter_name comp_def)

lemma mset_eq_by_key:
  assumes "\<And>k. filter (\<lambda>x. f x = k) xs = filter (\<lambda>x. f x = k) ys"
  shows "mset xs = mset ys"
proof (rule multiset_eqI)
  fix x
  have "count (mset zs) x = count (mset (filter (\<lambda>y. f y = f x) zs)) x" for zs by simp
  then show "count (mset xs) x = count (mset ys) x" using assms by metis
qed

lemma load_tasks_listing:
  assumes "distinct (map fst dir)" "distinct (map fst dir')" "set dir = set dir'"
  shows "load_tasks c dir = load_tasks c dir'"
proof -
  let ?T = "\<lambda>dir. concat (map (symbol_tasks dir) (enumerate 0 (rp_symbols c)))"
  have "map_of dir = map_of dir'" using assms map_of_inject_set by blast
  then have k: "filter (\<lambda>t. lt_path t = k) (?T dir) = filter (\<lambda>t. lt_path t = k) (?T dir')" for k
    by (simp add: tasks_path assms)
  have "sort_key lt_path (?T dir) = sort_key lt_path (?T dir')"
  proof (rule properties_for_sort_key)
    show "mset (sort_key lt_path (?T dir')) = mset (?T dir)"
      using mset_eq_by_key [OF k] by simp
    fix t
    show "filter (\<lambda>u. lt_path t = lt_path u) (sort_key lt_path (?T dir'))
        = filter (\<lambda>u. lt_path t = lt_path u) (?T dir)"
      using k [of "lt_path t"] sort_key_stable [of lt_path "lt_path t" "?T dir'"]
      by (simp add: eq_commute [of "lt_path t"])
  qed simp
  then show ?thesis by (simp add: load_tasks_def)
qed

text \<open>
  A recording loads the same in whatever order the file system lists its files.
\<close>

theorem load_order_irrelevant:
  assumes "distinct (map fst dir)" "distinct (map fst dir')" "set dir = set dir'"
  shows "replay_load D c dir = replay_load D c dir'"
  by (simp add: replay_load_def load_tasks_listing [OF assms])

subsection \<open>Gaps\<close>

definition seqs :: "nat \<Rightarrow> loaded_event list \<Rightarrow> u64 list" where
  "seqs idx es = List.map_filter (\<lambda>e. case ld_payload e of BookDelta sd t q n \<Rightarrow>
     if ld_symbol_idx e = idx then Some n else None | TradePrint p q sd \<Rightarrow> None) es"

abbreviation gapless :: "u64 list \<Rightarrow> bool" where
  "gapless \<equiv> successively (\<lambda>a b. b = a + 1)"

lemma check_seq_None:
  "check_seq base l (filter (\<lambda>e. ld_symbol_idx e = idx) es) = None
   \<longleftrightarrow> gapless ((case l of Some n \<Rightarrow> [n] | None \<Rightarrow> []) @ seqs idx es)"
  by (induction es arbitrary: l)
    (auto simp: seqs_def split: event_payload.splits option.splits)

lemma check_seq_Some:
  "check_seq base l es = Some err \<Longrightarrow> \<exists>ts x y. err = SeqGap base ts x y \<and> x \<noteq> y"
  by (induction es arbitrary: l)
    (auto split: event_payload.splits option.splits if_splits)

lemma check_symbols_None:
  "check_symbols es is = None \<longleftrightarrow> (\<forall>(idx, sy) \<in> set is. gapless (seqs idx es))"
proof (induction es "is" rule: check_symbols.induct)
  case (2 es idx sy sys)
  have "check_seq (sy_base sy) None (filter (\<lambda>e. ld_symbol_idx e = idx) es) = None \<longleftrightarrow> gapless (seqs idx es)"
    by (simp add: check_seq_None)
  with 2 show ?case by (simp split: option.split) (metis option.distinct(1))
qed simp

lemma check_symbols_Some:
  "check_symbols es is = Some err \<Longrightarrow> \<exists>sy \<in> snd ` set is. \<exists>ts x y. err = SeqGap (sy_base sy) ts x y \<and> x \<noteq> y"
  by (induction es "is" rule: check_symbols.induct)
    (fastforce split: option.splits dest: check_seq_Some)+

lemma all_enumerated:
  "(\<forall>(idx, sy) \<in> set (enumerate 0 sys). P idx) \<longleftrightarrow> list_all P [0..<length sys]"
proof -
  have "(\<forall>(idx, sy) \<in> set (enumerate 0 sys). P idx) \<longleftrightarrow> (\<forall>i \<in> fst ` set (enumerate 0 sys). P i)" by auto
  then show ?thesis by (simp only: list_all_iff map_fst_enumerate add_0_left flip: set_map)
qed

lemma load_gapless:
  assumes "load_all D (rp_tick_size c) (enumerate 0 (load_tasks c dir)) = Inr es"
    and "list_all (\<lambda>idx. gapless (seqs idx (sort_key (event_key (rp_symbols c)) es))) [0..<length (rp_symbols c)]"
  shows "replay_load D c dir = Inr \<lparr>dt_cfg = c, dt_events = sort_key (event_key (rp_symbols c)) es\<rparr>"
proof -
  have "check_symbols (sort_key (event_key (rp_symbols c)) es) (enumerate 0 (rp_symbols c)) = None"
    using assms(2) unfolding check_symbols_None all_enumerated .
  with assms(1) show ?thesis by (simp add: replay_load_def Let_def)
qed

text \<open>
  C39: A gap in the sequence numbers is an error exactly when there is one: with gaps not allowed,
  tables that can be read load if and only if every symbol's book rows, in the order of the
  replay, are numbered consecutively; otherwise the error names a configured symbol and two
  numbers that differ, and a table that cannot be read is its own error.
\<close>

theorem load_detects_gaps:
  "case load_all D (rp_tick_size c) (enumerate 0 (load_tasks c dir)) of
     Inl err \<Rightarrow> replay_load D c dir = Inl err
   | Inr es \<Rightarrow>
       (let es = sort_key (event_key (rp_symbols c)) es in
        if rp_allow_seq_gaps c \<or> list_all (\<lambda>idx. gapless (seqs idx es)) [0..<length (rp_symbols c)]
        then replay_load D c dir = Inr \<lparr>dt_cfg = c, dt_events = es\<rparr>
        else \<exists>sy ts x y. replay_load D c dir = Inl (SeqGap (sy_base sy) ts x y) \<and> x \<noteq> y
               \<and> sy \<in> set (rp_symbols c))"
proof -
  show ?thesis
  proof (cases "load_all D (rp_tick_size c) (enumerate 0 (load_tasks c dir))")
    case (Inr es)
    let ?es = "sort_key (event_key (rp_symbols c)) es" and ?is = "enumerate 0 (rp_symbols c)"
    show ?thesis
    proof (cases "check_symbols ?es ?is")
      case None
      then have "list_all (\<lambda>idx. gapless (seqs idx ?es)) [0..<length (rp_symbols c)]"
        unfolding all_enumerated [symmetric] check_symbols_None [symmetric] .
      with Inr load_gapless [OF Inr] show ?thesis by (simp add: Let_def)
    next
      case (Some err)
      then have "\<not> list_all (\<lambda>idx. gapless (seqs idx ?es)) [0..<length (rp_symbols c)]"
        unfolding all_enumerated [symmetric] check_symbols_None [symmetric] by simp
      moreover from check_symbols_Some [OF Some] obtain sy ts x y where
          "sy \<in> snd ` set ?is" "err = SeqGap (sy_base sy) ts x y" "x \<noteq> y" by blast
      moreover have "snd ` set ?is = set (rp_symbols c)"
        by (metis map_snd_enumerate set_map)
      ultimately show ?thesis using Inr Some by (auto simp: replay_load_def Let_def)
    qed
  qed (simp add: replay_load_def)
qed

end
