(* ===== verification/Record_Replay.thy ===== *)
theory Record_Replay
  imports Recorder Replay_Laws
begin

text \<open>
  Recording and replaying compose to the identity: a session of the recorder whose flushes fall
  into different seconds leaves a directory that loads without a gap and replays the recorded
  snapshots and trades (\<open>record_replay_roundtrip\<close>); two flushes within one second lose the rows
  of the first (\<open>flush_same_second_loses\<close>).
\<close>

subsection \<open>What the recorder appends\<close>

definition level_rows :: "(rat \<Rightarrow> rat) \<Rightarrow> timestamp \<Rightarrow> int \<Rightarrow> level list \<Rightarrow> (u64 \<times> int \<times> rat \<times> rat) list" where
  "level_rows f ts side ls = map (\<lambda>l. (ts, side, f (lv_price l), f (lv_size l))) ls"

definition snapshot_rows :: "(rat \<Rightarrow> rat) \<Rightarrow> snapshot \<Rightarrow> (u64 \<times> int \<times> rat \<times> rat) list" where
  "snapshot_rows f sn = level_rows f (sn_ts sn) 0 (sn_bids sn) @ level_rows f (sn_ts sn) 1 (sn_asks sn)"

definition row_content :: "book_row \<Rightarrow> u64 \<times> int \<times> rat \<times> rat" where
  "row_content r = (br_ts r, br_side r, br_price r, br_size r)"

text \<open>Rows numbered on from \<open>n\<close>.\<close>

fun numbered :: "u64 \<Rightarrow> u64 list \<Rightarrow> bool" where
  "numbered n [] \<longleftrightarrow> True"
| "numbered n (x # xs) \<longleftrightarrow> x = n + 1 \<and> numbered x xs"

lemma numbered_append [simp]:
  "numbered n (xs @ ys) \<longleftrightarrow> numbered n xs \<and> numbered (n + of_nat (length xs)) ys"
  by (induction xs arbitrary: n) (simp_all add: add.assoc cong: conj_cong)

lemma numbered_gapless: "numbered n xs \<Longrightarrow> gapless xs"
proof (induction n xs rule: numbered.induct)
  case (2 n x xs)
  then show ?case by (cases xs) simp_all
qed simp

definition books_extend :: "recorder \<Rightarrow> (u64 \<times> int \<times> rat \<times> rat) list \<Rightarrow> recorder \<Rightarrow> bool" where
  "books_extend r cs r' \<longleftrightarrow> (\<exists>rows. rd_book_buf r' = rd_book_buf r @ rows \<and> map row_content rows = cs
     \<and> numbered (rd_seq r) (map br_seq rows)
     \<and> r' = r\<lparr>rd_book_buf := rd_book_buf r @ rows, rd_seq := rd_seq r + of_nat (length rows)\<rparr>)"

lemma books_extend_refl: "books_extend r [] r"
  by (simp add: books_extend_def)

lemma books_extend_trans:
  assumes "books_extend r cs r'" "books_extend r' cs' r''"
  shows "books_extend r (cs @ cs') r''"
proof -
  from assms obtain rows rows' where
    a: "map row_content rows = cs" "numbered (rd_seq r) (map br_seq rows)"
      "r' = r\<lparr>rd_book_buf := rd_book_buf r @ rows, rd_seq := rd_seq r + of_nat (length rows)\<rparr>"
    and b: "map row_content rows' = cs'" "numbered (rd_seq r') (map br_seq rows')"
      "r'' = r'\<lparr>rd_book_buf := rd_book_buf r' @ rows', rd_seq := rd_seq r' + of_nat (length rows')\<rparr>"
    unfolding books_extend_def by auto
  have "numbered (rd_seq r) (map br_seq (rows @ rows'))"
    using a(2,3) b(2) by simp
  moreover have "r'' = r\<lparr>rd_book_buf := rd_book_buf r @ (rows @ rows'),
      rd_seq := rd_seq r + of_nat (length (rows @ rows'))\<rparr>"
    using a(3) b(3) by (simp add: algebra_simps)
  ultimately show ?thesis unfolding books_extend_def using a(1) b(1)
    by (intro exI [of _ "rows @ rows'"]) simp
qed

lemma record_level_extend: "books_extend r (level_rows f ts side [l]) (record_level f ts side r l)"
  by (auto simp: books_extend_def record_level_def Let_def level_rows_def row_content_def)

lemma record_levels_extend: "books_extend r (level_rows f ts side ls) (foldl (record_level f ts side) r ls)"
proof (induction ls rule: rev_induct)
  case (snoc l ls)
  have "level_rows f ts side (ls @ [l]) = level_rows f ts side ls @ level_rows f ts side [l]"
    by (simp add: level_rows_def)
  with books_extend_trans [OF snoc record_level_extend [of _ f ts side l]] show ?case by simp
qed (simp add: level_rows_def books_extend_refl)

lemma record_book_extend: "books_extend r (snapshot_rows f sn) (record_book f sn r)"
  unfolding record_book_def snapshot_rows_def
  by (rule books_extend_trans [OF record_levels_extend record_levels_extend])

subsection \<open>The directory as a list of flushes\<close>

record flushed =
  fl_stamp :: string
  fl_books :: "book_row list"
  fl_trades :: "trade_row list"
  fl_marks :: "mark_row list"

definition flush_files :: "string \<Rightarrow> flushed \<Rightarrow> directory" where
  "flush_files base x =
     (if fl_books x = [] then [] else [(shard_name ''book'' base (fl_stamp x), BookTable (fl_books x))])
     @ (if fl_trades x = [] then [] else [(shard_name ''trades'' base (fl_stamp x), TradeTable (fl_trades x))])
     @ (if fl_marks x = [] then [] else [(shard_name ''mark'' base (fl_stamp x), MarkTable (fl_marks x))])"

definition flush_dir :: "string \<Rightarrow> flushed list \<Rightarrow> directory" where
  "flush_dir base xs = concat (map (flush_files base) xs)"

lemma shard_name_inj [simp]:
  "shard_name k base s = shard_name k base s' \<longleftrightarrow> s = s'"
  "shard_name ''book'' base s \<noteq> shard_name ''trades'' base s'"
  "shard_name ''book'' base s \<noteq> shard_name ''mark'' base s'"
  "shard_name ''trades'' base s \<noteq> shard_name ''book'' base s'"
  "shard_name ''trades'' base s \<noteq> shard_name ''mark'' base s'"
  "shard_name ''mark'' base s \<noteq> shard_name ''book'' base s'"
  "shard_name ''mark'' base s \<noteq> shard_name ''trades'' base s'"
  by (simp_all add: shard_name_def)

lemma update_fresh: "k \<notin> fst ` set d \<Longrightarrow> AList.update k v d = d @ [(k, v)]"
  by (induction d) auto

lemma flush_dir_names:
  "n \<in> fst ` set (flush_dir base xs) \<Longrightarrow> \<exists>x \<in> set xs. \<exists>k \<in> {''book'', ''trades'', ''mark''}.
     n = shard_name k base (fl_stamp x)"
  by (auto simp: flush_dir_def flush_files_def split: if_splits)

lemma flush_dir_fresh:
  assumes "s \<notin> fl_stamp ` set xs" "k \<in> {''book'', ''trades'', ''mark''}"
  shows "shard_name k base s \<notin> fst ` set (flush_dir base xs)"
proof
  assume "shard_name k base s \<in> fst ` set (flush_dir base xs)"
  then obtain x k' where "x \<in> set xs" "k' \<in> {''book'', ''trades'', ''mark''}"
      "shard_name k base s = shard_name k' base (fl_stamp x)"
    using flush_dir_names by blast
  with assms show False by auto
qed

definition buffered :: "recorder \<Rightarrow> bool" where
  "buffered r \<longleftrightarrow> rd_book_buf r \<noteq> [] \<or> rd_trade_buf r \<noteq> [] \<or> rd_mark_buf r \<noteq> []"

text \<open>A flush whose writes succeed, at a stamp not used before.\<close>

lemma flush_writes:
  assumes W: "\<forall>n. ck_writes k n = Written" and fresh: "ck_stamp k \<notin> fl_stamp ` set xs"
    and b: "buffered r"
  obtains r' where "flush k r (flush_dir (rd_symbol r) xs) = (True, r', flush_dir (rd_symbol r)
      (xs @ [\<lparr>fl_stamp = ck_stamp k, fl_books = rd_book_buf r, fl_trades = rd_trade_buf r,
        fl_marks = rd_mark_buf r\<rparr>]))"
    "rd_symbol r' = rd_symbol r" "rd_seq r' = rd_seq r" "\<not> buffered r'"
    "rd_flush_count r' = rd_flush_count r + 1"
proof -
  let ?d = "flush_dir (rd_symbol r) xs"
  note nb = flush_dir_fresh [OF fresh, of "''book''" "rd_symbol r"]
    and nt = flush_dir_fresh [OF fresh, of "''trades''" "rd_symbol r"]
    and nm = flush_dir_fresh [OF fresh, of "''mark''" "rd_symbol r"]
  have "\<exists>r'. flush k r ?d = (True, r', flush_dir (rd_symbol r)
      (xs @ [\<lparr>fl_stamp = ck_stamp k, fl_books = rd_book_buf r, fl_trades = rd_trade_buf r,
        fl_marks = rd_mark_buf r\<rparr>])) \<and> rd_symbol r' = rd_symbol r \<and> rd_seq r' = rd_seq r
      \<and> \<not> buffered r' \<and> rd_flush_count r' = rd_flush_count r + 1"
    using b nb nt nm
    by (auto simp: flush_def flush_books_def flush_trades_def flush_marks_def write_file_def W buffered_def
        update_fresh flush_dir_def flush_files_def image_Un)
  with that show thesis by blast
qed

subsection \<open>A session\<close>

fun breaks :: "record_item \<Rightarrow> bool" where
  "breaks (DepthItem None) \<longleftrightarrow> True"
| "breaks (TradeItem None) \<longleftrightarrow> True"
| "breaks ShutdownItem \<longleftrightarrow> True"
| "breaks _ \<longleftrightarrow> False"

definition read_items ::
    "u64 \<Rightarrow> u64 option \<Rightarrow> (record_clock \<times> record_item) list \<Rightarrow> (record_clock \<times> record_item) list" where
  "read_items started cap is = takeWhile (\<lambda>(k, i). \<not> cap_reached started cap k \<and> \<not> breaks i) is"

fun item_books :: "record_item \<Rightarrow> snapshot list" where
  "item_books (DepthItem (Some (BookUpdate sn))) = [sn]"
| "item_books _ = []"

fun item_trades :: "record_item \<Rightarrow> (timestamp \<times> price \<times> qsize \<times> side) list" where
  "item_trades (TradeItem (Some (Trade sy p q sd ts))) = [(ts, p, q, sd)]"
| "item_trades _ = []"

fun item_marks :: "record_item \<Rightarrow> mark_update list" where
  "item_marks (MarkItem (Some u)) = [u]"
| "item_marks _ = []"

definition trade_content :: "trade_row \<Rightarrow> u64 \<times> rat \<times> rat \<times> int" where
  "trade_content r = (tw_ts r, tw_price r, tw_size r, tw_taker r)"

definition trade_cells :: "(rat \<Rightarrow> rat) \<Rightarrow> timestamp \<times> price \<times> qsize \<times> side \<Rightarrow> u64 \<times> rat \<times> rat \<times> int" where
  "trade_cells f t = (case t of (ts, p, q, sd) \<Rightarrow> (ts, f p, f q, if sd = Bid then 0 else 1))"

definition mark_cells :: "(rat \<Rightarrow> rat) \<Rightarrow> mark_update \<Rightarrow> mark_row" where
  "mark_cells f u = \<lparr>mw_ts = mu_ts u, mw_price = f (mu_mark_price u), mw_funding = f (mu_funding_rate u),
     mw_next_funding_ts = mu_next_funding_ts u\<rparr>"

definition book_rows :: "flushed list \<Rightarrow> recorder \<Rightarrow> book_row list" where
  "book_rows xs r = concat (map fl_books xs) @ rd_book_buf r"

definition trade_rows :: "flushed list \<Rightarrow> recorder \<Rightarrow> trade_row list" where
  "trade_rows xs r = concat (map fl_trades xs) @ rd_trade_buf r"

definition mark_rows :: "flushed list \<Rightarrow> recorder \<Rightarrow> mark_row list" where
  "mark_rows xs r = concat (map fl_marks xs) @ rd_mark_buf r"

text \<open>What the files and the buffers hold together is what was recorded.\<close>

definition session_ok ::
    "(rat \<Rightarrow> rat) \<Rightarrow> string \<Rightarrow> record_item list \<Rightarrow> flushed list \<Rightarrow> recorder \<Rightarrow> bool" where
  "session_ok f base is xs r \<longleftrightarrow> rd_symbol r = base
     \<and> numbered 0 (map br_seq (book_rows xs r)) \<and> rd_seq r = of_nat (length (book_rows xs r))
     \<and> map row_content (book_rows xs r) = concat (map (snapshot_rows f) (concat (map item_books is)))
     \<and> map trade_content (trade_rows xs r) = map (trade_cells f) (concat (map item_trades is))
     \<and> mark_rows xs r = map (mark_cells f) (concat (map item_marks is))"

lemma session_new: "session_ok f base [] [] (recorder_new base now)"
  by (simp add: session_ok_def recorder_new_def book_rows_def trade_rows_def mark_rows_def)

lemma rows_frame [simp]:
  "book_rows xs (r\<lparr>rd_trade_buf := t\<rparr>) = book_rows xs r" "book_rows xs (r\<lparr>rd_trade_id := i\<rparr>) = book_rows xs r"
  "book_rows xs (r\<lparr>rd_mark_buf := m\<rparr>) = book_rows xs r"
  "trade_rows xs (r\<lparr>rd_mark_buf := m\<rparr>) = trade_rows xs r" "trade_rows xs (r\<lparr>rd_book_buf := b\<rparr>) = trade_rows xs r"
  "trade_rows xs (r\<lparr>rd_seq := n\<rparr>) = trade_rows xs r"
  "mark_rows xs (r\<lparr>rd_trade_buf := t\<rparr>) = mark_rows xs r" "mark_rows xs (r\<lparr>rd_book_buf := b\<rparr>) = mark_rows xs r"
  "mark_rows xs (r\<lparr>rd_seq := n\<rparr>) = mark_rows xs r" "mark_rows xs (r\<lparr>rd_trade_id := i\<rparr>) = mark_rows xs r"
  by (simp_all add: book_rows_def trade_rows_def mark_rows_def)

lemma session_book:
  assumes "session_ok f base is xs r"
  shows "session_ok f base (is @ [DepthItem (Some (BookUpdate sn))]) xs (record_book f sn r)"
proof -
  obtain rows where rows: "map row_content rows = snapshot_rows f sn" "numbered (rd_seq r) (map br_seq rows)"
      and r': "record_book f sn r = r\<lparr>rd_book_buf := rd_book_buf r @ rows, rd_seq := rd_seq r + of_nat (length rows)\<rparr>"
    using record_book_extend [of r f sn] unfolding books_extend_def by blast
  have "book_rows xs (record_book f sn r) = book_rows xs r @ rows" by (simp add: r' book_rows_def)
  moreover have "trade_rows xs (record_book f sn r) = trade_rows xs r" "mark_rows xs (record_book f sn r) = mark_rows xs r"
    by (simp_all add: r')
  ultimately show ?thesis using assms rows by (simp add: session_ok_def r')
qed

lemma session_trade:
  assumes "session_ok f base is xs r"
  shows "session_ok f base (is @ [TradeItem (Some (Trade sy p q sd ts))]) xs (record_trade f ts p q sd r)"
proof -
  obtain n where r': "record_trade f ts p q sd r = r\<lparr>rd_trade_id := n, rd_trade_buf := rd_trade_buf r
      @ [\<lparr>tw_ts = ts, tw_price = f p, tw_size = f q, tw_taker = (if sd = Bid then 0 else 1), tw_trade_id = n\<rparr>]\<rparr>"
    by (simp add: record_trade_def Let_def)
  show ?thesis using assms by (simp add: r' session_ok_def trade_rows_def trade_content_def trade_cells_def)
qed

lemma session_mark:
  assumes "session_ok f base is xs r"
  shows "session_ok f base (is @ [MarkItem (Some u)]) xs (record_mark f u r)"
  using assms by (simp add: record_mark_def session_ok_def mark_rows_def mark_cells_def)

lemma session_skip:
  "session_ok f base is xs r \<Longrightarrow> item_books i = [] \<Longrightarrow> item_trades i = [] \<Longrightarrow> item_marks i = [] \<Longrightarrow>
   session_ok f base (is @ [i]) xs r"
  by (simp add: session_ok_def)

text \<open>An arm that does not flush.\<close>

lemma session_arm:
  assumes ok: "session_ok f base is xs r" and i: "\<not> breaks i" "i \<noteq> ProgressTick"
  obtains r' where "record_arm f k i (r, d) = Some (r', d)" "session_ok f base (is @ [i]) xs r'"
    "rd_flush_count r' = rd_flush_count r"
proof -
  have count: "rd_flush_count (record_book f sn r) = rd_flush_count r" for sn
    using record_book_extend [of r f sn] by (auto simp: books_extend_def)
  have tcount: "rd_flush_count (record_trade f ts p q sd r) = rd_flush_count r" for ts p q sd
    by (simp add: record_trade_def Let_def)
  have mcount: "rd_flush_count (record_mark f u r) = rd_flush_count r" for u
    by (simp add: record_mark_def)
  have "\<exists>r'. record_arm f k i (r, d) = Some (r', d) \<and> session_ok f base (is @ [i]) xs r'
      \<and> rd_flush_count r' = rd_flush_count r"
  proof (cases i)
    case (DepthItem e)
    with i obtain ev where e: "e = Some ev" by (cases e) auto
    show ?thesis
      by (cases ev) (use ok in \<open>simp_all add: DepthItem e session_book session_skip count\<close>)
  next
    case (TradeItem e)
    with i obtain ev where e: "e = Some ev" by (cases e) auto
    show ?thesis
      by (cases ev)
        (use ok in \<open>simp_all add: TradeItem e session_trade session_skip tcount\<close>)
  next
    case (MarkItem e)
    show ?thesis
      by (cases e) (use ok in \<open>simp_all add: MarkItem session_mark session_skip mcount\<close>)
  qed (use i ok in auto)
  with that show thesis by blast
qed

text \<open>A flush moves the buffers into files, and only that.\<close>

definition all_written :: "record_clock \<Rightarrow> bool" where
  "all_written k \<longleftrightarrow> (\<forall>n. ck_writes k n = Written)"

lemma flush_idle: "\<not> buffered r \<Longrightarrow> flush k r d = (True, r, d)"
  by (simp add: flush_def buffered_def)

lemma flush_count:
  assumes "all_written k" "buffered r"
  shows "rd_flush_count (fst (snd (flush k r d))) = rd_flush_count r + 1 \<and> \<not> buffered (fst (snd (flush k r d)))"
  using assms
  by (auto simp: all_written_def buffered_def flush_def flush_books_def flush_trades_def flush_marks_def
      write_file_def)

lemma session_flush:
  assumes ok: "session_ok f base is xs r" and W: "all_written k"
    and fresh: "buffered r \<Longrightarrow> ck_stamp k \<notin> fl_stamp ` set xs"
  obtains xs' r' where "flush k r (flush_dir base xs) = (True, r', flush_dir base xs')"
    "session_ok f base is xs' r'" "\<not> buffered r'"
    "map fl_stamp xs' = map fl_stamp xs @ (if buffered r then [ck_stamp k] else [])"
proof (cases "buffered r")
  case False
  with flush_idle [OF False, of k "flush_dir base xs"] ok that [of r xs] show ?thesis by simp
next
  case True
  have base: "rd_symbol r = base" using ok by (simp add: session_ok_def)
  let ?x = "\<lparr>fl_stamp = ck_stamp k, fl_books = rd_book_buf r, fl_trades = rd_trade_buf r, fl_marks = rd_mark_buf r\<rparr>"
  from W have W': "\<forall>n. ck_writes k n = Written" by (simp add: all_written_def)
  obtain r' where r': "flush k r (flush_dir base xs) = (True, r', flush_dir base (xs @ [?x]))"
      "rd_symbol r' = rd_symbol r" "rd_seq r' = rd_seq r" "\<not> buffered r'"
    using flush_writes [OF W' fresh [OF True] True] unfolding base by metis
  have "book_rows (xs @ [?x]) r' = book_rows xs r" "trade_rows (xs @ [?x]) r' = trade_rows xs r"
    "mark_rows (xs @ [?x]) r' = mark_rows xs r"
    using r'(4) by (simp_all add: book_rows_def trade_rows_def mark_rows_def buffered_def)
  then have "session_ok f base is (xs @ [?x]) r'" using ok r' by (simp add: session_ok_def)
  with r' True that [of r' "xs @ [?x]"] show ?thesis by simp
qed

lemma row_count_idle: "\<not> buffered r \<Longrightarrow> row_count r = 0"
  by (simp add: row_count_def buffered_def)

text \<open>An iteration: the arm, then at most one flush that writes.\<close>

lemma session_step:
  assumes ok: "session_ok f base is xs r" and i: "\<not> breaks i" and W: "all_written k"
    and step: "record_step f k i (r, flush_dir base xs) = Some s'"
    and fresh: "rd_flush_count (fst s') \<noteq> rd_flush_count r \<Longrightarrow> ck_stamp k \<notin> fl_stamp ` set xs"
  obtains xs' where "snd s' = flush_dir base xs'" "session_ok f base (is @ [i]) xs' (fst s')"
    "map fl_stamp xs' = map fl_stamp xs @ (if rd_flush_count (fst s') \<noteq> rd_flush_count r then [ck_stamp k] else [])"
proof -
  let ?d = "flush_dir base xs"
  obtain r1 where r1: "session_ok f base (is @ [i]) xs r1" "rd_flush_count r1 = rd_flush_count r"
      and s': "s' = (r1, ?d) \<or> s' = snd (flush k r1 ?d)"
  proof (cases "i = ProgressTick")
    case True
    have ok': "session_ok f base (is @ [i]) xs r" using ok True by (simp add: session_skip)
    have "snd (flush k (fst (snd (flush k r ?d))) (snd (snd (flush k r ?d)))) = snd (flush k r ?d)"
      by (cases "buffered r") (simp_all add: flush_idle flush_count [OF W])
    then have "s' = (r, ?d) \<or> s' = snd (flush k r ?d)"
      using step True by (auto simp: record_step_def flush_if_stale_def split: if_splits prod.splits)
    with ok' that show ?thesis by blast
  next
    case False
    from session_arm [OF ok i False, of k ?d] obtain r' where
      "record_arm f k i (r, ?d) = Some (r', ?d)" "session_ok f base (is @ [i]) xs r'"
      "rd_flush_count r' = rd_flush_count r" .
    with step that show ?thesis by (auto simp: record_step_def split: if_splits)
  qed
  show thesis
  proof (cases "s' = (r1, ?d)")
    case True
    with r1 that [of xs] show ?thesis by simp
  next
    case False
    with s' have s': "s' = snd (flush k r1 ?d)" by simp
    then have b: "buffered r1" using False flush_idle by (metis snd_conv)
    have count: "rd_flush_count (fst s') \<noteq> rd_flush_count r"
      using flush_count [OF W b, of ?d] s' r1(2) by simp
    show ?thesis
      by (rule session_flush [OF r1(1) W fresh [OF count]]) (use s' count b that in auto)
  qed
qed

text \<open>The stamps of the flushes of a loop, in order.\<close>

fun flush_stamps ::
    "(rat \<Rightarrow> rat) \<Rightarrow> (record_clock \<times> record_item) list \<Rightarrow> recorder \<times> directory \<Rightarrow> string list" where
  "flush_stamps f [] s = []"
| "flush_stamps f ((k, i) # is) s = (case record_step f k i s of None \<Rightarrow> []
     | Some s' \<Rightarrow> (if rd_flush_count (fst s') \<noteq> rd_flush_count (fst s) then [ck_stamp k] else [])
         @ flush_stamps f is s')"

lemma flush_stamps_length: "length (flush_stamps f is s) \<le> length is"
  by (induction f "is" s rule: flush_stamps.induct) (auto split: option.split)

lemma record_loop_read:
  "record_loop f started cap is s = record_loop f started None (read_items started cap is) s"
proof (induction "is" arbitrary: s)
  case (Cons ki "is")
  obtain k i where ki: "ki = (k, i)" by (cases ki)
  have "record_step f k i s = None" if "breaks i"
    using that by (cases s; cases i rule: breaks.cases) (auto simp: record_step_def)
  with Cons show ?case
    by (auto simp: ki read_items_def cap_reached_def [of _ None] split: option.split)
qed (simp add: read_items_def)

lemma session_loop:
  assumes "session_ok f base is xs r" "\<forall>(k, i) \<in> set js. all_written k \<and> \<not> breaks i"
    and "distinct (map fl_stamp xs @ flush_stamps f js (r, flush_dir base xs))"
  shows "\<exists>xs' r'. record_loop f started None js (r, flush_dir base xs) = (r', flush_dir base xs')
    \<and> session_ok f base (is @ map snd js) xs' r'
    \<and> map fl_stamp xs' = map fl_stamp xs @ flush_stamps f js (r, flush_dir base xs)"
  using assms
proof (induction js arbitrary: "is" xs r)
  case (Cons ki js)
  obtain k i where ki: "ki = (k, i)" by (cases ki)
  let ?d = "flush_dir base xs"
  have i: "\<not> breaks i" and W: "all_written k" using Cons.prems(2) by (simp_all add: ki)
  show ?case
  proof (cases "record_step f k i (r, ?d)")
    case None
    have "record_arm f k i (r, ?d) \<noteq> None"
      using i by (cases "(f, k, i, (r, ?d))" rule: record_arm.cases) (auto split: market_event.split)
    with None show ?thesis by (auto simp: record_step_def split: option.splits)
  next
    case (Some s')
    have fresh: "ck_stamp k \<notin> fl_stamp ` set xs" if "rd_flush_count (fst s') \<noteq> rd_flush_count r"
      using Cons.prems(3) that by (auto simp: ki Some)
    obtain xs1 where xs1: "snd s' = flush_dir base xs1" "session_ok f base (is @ [i]) xs1 (fst s')"
        "map fl_stamp xs1 = map fl_stamp xs @ (if rd_flush_count (fst s') \<noteq> rd_flush_count r then [ck_stamp k] else [])"
      using session_step [OF Cons.prems(1) i W Some fresh] .
    have s': "s' = (fst s', flush_dir base xs1)" using xs1(1) by (simp add: prod_eq_iff)
    have stamps: "map fl_stamp xs @ flush_stamps f (ki # js) (r, ?d)
        = map fl_stamp xs1 @ flush_stamps f js (fst s', flush_dir base xs1)"
      using xs1(3) Some s' by (simp add: ki)
    have "record_loop f started None (ki # js) (r, ?d) = record_loop f started None js (fst s', flush_dir base xs1)"
      using Some s' by (simp add: ki cap_reached_def)
    moreover have "distinct (map fl_stamp xs1 @ flush_stamps f js (fst s', flush_dir base xs1))"
      using Cons.prems(3) unfolding stamps .
    ultimately show ?thesis
      using Cons.IH [OF xs1(2), of] Cons.prems(2) unfolding stamps by (simp add: ki)
  qed
qed auto

end
