(* ===== verification/Roundtrip.thy ===== *)
theory Roundtrip
  imports Record_Replay
begin

text \<open>
  The other half of the round trip: the directory of a session, as a list of flushes, loads into
  the recorded snapshots and trades in their order.
\<close>

subsection \<open>File names\<close>

lemma append_le_prefix [simp]: "(p :: char list) @ a \<le> p @ b \<longleftrightarrow> a \<le> b"
  by (induction p) simp_all

lemma append_le_same_length:
  "length s = length s' \<Longrightarrow> (s :: char list) < s' \<Longrightarrow> s @ t \<le> s' @ t"
  by (induction s s' rule: list_induct2) auto

lemma shard_name_le:
  "length s = length s' \<Longrightarrow> s < s' \<Longrightarrow> shard_name k base s \<le> shard_name k base s'"
  by (simp add: shard_name_def append_le_same_length)

lemma book_before_trades: "shard_name ''book'' base s \<le> shard_name ''trades'' base s'"
proof -
  have "CHR ''b'' < CHR ''t''" by (simp add: less_char_def)
  then show ?thesis by (simp add: shard_name_def)
qed

lemma shard_name_suffix [simp]: "ends_with ''.parquet'' (shard_name k base s)"
  unfolding shard_name_def using ends_with_append [of "''.parquet''" "k @ ''_'' @ base @ ''_'' @ s"] by simp

lemma shard_name_prefix [simp]:
  "starts_with (shard_prefix ''book'' base) (shard_name ''book'' base s)"
  "\<not> starts_with (shard_prefix ''book'' base) (shard_name ''trades'' base s)"
  "starts_with (shard_prefix ''trades'' base) (shard_name ''trades'' base s)"
  "\<not> starts_with (shard_prefix ''book'' base) (shard_name ''mark'' base s)"
  "\<not> starts_with (shard_prefix ''trades'' base) (shard_name ''mark'' base s)"
  by (simp_all add: starts_with_def shard_name_def shard_prefix_def)

subsection \<open>The files in the order of the loader\<close>

definition book_task :: "string \<Rightarrow> flushed \<Rightarrow> load_task" where
  "book_task base x = \<lparr>lt_path = shard_name ''book'' base (fl_stamp x), lt_table = BookTable (fl_books x),
     lt_is_book = True, lt_symbol_idx = 0\<rparr>"

definition trade_task :: "string \<Rightarrow> flushed \<Rightarrow> load_task" where
  "trade_task base x = \<lparr>lt_path = shard_name ''trades'' base (fl_stamp x), lt_table = TradeTable (fl_trades x),
     lt_is_book = False, lt_symbol_idx = 0\<rparr>"

lemma task_path [simp]:
  "lt_path (book_task base x) = shard_name ''book'' base (fl_stamp x)"
  "lt_path (trade_task base x) = shard_name ''trades'' base (fl_stamp x)"
  by (simp_all add: book_task_def trade_task_def)

abbreviation with_books :: "flushed list \<Rightarrow> flushed list" where
  "with_books \<equiv> filter (\<lambda>x. fl_books x \<noteq> [])"

abbreviation with_trades :: "flushed list \<Rightarrow> flushed list" where
  "with_trades \<equiv> filter (\<lambda>x. fl_trades x \<noteq> [])"

lemma symbol_tasks_append [simp]:
  "symbol_tasks (d @ d') i = symbol_tasks d i @ symbol_tasks d' i" "symbol_tasks [] i = []"
  by (cases i, simp add: symbol_tasks_def map_filter_def)+

lemma symbol_tasks_files:
  "symbol_tasks (flush_files (sy_base sy) x) (0, sy) =
     (if fl_books x = [] then [] else [book_task (sy_base sy) x])
     @ (if fl_trades x = [] then [] else [trade_task (sy_base sy) x])"
  by (auto simp: flush_files_def symbol_tasks_def List.map_filter_simps book_task_def trade_task_def)

lemma mset_symbol_tasks:
  "mset (symbol_tasks (flush_dir (sy_base sy) xs) (0, sy)) =
     mset (map (book_task (sy_base sy)) (with_books xs) @ map (trade_task (sy_base sy)) (with_trades xs))"
  by (induction xs) (simp_all add: flush_dir_def symbol_tasks_files)

lemma load_tasks_session:
  assumes c: "rp_symbols c = [sy]" and s: "sorted_wrt (<) (map fl_stamp xs)"
    and n: "\<forall>x \<in> set xs. length (fl_stamp x) = n"
  shows "load_tasks c (flush_dir (sy_base sy) xs) =
    map (book_task (sy_base sy)) (with_books xs) @ map (trade_task (sy_base sy)) (with_trades xs)"
proof -
  let ?b = "book_task (sy_base sy)" and ?t = "trade_task (sy_base sy)"
  let ?ys = "map ?b (with_books xs) @ map ?t (with_trades xs)"
  have inj: "inj_on fl_stamp (set xs)" using s by (simp add: strict_sorted_iff distinct_map)
  have sorted: "sorted (map lt_path (map ?b (filter P xs)))" "sorted (map lt_path (map ?t (filter P xs)))" for P
  proof -
    have "sorted_wrt (\<lambda>x y. fl_stamp x < fl_stamp y) (filter P xs)"
      using s by (simp add: sorted_wrt_map sorted_wrt_filter)
    then show "sorted (map lt_path (map ?b (filter P xs)))" "sorted (map lt_path (map ?t (filter P xs)))"
      unfolding sorted_map
      by (auto elim!: sorted_wrt_mono_rel [rotated] simp: sorted_wrt_map book_task_def trade_task_def n
          intro!: shard_name_le)
  qed
  have "sort_key lt_path (symbol_tasks (flush_dir (sy_base sy) xs) (0, sy)) = ?ys"
  proof (rule sort_key_inj_key_eq)
    show m: "mset (symbol_tasks (flush_dir (sy_base sy) xs) (0, sy)) = mset ?ys"
      by (rule mset_symbol_tasks)
    show "inj_on lt_path (set (symbol_tasks (flush_dir (sy_base sy) xs) (0, sy)))"
      unfolding mset_eq_setD [OF m]
      by (auto intro!: inj_onI dest: inj_onD [OF inj])
    show "sorted (map lt_path ?ys)"
      unfolding map_append sorted_append
      using sorted(1) [of "\<lambda>x. fl_books x \<noteq> []"] sorted(2) [of "\<lambda>x. fl_trades x \<noteq> []"]
      by (auto simp: book_task_def trade_task_def book_before_trades)
  qed
  then show ?thesis by (simp add: load_tasks_def c)
qed

subsection \<open>Source positions\<close>

lemma unat_row_src:
  assumes "r < 2 ^ 32" "i < 2 ^ 32"
  shows "unat (row_src (of_nat r) i) = r * 2 ^ 32 + i"
proof -
  have i: "unat (of_nat i :: u64) = i" using assms(2) by (simp add: unat_of_nat)
  have "bit (push_bit 32 (ucast (of_nat r :: u32)) :: u64) n \<Longrightarrow> \<not> bit (of_nat i :: u64) n" for n
  proof
    assume "bit (push_bit 32 (ucast (of_nat r :: u32)) :: u64) n" "bit (of_nat i :: u64) n"
    then have n: "32 \<le> n" "bit i n" by (auto simp: bit_push_bit_iff bit_of_nat_iff)
    have "i < 2 ^ n" using assms(2) n(1) by (meson le_less_trans less_le_trans numeral_le_iff
        power_increasing one_le_numeral)
    with n(2) show False by (simp add: bit_iff_odd)
  qed
  then have "row_src (of_nat r) i = push_bit 32 (ucast (of_nat r :: u32)) + of_nat i"
    unfolding row_src_def by (simp add: disjunctive_add)
  moreover have "unat (push_bit 32 (ucast (of_nat r :: u32)) :: u64) = r * 2 ^ 32"
    using assms(1) by (simp add: push_bit_eq_mult unat_word_ariths unsigned_ucast_eq unat_of_nat take_bit_eq_mod)
  ultimately show ?thesis
    using assms i by (simp add: unat_word_ariths)
qed

text \<open>The events of consecutive files, and that their source positions increase.\<close>

definition file_events :: "(nat \<Rightarrow> nat \<times> 'r \<Rightarrow> loaded_event) \<Rightarrow> nat \<Rightarrow> 'r list list \<Rightarrow> loaded_event list" where
  "file_events mk k files = concat (map (\<lambda>(rank, rows). map (mk rank) (enumerate 0 rows)) (enumerate k files))"

lemma file_events_simps [simp]:
  "file_events mk k [] = []"
  "file_events mk k (rows # files) = map (mk k) (enumerate 0 rows) @ file_events mk (Suc k) files"
  by (simp_all add: file_events_def)

lemma file_events_rows:
  assumes "\<And>rank i r. g (mk rank (i, r)) = h r"
  shows "map g (file_events mk k files) = map h (concat files)"
proof (induction files arbitrary: k)
  case (Cons rows files)
  have "map (\<lambda>(i, r). h r) (enumerate n rows) = map h rows" for n
    by (induction rows arbitrary: n) simp_all
  moreover have "map g (map (mk k) (enumerate 0 rows)) = map (\<lambda>(i, r). h r) (enumerate 0 rows)"
    using assms by (simp add: case_prod_unfold) (metis prod.collapse)
  ultimately show ?case using Cons by (simp del: map_map)
qed simp

lemma file_events_src:
  assumes src: "\<And>rank i r. ld_src (mk rank (i, r)) = row_src (of_nat rank) i"
    and small: "\<forall>rows \<in> set files. length rows < 2 ^ 32" "k + length files \<le> 2 ^ 32"
  shows "sorted (map (\<lambda>e. unat (ld_src e)) (file_events mk k files))
    \<and> (\<forall>e \<in> set (file_events mk k files). k * 2 ^ 32 \<le> unat (ld_src e))"
  using small
proof (induction files arbitrary: k)
  case (Cons rows files)
  have pos: "unat (ld_src (mk k (i, r))) = k * 2 ^ 32 + i" if "i < length rows" for i r
    unfolding src using Cons.prems that by (intro unat_row_src) auto
  have here: "map (\<lambda>e. unat (ld_src e)) (map (mk k) (enumerate 0 rows)) = map (\<lambda>i. k * 2 ^ 32 + i) [0..<length rows]"
    by (rule nth_equalityI) (simp_all add: nth_enumerate_eq pos)
  have "sorted (map (\<lambda>i. k * 2 ^ 32 + i) [0..<length rows])"
    by (simp add: sorted_map)
  moreover have "\<forall>e \<in> set (map (mk k) (enumerate 0 rows)). k * 2 ^ 32 \<le> unat (ld_src e) \<and> unat (ld_src e) < Suc k * 2 ^ 32"
  proof
    fix e assume "e \<in> set (map (mk k) (enumerate 0 rows))"
    then have "unat (ld_src e) \<in> set (map (\<lambda>e. unat (ld_src e)) (map (mk k) (enumerate 0 rows)))" by auto
    then have "unat (ld_src e) \<in> (\<lambda>i. k * 2 ^ 32 + i) ` {0..<length rows}" unfolding here by simp
    with Cons.prems(1) show "k * 2 ^ 32 \<le> unat (ld_src e) \<and> unat (ld_src e) < Suc k * 2 ^ 32" by auto
  qed
  moreover have "sorted (map (\<lambda>e. unat (ld_src e)) (file_events mk (Suc k) files))
      \<and> (\<forall>e \<in> set (file_events mk (Suc k) files). Suc k * 2 ^ 32 \<le> unat (ld_src e))"
    using Cons.prems by (intro Cons.IH) auto
  ultimately show ?case
    unfolding file_events_simps map_append sorted_append here [symmetric] by (fastforce simp del: map_map)
qed simp

subsection \<open>The loaded rows\<close>

definition mk_book :: "decimal_ops \<Rightarrow> rat \<Rightarrow> nat \<Rightarrow> nat \<times> book_row \<Rightarrow> loaded_event" where
  "mk_book D tick rank ir = (case ir of (i, r) \<Rightarrow> \<lparr>ld_ts = br_ts r, ld_symbol_idx = 0,
     ld_payload = BookDelta (the (u8_of (br_side r))) (the (price_to_ticks D (the (from_f64 D (br_price r))) tick))
       (the (from_f64 D (br_size r))) (br_seq r), ld_src = row_src (of_nat rank) i\<rparr>)"

definition mk_trade :: "decimal_ops \<Rightarrow> nat \<Rightarrow> nat \<times> trade_row \<Rightarrow> loaded_event" where
  "mk_trade D rank ir = (case ir of (i, r) \<Rightarrow> \<lparr>ld_ts = tw_ts r, ld_symbol_idx = 0,
     ld_payload = TradePrint (the (from_f64 D (tw_price r))) (the (from_f64 D (tw_size r)))
       (the (u8_of (tw_taker r))), ld_src = row_src (of_nat rank) i\<rparr>)"

text \<open>Contents of rows the loader accepts.\<close>

definition good_cells :: "decimal_ops \<Rightarrow> rat \<Rightarrow> u64 \<times> int \<times> rat \<times> rat \<Rightarrow> bool" where
  "good_cells D tick x = (case x of (ts, sd, p, q) \<Rightarrow> u8_of sd \<noteq> None \<and> from_f64 D q \<noteq> None
     \<and> (case from_f64 D p of Some p \<Rightarrow> price_to_ticks D p tick \<noteq> None | None \<Rightarrow> False))"

definition good_trade_cells :: "decimal_ops \<Rightarrow> u64 \<times> rat \<times> rat \<times> int \<Rightarrow> bool" where
  "good_trade_cells D x = (case x of (ts, p, q, tk) \<Rightarrow> u8_of tk \<noteq> None
     \<and> (case from_f64 D p of Some p \<Rightarrow> 0 < p | None \<Rightarrow> False)
     \<and> (case from_f64 D q of Some q \<Rightarrow> 0 < q | None \<Rightarrow> False))"

lemma those_map: "(\<forall>x \<in> set xs. f x = Some (g x)) \<Longrightarrow> those (map f xs) = Some (map g xs)"
  by (induction xs) auto

lemma load_book_good:
  assumes "\<forall>r \<in> set rows. good_cells D tick (row_content r)"
  shows "load_book_parquet D tick 0 (of_nat rank) (BookTable rows) = Inr (map (mk_book D tick rank) (enumerate 0 rows))"
proof -
  have "\<forall>ir \<in> set (enumerate 0 rows). book_event D tick 0 (of_nat rank) ir = Some (mk_book D tick rank ir)"
    using assms by (fastforce simp: book_event_def mk_book_def good_cells_def row_content_def enumerate_eq_zip
        dest: set_zip_rightD split: option.splits)
  from those_map [OF this] show ?thesis by (simp add: load_book_parquet_def)
qed

lemma load_trades_good:
  assumes "\<forall>r \<in> set rows. good_trade_cells D (trade_content r)"
  shows "load_trades_parquet D 0 (of_nat rank) (TradeTable rows) = Inr (map (mk_trade D rank) (enumerate 0 rows))"
proof -
  have "\<forall>ir \<in> set (enumerate 0 rows). trade_event D 0 (of_nat rank) ir = Some (Some (mk_trade D rank ir))"
    using assms by (fastforce simp: trade_event_def mk_trade_def good_trade_cells_def trade_content_def enumerate_eq_zip
        dest: set_zip_rightD split: option.splits)
  from those_map [OF this] show ?thesis by (simp add: load_trades_parquet_def map_filter_def comp_def)
qed

lemma load_all_append:
  "load_all D tick ts = Inr es \<Longrightarrow> load_all D tick ts' = Inr es' \<Longrightarrow> load_all D tick (ts @ ts') = Inr (es @ es')"
  by (induction ts arbitrary: es) (auto split: sum.splits)

lemma load_all_books:
  "\<forall>x \<in> set xs. \<forall>r \<in> set (fl_books x). good_cells D tick (row_content r) \<Longrightarrow>
   load_all D tick (enumerate k (map (book_task base) xs)) = Inr (file_events (mk_book D tick) k (map fl_books xs))"
  by (induction xs arbitrary: k) (simp_all add: load_one_def book_task_def load_book_good)

lemma load_all_trades:
  "\<forall>x \<in> set xs. \<forall>r \<in> set (fl_trades x). good_trade_cells D (trade_content r) \<Longrightarrow>
   load_all D tick (enumerate k (map (trade_task base) xs)) = Inr (file_events (mk_trade D) k (map fl_trades xs))"
  by (induction xs arbitrary: k) (simp_all add: load_one_def trade_task_def load_trades_good)

lemma concat_nonempty:
  "concat (map g (filter (\<lambda>x. g x \<noteq> []) xs)) = concat (map g xs)"
  by (induction xs) auto

subsection \<open>Snapshots from their rows\<close>

text \<open>A level that survives the conversion to \<open>f64\<close> and lies on the tick grid.\<close>

definition recordable_level :: "decimal_ops \<Rightarrow> (rat \<Rightarrow> rat) \<Rightarrow> rat \<Rightarrow> level \<Rightarrow> bool" where
  "recordable_level D f tick l \<longleftrightarrow> from_f64 D (f (lv_price l)) = Some (lv_price l)
     \<and> from_f64 D (f (lv_size l)) = Some (lv_size l) \<and> lv_size l \<noteq> 0
     \<and> (case price_to_ticks D (lv_price l) tick of Some t \<Rightarrow> dmul D (of_int t) tick = lv_price l | None \<Rightarrow> False)"

definition recordable_book :: "decimal_ops \<Rightarrow> (rat \<Rightarrow> rat) \<Rightarrow> rat \<Rightarrow> symbol \<Rightarrow> snapshot \<Rightarrow> bool" where
  "recordable_book D f tick sy sn \<longleftrightarrow> sn_symbol sn = sy \<and> sn_bids sn @ sn_asks sn \<noteq> []
     \<and> list_all (recordable_level D f tick) (sn_bids sn @ sn_asks sn)
     \<and> sorted_wrt (\<lambda>a b. lv_price b < lv_price a) (sn_bids sn)
     \<and> sorted_wrt (\<lambda>a b. lv_price a < lv_price b) (sn_asks sn)"

definition tick_of :: "decimal_ops \<Rightarrow> rat \<Rightarrow> level \<Rightarrow> int" where
  "tick_of D tick l = the (price_to_ticks D (lv_price l) tick)"

definition level_cells :: "decimal_ops \<Rightarrow> rat \<Rightarrow> u64 \<Rightarrow> nat \<Rightarrow> level list \<Rightarrow> (u64 \<times> nat \<times> int \<times> rat) list" where
  "level_cells D tick ts sd ls = map (\<lambda>l. (ts, sd, tick_of D tick l, lv_size l)) ls"

definition snapshot_cells :: "decimal_ops \<Rightarrow> rat \<Rightarrow> snapshot \<Rightarrow> (u64 \<times> nat \<times> int \<times> rat) list" where
  "snapshot_cells D tick sn = level_cells D tick (sn_ts sn) 0 (sn_bids sn) @ level_cells D tick (sn_ts sn) 1 (sn_asks sn)"

definition event_cells :: "loaded_event \<Rightarrow> u64 \<times> nat \<times> int \<times> rat" where
  "event_cells e = (case ld_payload e of BookDelta sd t q n \<Rightarrow> (ld_ts e, sd, t, q) | TradePrint p q sd \<Rightarrow> (ld_ts e, 0, 0, 0))"

lemma side_rows_cells:
  "\<forall>e \<in> set es. is_delta e \<Longrightarrow> side_rows bid es =
     map (\<lambda>(ts, sd, t, q). (t, q)) (filter (\<lambda>(ts, sd, t, q). (sd = 0) = bid) (map event_cells es))"
proof (induction es)
  case (Cons e es)
  then show ?case by (cases "ld_payload e") (auto simp: event_cells_def)
qed simp

lemma side_rows_snapshot:
  assumes "\<forall>e \<in> set es. is_delta e" "map event_cells es = snapshot_cells D tick sn"
  shows "side_rows True es = map (\<lambda>l. (tick_of D tick l, lv_size l)) (sn_bids sn)"
    and "side_rows False es = map (\<lambda>l. (tick_of D tick l, lv_size l)) (sn_asks sn)"
  unfolding side_rows_cells [OF assms(1)] assms(2)
  by (simp_all add: snapshot_cells_def level_cells_def filter_map comp_def case_prod_unfold)

abbreviation level_of :: "decimal_ops \<Rightarrow> rat \<Rightarrow> int \<times> rat \<Rightarrow> int \<times> level" where
  "level_of D tick \<equiv> \<lambda>(t, q). (t, \<lparr>lv_price = dmul D (of_int t) tick, lv_size = q\<rparr>)"

lemma set_levels_descending:
  "sorted_wrt (>) (map fst rows) \<Longrightarrow> \<forall>(t, q) \<in> set rows. q \<noteq> 0 \<and> (\<forall>x \<in> fst ` set m. t < x) \<Longrightarrow>
   set_levels D tick m rows = map (level_of D tick) (rev rows) @ m"
proof (induction rows arbitrary: m)
  case (Cons r rows)
  obtain t q where r: "r = (t, q)" by (cases r)
  have "set_level D tick t q m = level_of D tick (t, q) # m"
    using Cons.prems(2) by (simp add: r set_level_def bt_insert_below)
  moreover have "set_levels D tick (level_of D tick (t, q) # m) rows = map (level_of D tick) (rev rows) @ (level_of D tick (t, q) # m)"
    using Cons.prems by (intro Cons.IH) (auto simp: r)
  ultimately show ?case by (simp add: r)
qed simp

lemma set_levels_ascending:
  "sorted_wrt (<) (map fst rows) \<Longrightarrow> \<forall>(t, q) \<in> set rows. q \<noteq> 0 \<and> (\<forall>x \<in> fst ` set m. x < t) \<Longrightarrow>
   set_levels D tick m rows = m @ map (level_of D tick) rows"
proof (induction rows arbitrary: m)
  case (Cons r rows)
  obtain t q where r: "r = (t, q)" by (cases r)
  have "set_level D tick t q m = m @ [level_of D tick (t, q)]"
    using Cons.prems(2) by (simp add: r set_level_def bt_insert_above)
  moreover have "set_levels D tick (m @ [level_of D tick (t, q)]) rows = (m @ [level_of D tick (t, q)]) @ map (level_of D tick) rows"
    using Cons.prems by (intro Cons.IH) (auto simp: r)
  ultimately show ?case by (simp add: r)
qed simp

context decimal_arith
begin

lemma tick_order:
  assumes "recordable_level D f tick a" "recordable_level D f tick b" "lv_price a < lv_price b"
  shows "tick_of D tick a < tick_of D tick b"
proof (rule ccontr)
  assume "\<not> ?thesis"
  moreover have "0 < tick" using assms(1)
    by (auto simp: recordable_level_def price_to_ticks_def split: if_splits)
  ultimately have "of_int (tick_of D tick b) * tick \<le> of_int (tick_of D tick a) * tick" by simp
  then have "dmul D (of_int (tick_of D tick b)) tick \<le> dmul D (of_int (tick_of D tick a)) tick"
    by (rule dmul_mono)
  with assms show False by (auto simp: recordable_level_def tick_of_def split: option.splits)
qed

lemma level_of_tick:
  "recordable_level D f tick l \<Longrightarrow> level_of D tick (tick_of D tick l, lv_size l) = (tick_of D tick l, l)"
  by (cases l) (auto simp: recordable_level_def tick_of_def split: option.splits)

lemma snapshot_back:
  assumes sn: "recordable_book D f tick sy sn" and es: "\<forall>e \<in> set es. is_delta e"
    and cells: "map event_cells es = snapshot_cells D tick sn"
  shows "snapshot_of_rows D tick sy (sn_ts sn) es = sn"
proof -
  let ?r = "map (\<lambda>l. (tick_of D tick l, lv_size l))"
  have ok: "recordable_level D f tick l" if "l \<in> set (sn_bids sn) \<union> set (sn_asks sn)" for l
    using sn that by (auto simp: recordable_book_def list_all_iff)
  have lv: "\<lparr>lv_price = dmul D (of_int (tick_of D tick l)) tick, lv_size = lv_size l\<rparr> = l"
    if "l \<in> set (sn_bids sn) \<union> set (sn_asks sn)" for l
    using level_of_tick [OF ok [OF that]] by simp
  have nz: "\<forall>(t, q) \<in> set (?r ls). q \<noteq> 0" if "set ls \<subseteq> set (sn_bids sn) \<union> set (sn_asks sn)" for ls
    using ok that by (auto simp: recordable_level_def)
  have "sorted_wrt (>) (map fst (?r (sn_bids sn)))"
    using sn ok unfolding sorted_wrt_map recordable_book_def
    by (auto elim!: sorted_wrt_mono_rel [rotated] simp: sorted_wrt_map intro: tick_order)
  with nz [of "sn_bids sn"] have "set_levels D tick [] (?r (sn_bids sn)) = map (level_of D tick) (rev (?r (sn_bids sn)))"
    by (subst set_levels_descending) auto
  then have b: "map snd (rev (final_levels D tick (?r (sn_bids sn)))) = sn_bids sn"
    by (simp add: set_levels_empty rev_map comp_def lv map_idI)
  have "sorted_wrt (<) (map fst (?r (sn_asks sn)))"
    using sn ok unfolding sorted_wrt_map recordable_book_def
    by (auto elim!: sorted_wrt_mono_rel [rotated] simp: sorted_wrt_map intro: tick_order)
  with nz [of "sn_asks sn"] have "set_levels D tick [] (?r (sn_asks sn)) = map (level_of D tick) (?r (sn_asks sn))"
    by (subst set_levels_ascending) auto
  then have a: "map snd (final_levels D tick (?r (sn_asks sn))) = sn_asks sn"
    by (simp add: set_levels_empty comp_def lv map_idI)
  show ?thesis
    using sn by (simp add: snapshot_of_rows_def side_rows_snapshot [OF es cells] a b recordable_book_def)
qed

lemma snapshot_stream_books:
  assumes "\<forall>e \<in> set es. is_delta e \<and> ld_symbol_idx e = 0" "rp_symbols c = [sy]"
    and "map event_cells es = concat (map (snapshot_cells D (rp_tick_size c)) sns)"
    and "sorted_wrt (<) (map sn_ts sns)" "\<forall>sn \<in> set sns. recordable_book D f (rp_tick_size c) sy sn"
  shows "snapshot_stream D c es = map BookUpdate sns"
  using assms
proof (induction sns arbitrary: es)
  case (Cons sn sns)
  let ?cells = "snapshot_cells D (rp_tick_size c)"
  obtain G es' where es: "es = G @ es'" and G: "map event_cells G = ?cells sn"
      and es': "map event_cells es' = concat (map ?cells sns)"
    using Cons.prems(3) by (auto simp: map_eq_append_conv)
  have ts_cell: "ld_ts e = fst (event_cells e)" for e
    by (simp add: event_cells_def split: event_payload.split)
  have cell_ts: "fst x = sn_ts sn'" if "x \<in> set (?cells sn')" for x sn'
    using that by (auto simp: snapshot_cells_def level_cells_def)
  have G_ts: "ld_ts e = sn_ts sn" if "e \<in> set G" for e
    unfolding ts_cell by (rule cell_ts) (metis G imageI list.set_map that)
  have rest_ts: "sn_ts sn < ld_ts e" if "e \<in> set es'" for e
  proof -
    have "event_cells e \<in> set (concat (map ?cells sns))" using that unfolding es' [symmetric] by simp
    then obtain sn' where "sn' \<in> set sns" "event_cells e \<in> set (?cells sn')" by auto
    with cell_ts Cons.prems(4) show ?thesis unfolding ts_cell by auto
  qed
  have "G \<noteq> []"
    using Cons.prems(5) G by (auto simp: recordable_book_def snapshot_cells_def level_cells_def)
  then obtain e G' where G': "G = e # G'" by (cases G) auto
  have e: "is_delta e" "ld_symbol_idx e = 0" using Cons.prems(1) by (auto simp: es G')
  have same: "filter (same_snapshot e) (G' @ es') = G'" "filter (\<lambda>e'. \<not> same_snapshot e e') (G' @ es') = es'"
    using Cons.prems(1) G_ts rest_ts e
    by (auto simp: same_snapshot_def es G' filter_empty_conv filter_id_conv simp del: is_delta.simps) fastforce+
  have "snapshot_of_rows D (rp_tick_size c) sy (ld_ts e) (e # G') = sn"
    using snapshot_back [of f "rp_tick_size c" sy sn G] Cons.prems G G_ts [of e] by (simp add: es G')
  moreover have "snapshot_stream D c es' = map BookUpdate sns"
    using Cons.prems es' by (intro Cons.IH) (auto simp: es)
  moreover obtain sd t q n where "ld_payload e = BookDelta sd t q n" using e(1) by (cases "ld_payload e") auto
  ultimately show ?case using same e(2) Cons.prems(2) by (simp add: es G' Let_def)
qed simp

end

end
