(* ===== verification/Record_Runs.thy ===== *)
theory Record_Runs
  imports Roundtrip
begin

text \<open>
  The round trip as one theorem, its witness, and the loss of two flushes in one second.
\<close>

subsection \<open>The stream of one symbol\<close>

fun trade_rank :: "market_event \<Rightarrow> nat" where
  "trade_rank (Trade sy p q sd ts) = 1"
| "trade_rank _ = 0"

definition stream_key :: "market_event \<Rightarrow> u64 \<times> nat" where
  "stream_key ev = (event_ts ev, trade_rank ev)"

definition row_key :: "loaded_event \<Rightarrow> u64 \<times> nat" where
  "row_key e = (ld_ts e, payload_rank (ld_payload e))"

definition trade_of :: "symbol \<Rightarrow> timestamp \<times> price \<times> qsize \<times> side \<Rightarrow> market_event" where
  "trade_of sy t = (case t of (ts, p, q, sd) \<Rightarrow> Trade sy p q sd ts)"

lemma stream_book_first:
  assumes "ld_payload e = BookDelta sd t q n"
  shows "snapshot_stream D c (e # es) = BookUpdate (snapshot_of_rows D (rp_tick_size c)
      (rp_symbols c ! ld_symbol_idx e) (ld_ts e) (e # filter (same_snapshot e) es))
    # snapshot_stream D c (filter (\<lambda>e'. \<not> same_snapshot e e') es)"
  using assms by (simp add: Let_def)

lemma stream_books:
  "filter (\<lambda>ev. trade_rank ev = 0) (snapshot_stream D c es) = snapshot_stream D c (filter is_delta es)"
proof (induction D c es rule: snapshot_stream.induct)
  case (2 D c e es)
  show ?case
  proof (cases "ld_payload e")
    case (BookDelta sd t q n)
    have "filter (same_snapshot e) (filter is_delta es) = filter (same_snapshot e) es"
      unfolding filter_filter by (rule filter_cong) (auto simp: same_snapshot_def)
    moreover have "filter (\<lambda>e'. \<not> same_snapshot e e') (filter is_delta es) = filter is_delta (filter (\<lambda>e'. \<not> same_snapshot e e') es)"
      by (simp add: conj_commute)
    ultimately show ?thesis
      using 2(1) [OF refl BookDelta] by (simp add: stream_book_first [OF BookDelta] BookDelta del: snapshot_stream.simps)
  next
    case (TradePrint p q sd)
    with 2(2) [OF refl TradePrint] show ?thesis by (simp add: Let_def)
  qed
qed simp

definition print_event :: "replay_config \<Rightarrow> loaded_event \<Rightarrow> market_event" where
  "print_event c e = (case ld_payload e of
     TradePrint p q sd \<Rightarrow> Trade (rp_symbols c ! ld_symbol_idx e) p q (if sd = 0 then Bid else Ask) (ld_ts e)
   | BookDelta sd t q n \<Rightarrow> Heartbeat 0)"

lemma stream_trades:
  "filter (\<lambda>ev. trade_rank ev \<noteq> 0) (snapshot_stream D c es) = map (print_event c) (filter (\<lambda>e. \<not> is_delta e) es)"
proof (induction D c es rule: snapshot_stream.induct)
  case (2 D c e es)
  show ?case
  proof (cases "ld_payload e")
    case (BookDelta sd t q n)
    have "filter (\<lambda>e. \<not> is_delta e) (filter (\<lambda>e'. \<not> same_snapshot e e') es) = filter (\<lambda>e. \<not> is_delta e) es"
      unfolding filter_filter by (rule filter_cong) (auto simp: same_snapshot_def)
    with 2(1) [OF refl BookDelta] show ?thesis
      by (simp add: stream_book_first [OF BookDelta] BookDelta del: snapshot_stream.simps)
  next
    case (TradePrint p q sd)
    with 2(2) [OF refl TradePrint] show ?thesis by (simp add: Let_def print_event_def)
  qed
qed simp

lemma stream_key_sorted:
  "sorted (map row_key es) \<Longrightarrow> sorted (map stream_key (snapshot_stream D c es))
     \<and> (\<forall>ev \<in> set (snapshot_stream D c es). \<exists>e \<in> set es. stream_key ev = row_key e)"
proof (induction D c es rule: snapshot_stream.induct)
  case (2 D c e es)
  show ?case
  proof (cases "ld_payload e")
    case (BookDelta sd t q n)
    have "sorted (map row_key (filter (\<lambda>e'. \<not> same_snapshot e e') es))"
      using 2(3) by (simp add: sorted_key_filter)
    from 2(1) [OF refl BookDelta this] 2(3) show ?thesis
      by (fastforce simp: stream_book_first [OF BookDelta] stream_key_def row_key_def BookDelta snapshot_of_rows_def
          simp del: snapshot_stream.simps)
  next
    case (TradePrint p q sd)
    have "sorted (map row_key es)" using 2(3) by simp
    from 2(2) [OF refl TradePrint this] 2(3) have
      "sorted (map stream_key (snapshot_stream D c es))" "\<forall>ev \<in> set (snapshot_stream D c es). row_key e \<le> stream_key ev"
      "\<forall>ev \<in> set (snapshot_stream D c es). \<exists>e \<in> set es. stream_key ev = row_key e" by auto
    moreover have "snapshot_stream D c (e # es) = print_event c e # snapshot_stream D c es"
      "stream_key (print_event c e) = row_key e"
      by (simp_all add: TradePrint Let_def print_event_def stream_key_def row_key_def)
    ultimately show ?thesis by (simp del: snapshot_stream.simps)
  qed
qed simp

lemma sort_by_kind:
  assumes "sorted (map stream_key ys)"
    and b: "filter (\<lambda>ev. trade_rank ev = 0) ys = bs" and t: "filter (\<lambda>ev. trade_rank ev \<noteq> 0) ys = ts"
  shows "ys = sort_key stream_key (bs @ ts)"
proof (rule sym, rule properties_for_sort_key)
  show "mset ys = mset (bs @ ts)"
    using multiset_partition [of "mset ys" "\<lambda>ev. trade_rank ev = 0"] b t by (simp flip: mset_filter)
  fix k
  have "filter (\<lambda>x. stream_key k = stream_key x) ys
      = (if trade_rank k = 0 then filter (\<lambda>x. event_ts k = event_ts x \<and> trade_rank k = trade_rank x) bs
         else filter (\<lambda>x. event_ts k = event_ts x \<and> trade_rank k = trade_rank x) ts)"
    unfolding b [symmetric] t [symmetric] filter_filter
    by (auto simp: stream_key_def intro!: filter_cong)
  moreover have "filter (\<lambda>x. stream_key k = stream_key x) bs = (if trade_rank k = 0 then
      filter (\<lambda>x. event_ts k = event_ts x \<and> trade_rank k = trade_rank x) bs else [])"
    unfolding b [symmetric] filter_filter by (auto simp: stream_key_def filter_empty_conv intro!: filter_cong)
  moreover have "filter (\<lambda>x. stream_key k = stream_key x) ts = (if trade_rank k = 0 then []
      else filter (\<lambda>x. event_ts k = event_ts x \<and> trade_rank k = trade_rank x) ts)"
    unfolding t [symmetric] filter_filter by (auto simp: stream_key_def filter_empty_conv intro!: filter_cong)
  ultimately show "filter (\<lambda>x. stream_key k = stream_key x) ys = filter (\<lambda>x. stream_key k = stream_key x) (bs @ ts)"
    by simp
qed (rule assms(1))

subsection \<open>The directory of a session loads\<close>

lemma level_good:
  assumes "recordable_level D f tick l"
  shows "good_cells D tick (ts, 0, f (lv_price l), f (lv_size l))" "good_cells D tick (ts, 1, f (lv_price l), f (lv_size l))"
  using assms by (auto simp: recordable_level_def good_cells_def split: option.splits)

lemma snapshot_rows_good:
  "recordable_book D f tick sy sn \<Longrightarrow> x \<in> set (snapshot_rows f sn) \<Longrightarrow> good_cells D tick x"
  by (auto simp: recordable_book_def list_all_iff snapshot_rows_def level_rows_def level_good)

definition recordable_trade :: "decimal_ops \<Rightarrow> (rat \<Rightarrow> rat) \<Rightarrow> timestamp \<times> price \<times> qsize \<times> side \<Rightarrow> bool" where
  "recordable_trade D f t = (case t of (ts, p, q, sd) \<Rightarrow>
     from_f64 D (f p) = Some p \<and> from_f64 D (f q) = Some q \<and> 0 < p \<and> 0 < q)"

lemma trade_cells_good: "recordable_trade D f t \<Longrightarrow> good_trade_cells D (trade_cells f t)"
  by (auto simp: recordable_trade_def trade_cells_def good_trade_cells_def u8_of_def split: prod.splits)

text \<open>The cells of the events, from the contents of the rows.\<close>

definition loaded_cells :: "decimal_ops \<Rightarrow> rat \<Rightarrow> u64 \<times> int \<times> rat \<times> rat \<Rightarrow> u64 \<times> nat \<times> int \<times> rat" where
  "loaded_cells D tick x = (case x of (ts, sd, p, q) \<Rightarrow>
     (ts, the (u8_of sd), the (price_to_ticks D (the (from_f64 D p)) tick), the (from_f64 D q)))"

lemma loaded_snapshot_cells:
  assumes "recordable_book D f tick sy sn"
  shows "map (loaded_cells D tick) (snapshot_rows f sn) = snapshot_cells D tick sn"
proof -
  have "loaded_cells D tick (ts, sd, f (lv_price l), f (lv_size l)) = (ts, the (u8_of sd), tick_of D tick l, lv_size l)"
    if "l \<in> set (sn_bids sn) \<union> set (sn_asks sn)" for l ts sd
    using assms that by (auto simp: recordable_book_def list_all_iff recordable_level_def loaded_cells_def tick_of_def)
  then show ?thesis by (simp add: snapshot_rows_def level_rows_def snapshot_cells_def level_cells_def)
qed

lemma sorted_event_key:
  "sorted (map ld_ts es) \<Longrightarrow> sorted (map (\<lambda>e. unat (ld_src e)) es) \<Longrightarrow>
   \<forall>e \<in> set es. ld_symbol_idx e = i \<and> payload_rank (ld_payload e) = n \<Longrightarrow> sorted (map (event_key sys) es)"
  by (induction es) (auto simp: event_key_def less_eq_prod_def word_le_nat_alt)

lemma sorted_snapshot_ts:
  "sorted_wrt (<) (map sn_ts sns) \<Longrightarrow> sorted (map fst (concat (map (snapshot_cells D tick) sns)))"
proof (induction sns)
  case (Cons sn sns)
  have "fst x = sn_ts sn'" if "x \<in> set (snapshot_cells D tick sn')" for x sn'
    using that by (auto simp: snapshot_cells_def level_cells_def)
  moreover have "map fst (snapshot_cells D tick sn) = replicate (length (snapshot_cells D tick sn)) (sn_ts sn)"
    by (simp add: snapshot_cells_def level_cells_def comp_def map_replicate_const replicate_add)
  ultimately show ?case using Cons by (auto simp: sorted_append intro: less_imp_le)
qed simp

lemma seqs_deltas: "seqs i (filter is_delta es) = seqs i es"
  by (induction es) (auto simp: seqs_def List.map_filter_simps split: event_payload.splits)

lemma seqs_map: "\<forall>e \<in> set es. ld_symbol_idx e = i \<and> is_delta e \<Longrightarrow>
    seqs i es = map (\<lambda>e. case ld_payload e of BookDelta sd t q n \<Rightarrow> n | TradePrint p q sd \<Rightarrow> 0) es"
  by (induction es) (auto simp: seqs_def List.map_filter_simps split: event_payload.splits)

lemma length_member_concat: "xs \<in> set xss \<Longrightarrow> length xs \<le> length (concat xss)"
  by (induction xss) auto

lemma load_flushes:
  assumes D: "decimal_arith D" and c: "rp_symbols c = [sy]"
    and stamps: "sorted_wrt (<) (map fl_stamp xs)" "\<forall>x \<in> set xs. length (fl_stamp x) = n"
    and nums: "gapless (map br_seq (concat (map fl_books xs)))"
    and books: "map row_content (concat (map fl_books xs)) = concat (map (snapshot_rows f) sns)"
      "sorted_wrt (<) (map sn_ts sns)" "\<forall>sn \<in> set sns. recordable_book D f (rp_tick_size c) sy sn"
    and trades: "map trade_content (concat (map fl_trades xs)) = map (trade_cells f) trs"
      "sorted (map fst trs)" "\<forall>t \<in> set trs. recordable_trade D f t"
    and size: "length (concat (map fl_books xs)) < 2 ^ 32" "length trs < 2 ^ 32" "2 * length xs \<le> 2 ^ 32"
  shows "\<exists>d. replay_load D c (flush_dir (sy_base sy) xs) = Inr d
    \<and> filter (\<lambda>ev. \<not> is_heartbeat ev) (replay_all D (from_shared d))
        = sort_key stream_key (map BookUpdate sns @ map (trade_of sy) trs)"
proof -
  let ?tick = "rp_tick_size c" and ?bf = "map fl_books (with_books xs)" and ?tf = "map fl_trades (with_trades xs)"
  let ?k = "length (with_books xs)"
  define BE where "BE = file_events (mk_book D ?tick) 0 ?bf"
  define TE where "TE = file_events (mk_trade D) ?k ?tf"
  have bf: "concat ?bf = concat (map fl_books xs)" and tf: "concat ?tf = concat (map fl_trades xs)"
    by (rule concat_nonempty)+
  have "length (with_books xs) \<le> length xs" "length (with_trades xs) \<le> length xs" by simp_all
  with size(3) have len: "length (with_books xs) \<le> 2 ^ 32" "?k + length (with_trades xs) \<le> 2 ^ 32" by linarith+
  have tlen: "length (concat (map fl_trades xs)) = length trs" using trades(1) by (metis length_map)
  \<comment> \<open>the tables load\<close>
  have "good_cells D ?tick (row_content r)" if "x \<in> set xs" "r \<in> set (fl_books x)" for x r
  proof -
    have "row_content r \<in> set (map row_content (concat (map fl_books xs)))" using that by auto
    then show ?thesis unfolding books(1) using books(3) by (auto dest: snapshot_rows_good)
  qed
  moreover have "good_trade_cells D (trade_content r)" if "x \<in> set xs" "r \<in> set (fl_trades x)" for x r
  proof -
    have "trade_content r \<in> set (map trade_content (concat (map fl_trades xs)))" using that by auto
    then obtain t where "t \<in> set trs" "trade_content r = trade_cells f t" unfolding trades(1) by auto
    with trades(3) trade_cells_good [of D f t] show ?thesis by simp
  qed
  ultimately have good: "\<forall>x \<in> set (with_books xs). \<forall>r \<in> set (fl_books x). good_cells D ?tick (row_content r)"
      "\<forall>x \<in> set (with_trades xs). \<forall>r \<in> set (fl_trades x). good_trade_cells D (trade_content r)" by auto
  have "load_all D ?tick (enumerate 0 (map (book_task (sy_base sy)) (with_books xs))) = Inr BE"
      "load_all D ?tick (enumerate ?k (map (trade_task (sy_base sy)) (with_trades xs))) = Inr TE"
    unfolding BE_def TE_def by (rule load_all_books [OF good(1)], rule load_all_trades [OF good(2)])
  then have load: "load_all D ?tick (enumerate 0 (load_tasks c (flush_dir (sy_base sy) xs))) = Inr (BE @ TE)"
    unfolding load_tasks_session [OF c stamps] enumerate_append_eq by (simp add: load_all_append)
  \<comment> \<open>the events\<close>
  have delta: "is_delta e \<and> ld_symbol_idx e = 0 \<and> payload_rank (ld_payload e) = 0" if "e \<in> set BE" for e
    using that by (auto simp: BE_def file_events_def mk_book_def)
  have print: "\<not> is_delta e \<and> ld_symbol_idx e = 0 \<and> payload_rank (ld_payload e) = 1" if "e \<in> set TE" for e
    using that by (auto simp: TE_def file_events_def mk_trade_def)
  have "map event_cells BE = map (\<lambda>r. loaded_cells D ?tick (row_content r)) (concat ?bf)"
    unfolding BE_def by (rule file_events_rows) (simp add: event_cells_def mk_book_def loaded_cells_def row_content_def)
  also have "\<dots> = map (loaded_cells D ?tick) (map row_content (concat (map fl_books xs)))"
    unfolding bf by simp
  also have "\<dots> = concat (map (\<lambda>sn. map (loaded_cells D ?tick) (snapshot_rows f sn)) sns)"
    unfolding books(1) by (simp add: map_concat comp_def)
  also have "map (\<lambda>sn. map (loaded_cells D ?tick) (snapshot_rows f sn)) sns = map (snapshot_cells D ?tick) sns"
    by (rule map_cong [OF refl]) (use books(3) loaded_snapshot_cells in blast)
  finally have cells: "map event_cells BE = concat (map (snapshot_cells D ?tick) sns)" .
  have print_row: "map g TE = map (\<lambda>t. h (trade_cells f t)) trs"
    if "\<And>rank i r. g (mk_trade D rank (i, r)) = h (trade_content r)" for g :: "loaded_event \<Rightarrow> 'z" and h
  proof -
    have "map g TE = map (\<lambda>r. h (trade_content r)) (concat ?tf)"
      unfolding TE_def by (rule file_events_rows) (rule that)
    also have "\<dots> = map h (map (trade_cells f) trs)" unfolding tf trades(1) [symmetric] by simp
    finally show ?thesis by simp
  qed
  have events: "map (print_event c) TE = map (trade_of sy) trs"
  proof -
    have "map (print_event c) TE = map (\<lambda>t. (\<lambda>(ts, p, q, tk). Trade sy (the (from_f64 D p)) (the (from_f64 D q))
        (if the (u8_of tk) = 0 then Bid else Ask) ts) (trade_cells f t)) trs"
      by (rule print_row) (simp add: print_event_def mk_trade_def trade_content_def c)
    then show ?thesis
      using trades(3) by (auto simp: trade_cells_def recordable_trade_def trade_of_def)
  qed
  \<comment> \<open>their order\<close>
  have "map ld_ts BE = map fst (map event_cells BE)"
    by (simp add: event_cells_def split: event_payload.split)
  then have BE_ts: "sorted (map ld_ts BE)" unfolding cells using sorted_snapshot_ts [OF books(2)] by simp
  have "map ld_ts TE = map (\<lambda>t. fst (trade_cells f t)) trs"
    by (rule print_row) (simp add: mk_trade_def trade_content_def)
  also have "\<dots> = map fst trs" by (simp add: trade_cells_def case_prod_unfold)
  finally have TE_ts: "sorted (map ld_ts TE)" using trades(2) by simp
  have "sorted (map (\<lambda>e. unat (ld_src e)) BE)"
    unfolding BE_def
    by (rule file_events_src [THEN conjunct1])
      (use size len length_member_concat [of _ ?bf] bf in \<open>auto simp: mk_book_def intro: le_less_trans\<close>)
  then have BE_key: "sorted (map (event_key (rp_symbols c)) BE)"
    by (rule sorted_event_key [OF BE_ts]) (use delta in blast)
  have "sorted (map (\<lambda>e. unat (ld_src e)) TE)"
    unfolding TE_def
    by (rule file_events_src [THEN conjunct1])
      (use size len length_member_concat [of _ ?tf] tf tlen in \<open>auto simp: mk_trade_def intro: le_less_trans\<close>)
  then have TE_key: "sorted (map (event_key (rp_symbols c)) TE)"
    by (rule sorted_event_key [OF TE_ts]) (use print in blast)
  define S where "S = sort_key (event_key (rp_symbols c)) (BE @ TE)"
  have "filter is_delta BE = BE" "filter is_delta TE = []" "filter (\<lambda>e. \<not> is_delta e) BE = []"
    "filter (\<lambda>e. \<not> is_delta e) TE = TE"
    using delta print by (auto simp: filter_id_conv filter_empty_conv simp del: is_delta.simps)
  then have S: "filter is_delta S = BE" "filter (\<lambda>e. \<not> is_delta e) S = TE"
    unfolding S_def filter_sort filter_append
    using BE_key TE_key by (simp_all add: sort_key_id_if_sorted)
  have idx: "\<forall>e \<in> set S. ld_symbol_idx e = 0" using delta print by (auto simp: S_def)
  \<comment> \<open>no gap\<close>
  have "seqs 0 S = map (\<lambda>e. case ld_payload e of BookDelta sd t q n \<Rightarrow> n | TradePrint p q sd \<Rightarrow> 0) BE"
    using seqs_deltas [of 0 S] delta by (simp add: S(1) seqs_map del: is_delta.simps)
  also have "\<dots> = map br_seq (concat ?bf)"
    unfolding BE_def by (rule file_events_rows) (simp add: mk_book_def)
  finally have "gapless (seqs 0 S)" using nums by (simp add: bf)
  then have d: "replay_load D c (flush_dir (sy_base sy) xs) = Inr \<lparr>dt_cfg = c, dt_events = S\<rparr>"
    unfolding S_def by (intro load_gapless [OF load]) (simp add: c S_def [unfolded c])
  \<comment> \<open>the stream\<close>
  let ?Z = "snapshot_stream D c S"
  have "filter (\<lambda>ev. trade_rank ev = 0) ?Z = map BookUpdate sns"
    unfolding stream_books S(1)
    by (rule decimal_arith.snapshot_stream_books [OF D _ c cells books(2,3)]) (use delta in blast)
  moreover have "filter (\<lambda>ev. trade_rank ev \<noteq> 0) ?Z = map (trade_of sy) trs"
    unfolding stream_trades S(2) by (rule events)
  moreover have "sorted (map row_key S)"
  proof -
    have "sorted (map (event_key (rp_symbols c)) S)" by (simp add: S_def)
    then show ?thesis unfolding sorted_map using idx
      by (elim sorted_wrt_mono_rel [rotated]) (auto simp: event_key_def row_key_def less_eq_prod_def)
  qed
  ultimately have "?Z = sort_key stream_key (map BookUpdate sns @ map (trade_of sy) trs)"
    using stream_key_sorted by (intro sort_by_kind) blast+
  with d replay_snapshots [OF d] show ?thesis by simp
qed

subsection \<open>A whole session\<close>

definition session_books :: "u64 \<Rightarrow> u64 option \<Rightarrow> (record_clock \<times> record_item) list \<Rightarrow> snapshot list" where
  "session_books started cap is = concat (map (item_books \<circ> snd) (read_items started cap is))"

definition session_trades ::
    "u64 \<Rightarrow> u64 option \<Rightarrow> (record_clock \<times> record_item) list \<Rightarrow> (timestamp \<times> price \<times> qsize \<times> side) list" where
  "session_trades started cap is = concat (map (item_trades \<circ> snd) (read_items started cap is))"

text \<open>The stamps of all files written, the final flush included.\<close>

definition session_stamps ::
    "(rat \<Rightarrow> rat) \<Rightarrow> string \<Rightarrow> u64 \<Rightarrow> u64 option \<Rightarrow> (record_clock \<times> record_item) list \<Rightarrow> record_clock \<Rightarrow> string list"
  where
  "session_stamps f base started cap is k =
     (let s = (recorder_new base started, [])
      in flush_stamps f (read_items started cap is) s
         @ (if buffered (fst (record_loop f started cap is s)) then [ck_stamp k] else []))"

lemma session_result:
  assumes run: "run_recorder f base started cap is k [] = (Some r, dir)"
    and W: "\<forall>ki \<in> set is. all_written (fst ki)" "all_written k"
    and stamps: "distinct (session_stamps f base started cap is k)"
  obtains xs where "dir = flush_dir base xs" "map fl_stamp xs = session_stamps f base started cap is k"
    "session_ok f base (map snd (read_items started cap is)) xs r" "\<not> buffered r"
proof -
  let ?js = "read_items started cap is" and ?r0 = "recorder_new base started"
  have js: "\<forall>(k, i) \<in> set ?js. all_written k \<and> \<not> breaks i"
    using W(1) by (force simp: read_items_def dest: set_takeWhileD)
  have d0: "flush_dir base [] = []" by (simp add: flush_dir_def)
  have "distinct (flush_stamps f ?js (?r0, []))"
    using stamps by (simp add: session_stamps_def Let_def)
  then obtain xs1 r1 where xs1: "record_loop f started None ?js (?r0, []) = (r1, flush_dir base xs1)"
      "session_ok f base (map snd ?js) xs1 r1" "map fl_stamp xs1 = flush_stamps f ?js (?r0, [])"
    using session_loop [where started = started, OF session_new [of f base started] js] unfolding d0 by auto
  then have loop: "record_loop f started cap is (?r0, []) = (r1, flush_dir base xs1)"
    by (simp add: record_loop_read [of f started cap "is"])
  have all: "session_stamps f base started cap is k = map fl_stamp xs1 @ (if buffered r1 then [ck_stamp k] else [])"
    by (simp add: session_stamps_def Let_def loop xs1(3))
  then have "buffered r1 \<Longrightarrow> ck_stamp k \<notin> fl_stamp ` set xs1" using stamps by auto
  from session_flush [OF xs1(2) W(2) this] obtain xs r2 where
    xs: "flush k r1 (flush_dir base xs1) = (True, r2, flush_dir base xs)" "session_ok f base (map snd ?js) xs r2"
    "\<not> buffered r2" "map fl_stamp xs = session_stamps f base started cap is k"
    unfolding all by metis
  with run have "r2 = r" "dir = flush_dir base xs" by (simp_all add: run_recorder_def loop)
  with xs that show thesis by blast
qed

lemma item_trades_length: "length (concat (map (item_trades \<circ> snd) is)) \<le> length is"
proof (induction "is")
  case (Cons i "is")
  moreover have "length (item_trades (snd i)) \<le> 1" by (cases "snd i" rule: item_trades.cases) simp_all
  ultimately show ?case by simp
qed simp

text \<open>
  C10: Recording and replaying is the identity on the market data: a session whose flushes fall
  into different seconds and whose writes succeed leaves a directory that loads without a gap,
  and the replay of it, heartbeats aside, is the recorded snapshots and trades merged by time
  stamp, snapshots before trades, each book with its levels in their order.  This needs what the
  recording format can hold: prices on the tick grid, values that survive the conversion to
  floating point and back, snapshots that are not empty and have time stamps of their own.
\<close>

theorem record_replay_roundtrip:
  assumes D: "decimal_arith D" and c: "rp_symbols c = [sy]"
    and run: "run_recorder f (sy_base sy) started cap is k [] = (Some r, dir)"
    and writes: "\<forall>ki \<in> set is. all_written (fst ki)" "all_written k"
    and stamps: "sorted_wrt (<) (session_stamps f (sy_base sy) started cap is k)"
      "\<forall>s \<in> set (session_stamps f (sy_base sy) started cap is k). length s = 15"
    and books: "sorted_wrt (<) (map sn_ts (session_books started cap is))"
      "\<forall>sn \<in> set (session_books started cap is). recordable_book D f (rp_tick_size c) sy sn"
    and trades: "sorted (map fst (session_trades started cap is))"
      "\<forall>t \<in> set (session_trades started cap is). recordable_trade D f t"
    and size: "length (concat (map (snapshot_rows f) (session_books started cap is))) < 2 ^ 32"
      "2 * (length is + 1) < 2 ^ 32"
  shows "\<exists>d. replay_load D c dir = Inr d
    \<and> filter (\<lambda>ev. \<not> is_heartbeat ev) (replay_all D (from_shared d))
        = sort_key stream_key (map BookUpdate (session_books started cap is)
            @ map (trade_of sy) (session_trades started cap is))"
proof -
  have "distinct (session_stamps f (sy_base sy) started cap is k)"
    using stamps(1) by (simp add: strict_sorted_iff)
  then obtain xs where xs: "dir = flush_dir (sy_base sy) xs"
      "map fl_stamp xs = session_stamps f (sy_base sy) started cap is k"
      "session_ok f (sy_base sy) (map snd (read_items started cap is)) xs r" "\<not> buffered r"
    using session_result [OF run writes] by metis
  have rows: "book_rows xs r = concat (map fl_books xs)" "trade_rows xs r = concat (map fl_trades xs)"
    using xs(4) by (simp_all add: book_rows_def trade_rows_def buffered_def)
  have rc: "map row_content (concat (map fl_books xs)) = concat (map (snapshot_rows f) (session_books started cap is))"
    and tc: "map trade_content (concat (map fl_trades xs)) = map (trade_cells f) (session_trades started cap is)"
    and nums: "numbered 0 (map br_seq (concat (map fl_books xs)))"
    using xs(3) by (simp_all add: session_ok_def rows session_books_def session_trades_def)
  have items: "length (read_items started cap is) \<le> length is"
    by (simp add: read_items_def length_takeWhile_le)
  have "length (session_stamps f (sy_base sy) started cap is k) \<le> length (read_items started cap is) + 1"
    using flush_stamps_length [of f "read_items started cap is"] by (simp add: session_stamps_def Let_def le_SucI)
  with items size(2) have n: "2 * length xs \<le> 2 ^ 32" using xs(2) by (metis (no_types, lifting)
        add_le_mono1 dual_order.trans length_map less_imp_le mult_le_mono2)
  have t: "length (session_trades started cap is) < 2 ^ 32"
    using item_trades_length [of "read_items started cap is"] items size(2)
    unfolding session_trades_def by simp
  have len: "length (concat (map fl_books xs)) < 2 ^ 32" using size(1) arg_cong [OF rc, of length] by simp
  have "\<forall>s \<in> set (map fl_stamp xs). length s = 15" using stamps(2) unfolding xs(2) .
  then have fl_len: "\<forall>x \<in> set xs. length (fl_stamp x) = 15" by simp
  show ?thesis
    unfolding xs(1)
    by (rule load_flushes [OF D c _ fl_len numbered_gapless [OF nums] rc books tc trades len t n])
      (simp only: xs(2) stamps(1))
qed

subsection \<open>Runs\<close>

definition rr_symbol :: symbol where
  "rr_symbol = \<lparr>sy_base = ''BTC'', sy_quote = ''USDT'', sy_venue = ''binance'', sy_kind = Perp\<rparr>"

definition rr_config :: replay_config where
  "rr_config = \<lparr>rp_heartbeat_ms = 0, rp_symbols = [rr_symbol], rp_tick_size = 1 / 2, rp_allow_seq_gaps = False\<rparr>"

definition rr_book :: "u64 \<Rightarrow> snapshot" where
  "rr_book ts = \<lparr>sn_symbol = rr_symbol, sn_bids = [\<lparr>lv_price = 100, lv_size = 3\<rparr>, \<lparr>lv_price = 99, lv_size = 1\<rparr>],
     sn_asks = [\<lparr>lv_price = 101, lv_size = 2\<rparr>], sn_ts = ts\<rparr>"

definition rr_clock :: "string \<Rightarrow> u64 \<Rightarrow> record_clock" where
  "rr_clock s now = \<lparr>ck_loop = now, ck_stamp = s, ck_now = now, ck_writes = (\<lambda>n. Written)\<rparr>"

text \<open>A snapshot, a flush, a trade and a second snapshot; the final flush at the given stamp.\<close>

definition rr_items :: "(record_clock \<times> record_item) list" where
  "rr_items = [(rr_clock ''20260101_000000'' 1, DepthItem (Some (BookUpdate (rr_book 10)))),
     (rr_clock ''20260101_000100'' 60000000000, ProgressTick),
     (rr_clock ''20260101_000100'' 60000000001, TradeItem (Some (Trade rr_symbol 101 1 Bid 15))),
     (rr_clock ''20260101_000100'' 60000000002, DepthItem (Some (BookUpdate (rr_book 20)))),
     (rr_clock ''20260101_000100'' 60000000003, ShutdownItem)]"

lemmas rr_eval = rr_items_def rr_clock_def record_step_def record_book_def record_level_def record_trade_def
  recorder_new_def flush_if_stale_def flush_def flush_books_def flush_trades_def flush_marks_def write_file_def
  flush_interval_def flush_row_threshold_def row_count_def cap_reached_def buffered_def Let_def

definition rr_mid :: "recorder \<times> directory" where
  "rr_mid = record_loop id 0 None rr_items (recorder_new ''BTC'' 0, [])"

lemma rr_read: "read_items 0 None rr_items = butlast rr_items"
  by (simp add: read_items_def rr_items_def cap_reached_def)

lemma rr_session:
  "session_books 0 None rr_items = [rr_book 10, rr_book 20]"
  "session_trades 0 None rr_items = [(15, 101, 1, Bid)]"
  by (simp_all add: session_books_def session_trades_def rr_read) (simp_all add: rr_items_def)

lemma rr_loop: "rr_mid =
  (\<lparr>rd_symbol = ''BTC'', rd_book_buf = [\<lparr>br_ts = 20, br_side = 0, br_price = 100, br_size = 3, br_seq = 4\<rparr>,
      \<lparr>br_ts = 20, br_side = 0, br_price = 99, br_size = 1, br_seq = 5\<rparr>,
      \<lparr>br_ts = 20, br_side = 1, br_price = 101, br_size = 2, br_seq = 6\<rparr>],
     rd_trade_buf = [\<lparr>tw_ts = 15, tw_price = 101, tw_size = 1, tw_taker = 0, tw_trade_id = 1\<rparr>], rd_mark_buf = [],
     rd_seq = 6, rd_trade_id = 1, rd_flush_count = 1, rd_last_flush = 60000000000, rd_books_written = 3,
     rd_trades_written = 0, rd_marks_written = 0\<rparr>,
   [(shard_name ''book'' ''BTC'' ''20260101_000100'', BookTable
      [\<lparr>br_ts = 10, br_side = 0, br_price = 100, br_size = 3, br_seq = 1\<rparr>,
       \<lparr>br_ts = 10, br_side = 0, br_price = 99, br_size = 1, br_seq = 2\<rparr>,
       \<lparr>br_ts = 10, br_side = 1, br_price = 101, br_size = 2, br_seq = 3\<rparr>])])"
  unfolding rr_mid_def by (simp add: rr_eval rr_book_def sat_sub_def)

lemma rr_stamps:
  "flush_stamps id (read_items 0 None rr_items) (recorder_new ''BTC'' 0, []) = [''20260101_000100'']"
  unfolding rr_read by (simp add: rr_eval rr_book_def sat_sub_def)

lemma rr_all_stamps:
  "session_stamps id ''BTC'' 0 None rr_items k = [''20260101_000100'', ck_stamp k]"
  unfolding session_stamps_def Let_def rr_stamps rr_mid_def [symmetric] rr_loop by (simp add: buffered_def)

lemma rr_run:
  "\<exists>r dir. run_recorder id ''BTC'' 0 None rr_items (rr_clock s now) [] = (Some r, dir)"
  unfolding run_recorder_def rr_mid_def [symmetric] rr_loop
  by (simp add: flush_def flush_books_def flush_trades_def flush_marks_def write_file_def rr_clock_def)

lemma rr_recordable: "recordable_book exact_decimal id (1 / 2) rr_symbol (rr_book ts)"
  by (simp add: recordable_book_def recordable_level_def rr_book_def price_to_ticks_def to_i64_def)

lemma record_replay_roundtrip_witness:
  "\<exists>r dir d. run_recorder id ''BTC'' 0 None rr_items (rr_clock ''20260101_000101'' 60000000004) [] = (Some r, dir)
     \<and> replay_load exact_decimal rr_config dir = Inr d
     \<and> filter (\<lambda>ev. \<not> is_heartbeat ev) (replay_all exact_decimal (from_shared d))
         = [BookUpdate (rr_book 10), Trade rr_symbol 101 1 Bid 15, BookUpdate (rr_book 20)]"
proof -
  let ?k = "rr_clock ''20260101_000101'' 60000000004"
  have base: "sy_base rr_symbol = ''BTC''" by (simp add: rr_symbol_def)
  obtain r dir where run: "run_recorder id (sy_base rr_symbol) 0 None rr_items ?k [] = (Some r, dir)"
    unfolding base using rr_run by blast
  have order: "''20260101_000100'' < ''20260101_000101''" by (simp add: less_char_def)
  have "\<exists>d. replay_load exact_decimal rr_config dir = Inr d
      \<and> filter (\<lambda>ev. \<not> is_heartbeat ev) (replay_all exact_decimal (from_shared d))
          = sort_key stream_key (map BookUpdate (session_books 0 None rr_items)
              @ map (trade_of rr_symbol) (session_trades 0 None rr_items))"
    by (rule record_replay_roundtrip [OF exact.decimal_arith_axioms _ run])
      (use order in \<open>simp_all add: base rr_session rr_all_stamps rr_config_def rr_recordable recordable_trade_def\<close>,
       simp_all add: rr_items_def rr_clock_def all_written_def rr_book_def snapshot_rows_def level_rows_def)
  moreover have "sort_key stream_key (map BookUpdate (session_books 0 None rr_items)
      @ map (trade_of rr_symbol) (session_trades 0 None rr_items))
    = [BookUpdate (rr_book 10), Trade rr_symbol 101 1 Bid 15, BookUpdate (rr_book 20)]"
    by (simp add: rr_session stream_key_def trade_of_def rr_book_def)
  ultimately show ?thesis using run unfolding base by auto
qed

text \<open>
  Two flushes in the same second: the file of the second replaces the file of the first, the
  snapshot and the rows it held are gone, and because the rows that are left are numbered
  consecutively the gap detection does not notice.
\<close>

theorem flush_same_second_loses:
  "\<exists>r dir d. run_recorder id ''BTC'' 0 None rr_items (rr_clock ''20260101_000100'' 60000000004) [] = (Some r, dir)
     \<and> replay_load exact_decimal rr_config dir = Inr d
     \<and> filter (\<lambda>ev. \<not> is_heartbeat ev) (replay_all exact_decimal (from_shared d))
         = [Trade rr_symbol 101 1 Bid 15, BookUpdate (rr_book 20)]"
proof -
  let ?x = "\<lparr>fl_stamp = ''20260101_000100'', fl_books = rd_book_buf (fst rr_mid), fl_trades = rd_trade_buf (fst rr_mid),
      fl_marks = []\<rparr>"
  have base: "sy_base rr_symbol = ''BTC''" by (simp add: rr_symbol_def)
  have run: "\<exists>r. run_recorder id ''BTC'' 0 None rr_items (rr_clock ''20260101_000100'' 60000000004) []
      = (Some r, flush_dir ''BTC'' [?x])"
    unfolding run_recorder_def rr_mid_def [symmetric] rr_loop
    by (simp add: flush_def flush_books_def flush_trades_def flush_marks_def write_file_def rr_clock_def
        flush_dir_def flush_files_def)
  have "\<exists>d. replay_load exact_decimal rr_config (flush_dir (sy_base rr_symbol) [?x]) = Inr d
      \<and> filter (\<lambda>ev. \<not> is_heartbeat ev) (replay_all exact_decimal (from_shared d))
          = sort_key stream_key (map BookUpdate [rr_book 20] @ map (trade_of rr_symbol) [(15, 101, 1, Bid)])"
    by (rule load_flushes [where f = id and n = 15, OF exact.decimal_arith_axioms])
      (simp_all add: rr_config_def rr_loop row_content_def trade_content_def rr_recordable recordable_trade_def
        trade_cells_def, simp_all add: rr_book_def snapshot_rows_def level_rows_def)
  moreover have "sort_key stream_key (map BookUpdate [rr_book 20] @ map (trade_of rr_symbol) [(15, 101, 1, Bid)])
    = [Trade rr_symbol 101 1 Bid 15, BookUpdate (rr_book 20)]"
    by (simp add: stream_key_def trade_of_def rr_book_def)
  ultimately show ?thesis using run unfolding base by auto
qed

end
