(* ===== verification/Retrace.thy ===== *)
theory Retrace
  imports Replay_Laws
begin

text \<open>
  The three passes over loaded data of \<open>crates/tikr-backtest/src/replay.rs\<close> that rebuild the
  books: the synthetic way back to the first price that \<open>with_retrace_tail\<close> appends, the spread
  statistics and the bucketed closes.  The walk of the tail is a loop whose end depends on its
  direction and step, so it is an option; \<open>retrace_tail_walks_home\<close> shows that it ends, where,
  and in how many steps.  Ticks are unbounded integers here; the time stamps are words.
\<close>

subsection \<open>Mids of a book\<close>

definition best_ticks :: "tick_book \<Rightarrow> (int \<times> int) option" where
  "best_ticks b = (case (last_opt (tb_bids b), first_opt (tb_asks b)) of
     (Some (bt, l), Some (ak, l')) \<Rightarrow> Some (bt, ak) | _ \<Rightarrow> None)"

definition book_mid :: "decimal_ops \<Rightarrow> rat \<Rightarrow> tick_book \<Rightarrow> rat option" where
  "book_mid D tick b = (case best_ticks b of None \<Rightarrow> None
     | Some (bt, ak) \<Rightarrow>
         (let bp = dmul D (of_int bt) tick; ap = dmul D (of_int ak) tick
          in if 0 < bp \<and> bp < ap then Some (ddiv D (dadd D bp ap) 2) else None))"

definition to_ticks :: "decimal_ops \<Rightarrow> rat \<Rightarrow> rat \<Rightarrow> int" where
  "to_ticks D tick p = (case to_i64 (round_dp D (ddiv D p tick) 0) of Some t \<Rightarrow> t | None \<Rightarrow> 0)"

subsection \<open>The scan of the recorded data\<close>

record retrace_scan =
  rs_book :: tick_book
  rs_first_mid :: "rat option"
  rs_last_mid :: "rat option"
  rs_prev_mid_t :: "int option"
  rs_mid_diffs :: "int list"
  rs_last_ts :: u64
  rs_max_seq :: u64

definition scan_new :: retrace_scan where
  "scan_new = \<lparr>rs_book = tick_book_new, rs_first_mid = None, rs_last_mid = None, rs_prev_mid_t = None,
     rs_mid_diffs = [], rs_last_ts = 0, rs_max_seq = 0\<rparr>"

definition note_mid :: "rat \<Rightarrow> retrace_scan \<Rightarrow> retrace_scan" where
  "note_mid m s = s\<lparr>rs_first_mid := (case rs_first_mid s of None \<Rightarrow> Some m | Some x \<Rightarrow> Some x),
     rs_last_mid := Some m\<rparr>"

text \<open>A snapshot is complete when a row of another time stamp arrives.\<close>

definition scan_complete :: "decimal_ops \<Rightarrow> rat \<Rightarrow> retrace_scan \<Rightarrow> retrace_scan" where
  "scan_complete D tick s = (case book_mid D tick (rs_book s) of None \<Rightarrow> s
     | Some m \<Rightarrow>
         (let s = note_mid m s; mt = to_ticks D tick m;
              diffs = (case rs_prev_mid_t s of None \<Rightarrow> rs_mid_diffs s
                | Some p \<Rightarrow> if 0 < \<bar>mt - p\<bar> then rs_mid_diffs s @ [\<bar>mt - p\<bar>] else rs_mid_diffs s)
          in s\<lparr>rs_mid_diffs := diffs, rs_prev_mid_t := Some mt\<rparr>))"

definition scan_event :: "decimal_ops \<Rightarrow> rat \<Rightarrow> retrace_scan \<Rightarrow> loaded_event \<Rightarrow> retrace_scan" where
  "scan_event D tick s e =
     (let s = s\<lparr>rs_last_ts := max (rs_last_ts s) (ld_ts e)\<rparr>
      in if ld_symbol_idx e \<noteq> 0 then s
         else case ld_payload e of
                TradePrint p q sd \<Rightarrow> s
              | BookDelta sd t q n \<Rightarrow>
                  (let s = (if ld_ts e \<noteq> tb_last_applied_ts (rs_book s) then scan_complete D tick s else s)
                   in s\<lparr>rs_book := apply_delta_row D tick (ld_ts e) sd t q (rs_book s),
                        rs_max_seq := max (rs_max_seq s) n\<rparr>))"

definition scan_all :: "decimal_ops \<Rightarrow> rat \<Rightarrow> loaded_event list \<Rightarrow> retrace_scan" where
  "scan_all D tick es = (let s = foldl (scan_event D tick) scan_new es
     in case book_mid D tick (rs_book s) of None \<Rightarrow> s | Some m \<Rightarrow> note_mid m s)"

subsection \<open>The walk back\<close>

definition max_steps :: int where
  "max_steps = 20000"

definition median_move :: "int list \<Rightarrow> int" where
  "median_move ds = (if ds = [] then 1 else sort ds ! (length ds div 2))"

definition step_ticks :: "int list \<Rightarrow> int \<Rightarrow> int" where
  "step_ticks ds gap = max (max (median_move ds) 1) (gap div max_steps + 1)"

text \<open>The prices of the steps, each clamped onto the origin.\<close>

definition next_tick :: "int \<Rightarrow> int \<Rightarrow> int \<Rightarrow> int \<Rightarrow> int" where
  "next_tick dir step origin cur =
     (let cur = cur + dir * step
      in if 0 < dir \<and> origin < cur \<or> dir < 0 \<and> cur < origin then origin else cur)"

partial_function (option) retrace_walk :: "int \<Rightarrow> int \<Rightarrow> int \<Rightarrow> int \<Rightarrow> int list option" where
  "retrace_walk dir step origin cur =
     (if cur = origin then Some []
      else Option.bind (retrace_walk dir step origin (next_tick dir step origin cur))
             (\<lambda>path. Some (next_tick dir step origin cur # path)))"

definition step_ns :: u64 where
  "step_ns = 1000000000"

definition src_base :: u64 where
  "src_base = push_bit 32 4294967295"

text \<open>A step is a book one tick around the price and, a second later, a trade at it.\<close>

definition step_events :: "decimal_ops \<Rightarrow> rat \<Rightarrow> nat \<Rightarrow> u64 \<Rightarrow> u64 \<Rightarrow> u64 \<Rightarrow> int \<Rightarrow> loaded_event list" where
  "step_events D tick taker ts seq row cur =
     [\<lparr>ld_ts = ts, ld_symbol_idx = 0, ld_payload = BookDelta 0 (cur - 1) 1 seq, ld_src = or src_base row\<rparr>,
      \<lparr>ld_ts = ts, ld_symbol_idx = 0, ld_payload = BookDelta 1 (cur + 1) 1 (seq + 1), ld_src = or src_base (row + 1)\<rparr>,
      \<lparr>ld_ts = ts + step_ns, ld_symbol_idx = 0,
       ld_payload = TradePrint (dmul D (of_int cur) tick) 1000000000 taker, ld_src = or src_base (row + 2)\<rparr>]"

fun tail_events :: "decimal_ops \<Rightarrow> rat \<Rightarrow> nat \<Rightarrow> u64 \<Rightarrow> u64 \<Rightarrow> u64 \<Rightarrow> int list \<Rightarrow> loaded_event list" where
  "tail_events D tick taker ts seq row [] = []"
| "tail_events D tick taker ts seq row (cur # path) = step_events D tick taker ts seq row cur
     @ tail_events D tick taker (ts + step_ns + step_ns) (seq + 2) (row + 3) path"

definition with_retrace_tail :: "decimal_ops \<Rightarrow> loaded_data \<Rightarrow> (loaded_data \<times> u64 option) option" where
  "with_retrace_tail D d =
     (let tick = rp_tick_size (dt_cfg d); unchanged = Some (d, None)
      in if tick \<le> 0 \<or> dt_events d = [] then unchanged
         else
           let s = scan_all D tick (dt_events d)
           in case (rs_first_mid s, rs_last_mid s) of
                (Some origin, Some last_mid) \<Rightarrow>
                  if origin = last_mid then unchanged
                  else
                    let end_t = to_ticks D tick last_mid; origin_t = to_ticks D tick origin;
                        gap = \<bar>origin_t - end_t\<bar>
                    in if gap = 0 then unchanged
                       else
                         let dir = (if end_t < origin_t then 1 else - 1);
                             step = step_ticks (rs_mid_diffs s) gap
                         in map_option (\<lambda>path. (d\<lparr>dt_events := dt_events d
                                @ tail_events D tick (if 0 < dir then 0 else 1) (rs_last_ts s + step_ns)
                                    (rs_max_seq s + 1) 0 path\<rparr>, Some (rs_last_ts s)))
                              (retrace_walk dir step origin_t end_t)
              | _ \<Rightarrow> unchanged)"

subsection \<open>Statistics\<close>

text \<open>\<open>books[ev.symbol_idx]\<close>: there is one book at least.\<close>

definition fresh_tick_books :: "replay_config \<Rightarrow> tick_book list" where
  "fresh_tick_books c = replicate (max (length (rp_symbols c)) 1) tick_book_new"

definition spread_bps :: "decimal_ops \<Rightarrow> rat \<Rightarrow> tick_book \<Rightarrow> rat option" where
  "spread_bps D tick b = (case best_ticks b of None \<Rightarrow> None
     | Some (bt, ak) \<Rightarrow>
         (let bp = dmul D (of_int bt) tick; ap = dmul D (of_int ak) tick
          in if 0 < bp \<and> bp < ap
             then Some (dmul D (ddiv D (dsub D ap bp) (ddiv D (dadd D bp ap) 2)) 10000) else None))"

definition push_sample :: "decimal_ops \<Rightarrow> rat \<Rightarrow> tick_book \<Rightarrow> rat list \<Rightarrow> rat list" where
  "push_sample D tick b xs = (case spread_bps D tick b of None \<Rightarrow> xs | Some x \<Rightarrow> xs @ [x])"

definition spread_event ::
    "decimal_ops \<Rightarrow> rat \<Rightarrow> tick_book list \<times> rat list \<Rightarrow> loaded_event \<Rightarrow> tick_book list \<times> rat list" where
  "spread_event D tick s e = (case (s, ld_payload e) of
     ((bs, xs), BookDelta sd t q n) \<Rightarrow>
       (let b = bs ! ld_symbol_idx e
        in (bs[ld_symbol_idx e := apply_delta_row D tick (ld_ts e) sd t q b],
            if ld_ts e \<noteq> tb_last_applied_ts b then push_sample D tick b xs else xs))
   | (s, TradePrint p q sd) \<Rightarrow> s)"

definition spread_samples :: "decimal_ops \<Rightarrow> loaded_data \<Rightarrow> rat list" where
  "spread_samples D d =
     (let tick = rp_tick_size (dt_cfg d);
          (bs, xs) = foldl (spread_event D tick) (fresh_tick_books (dt_cfg d), []) (dt_events d)
      in foldl (\<lambda>xs b. push_sample D tick b xs) xs bs)"

definition book_spread_stats_bps :: "decimal_ops \<Rightarrow> loaded_data \<Rightarrow> (rat \<times> rat) option" where
  "book_spread_stats_bps D d =
     (let xs = sort (spread_samples D d)
      in if xs = [] then None else Some (xs ! (length xs div 2), last xs))"

text \<open>The closes per bucket: the running close of the open bucket is overwritten.\<close>

definition record_close :: "u64 \<Rightarrow> u64 \<Rightarrow> rat \<Rightarrow> rat list \<times> u64 option \<Rightarrow> rat list \<times> u64 option" where
  "record_close bucket_ns ts mid s = (case s of (closes, cur) \<Rightarrow>
     (let bucket = ts div bucket_ns
      in if cur = Some bucket
         then ((if closes = [] then [mid] else closes[length closes - 1 := mid]), cur)
         else (closes @ [mid], Some bucket)))"

definition close_book ::
    "decimal_ops \<Rightarrow> rat \<Rightarrow> u64 \<Rightarrow> tick_book \<Rightarrow> rat list \<times> u64 option \<Rightarrow> rat list \<times> u64 option" where
  "close_book D tick bucket_ns b s = (case book_mid D tick b of None \<Rightarrow> s
     | Some m \<Rightarrow> record_close bucket_ns (tb_last_applied_ts b) m s)"

definition close_event ::
    "decimal_ops \<Rightarrow> rat \<Rightarrow> u64 \<Rightarrow> tick_book list \<times> (rat list \<times> u64 option) list \<Rightarrow> loaded_event
      \<Rightarrow> tick_book list \<times> (rat list \<times> u64 option) list" where
  "close_event D tick bucket_ns s e = (case (s, ld_payload e) of
     ((bs, cs), BookDelta sd t q n) \<Rightarrow>
       (let i = ld_symbol_idx e; b = bs ! i
        in (bs[i := apply_delta_row D tick (ld_ts e) sd t q b],
            if ld_ts e \<noteq> tb_last_applied_ts b then cs[i := close_book D tick bucket_ns b (cs ! i)] else cs))
   | (s, TradePrint p q sd) \<Rightarrow> s)"

definition minute_close_mids :: "decimal_ops \<Rightarrow> u64 \<Rightarrow> loaded_data \<Rightarrow> rat list list" where
  "minute_close_mids D bucket_secs d =
     (let tick = rp_tick_size (dt_cfg d); bucket_ns = sat_mul (max bucket_secs 1) 1000000000;
          n = max (length (rp_symbols (dt_cfg d))) 1;
          (bs, cs) = foldl (close_event D tick bucket_ns) (fresh_tick_books (dt_cfg d), replicate n ([], None))
            (dt_events d)
      in map (\<lambda>(b, s). fst (close_book D tick bucket_ns b s)) (zip bs cs))"

subsection \<open>The walk ends at the origin\<close>

definition towards :: "int \<Rightarrow> int \<Rightarrow> int list \<Rightarrow> bool" where
  "towards origin cur path \<longleftrightarrow> (if cur < origin then sorted_wrt (<) (cur # path) else sorted_wrt (>) (cur # path))"

lemma next_tick_nearer:
  assumes "cur \<noteq> origin" "dir = (if cur < origin then 1 else - 1)" "1 \<le> step"
  shows "\<bar>origin - next_tick dir step origin cur\<bar> = max 0 (\<bar>origin - cur\<bar> - step)"
    and "next_tick dir step origin cur \<noteq> origin \<Longrightarrow> next_tick dir step origin cur < origin \<longleftrightarrow> cur < origin"
    and "cur < origin \<Longrightarrow> cur < next_tick dir step origin cur \<and> next_tick dir step origin cur \<le> origin"
    and "origin < cur \<Longrightarrow> next_tick dir step origin cur < cur \<and> origin \<le> next_tick dir step origin cur"
  using assms by (auto simp: next_tick_def Let_def)

lemma walk_returns:
  assumes "dir = (if cur < origin then 1 else - 1)" "1 \<le> step"
  shows "\<exists>path. retrace_walk dir step origin cur = Some path \<and> towards origin cur path
    \<and> last (cur # path) = origin \<and> int (length path) * step < \<bar>origin - cur\<bar> + step"
  using assms
proof (induction "nat \<bar>origin - cur\<bar>" arbitrary: cur dir rule: less_induct)
  case less
  show ?case
  proof (cases "cur = origin")
    case True
    then show ?thesis using less.prems(2) by (subst retrace_walk.simps) (simp add: towards_def)
  next
    case False
    let ?n = "next_tick dir step origin cur"
    note near = next_tick_nearer [OF False less.prems]
    have small: "nat \<bar>origin - ?n\<bar> < nat \<bar>origin - cur\<bar>"
      using near(1) False less.prems(2) by auto
    show ?thesis
    proof (cases "?n = origin")
      case True
      have "retrace_walk dir step origin cur = Some [origin]"
        using False by (subst retrace_walk.simps) (simp add: True retrace_walk.simps)
      then show ?thesis using False less.prems by (auto simp: towards_def)
    next
      case neq: False
      have d: "dir = (if ?n < origin then 1 else - 1)" using near(2) [OF neq] less.prems(1) by simp
      from less.hyps [OF small d less.prems(2)] obtain path where
        path: "retrace_walk dir step origin ?n = Some path" "towards origin ?n path"
          "last (?n # path) = origin" "int (length path) * step < \<bar>origin - ?n\<bar> + step" by blast
      have "retrace_walk dir step origin cur = Some (?n # path)"
        using False by (subst retrace_walk.simps) (simp add: path(1))
      moreover have "towards origin cur (?n # path)"
        using path(2) near neq False unfolding towards_def by (cases "cur < origin") fastforce+
      moreover have "int (length (?n # path)) * step < \<bar>origin - cur\<bar> + step"
        using path(4) near(1) neq by (auto simp: algebra_simps max_def split: if_splits)
      ultimately show ?thesis using path(3) by simp
    qed
  qed
qed

lemma step_ticks_bound:
  assumes "int n * step_ticks ds gap < gap + step_ticks ds gap" "0 < gap"
  shows "n \<le> 20000"
proof (rule ccontr)
  let ?s = "step_ticks ds gap"
  assume "\<not> n \<le> 20000"
  then have "20000 * ?s \<le> (int n - 1) * ?s"
    by (intro mult_right_mono) (auto simp: step_ticks_def)
  with assms(1) have "20000 * ?s < gap" by (simp add: algebra_simps)
  moreover have "gap div 20000 + 1 \<le> ?s" by (simp add: step_ticks_def max_steps_def)
  moreover have "gap < 20000 * (gap div 20000 + 1)"
  proof -
    have "gap mod 20000 < 20000" by simp
    with mult_div_mod_eq [of 20000 gap] show ?thesis by (simp only: distrib_left)
  qed
  ultimately show False by linarith
qed

lemma unat_step_ns: "unat step_ns = 1000000000"
  by (simp add: step_ns_def)

lemma tail_events_ts:
  assumes "unat ts + 2000000000 * length path < 2 ^ 64"
  shows "sorted (map ld_ts (tail_events D tick taker ts seq row path))
    \<and> (\<forall>e \<in> set (tail_events D tick taker ts seq row path). ts \<le> ld_ts e)"
  using assms
proof (induction path arbitrary: ts seq row)
  case (Cons cur path)
  define t1 where "t1 = ts + step_ns"
  define t2 where "t2 = t1 + step_ns"
  have t1: "unat t1 = unat ts + 1000000000"
    using Cons.prems by (simp add: t1_def unat_word_ariths unat_step_ns)
  then have t2: "unat t2 = unat ts + 2000000000"
    using Cons.prems by (simp add: t2_def unat_word_ariths unat_step_ns)
  have le: "ts \<le> t1" "t1 \<le> t2" "ts \<le> t2" by (simp_all add: word_le_nat_alt t1 t2)
  have "sorted (map ld_ts (tail_events D tick taker t2 (seq + 2) (row + 3) path))
      \<and> (\<forall>e \<in> set (tail_events D tick taker t2 (seq + 2) (row + 3) path). t2 \<le> ld_ts e)"
    using Cons.prems by (intro Cons.IH) (simp add: t2)
  then show ?case using le
    by (auto simp: step_events_def t1_def [symmetric] t2_def [symmetric] simp del: add.assoc
        intro: order.trans)
qed simp

definition print_prices :: "loaded_event list \<Rightarrow> rat list" where
  "print_prices es = List.map_filter (\<lambda>e. case ld_payload e of
     TradePrint p q sd \<Rightarrow> Some p | BookDelta sd t q n \<Rightarrow> None) es"

lemma tail_prices:
  "print_prices (tail_events D tick taker ts seq row path) = map (\<lambda>t. dmul D (of_int t) tick) path"
  by (induction path arbitrary: ts seq row)
    (simp_all add: print_prices_def List.map_filter_simps step_events_def)

lemma tail_length: "length (tail_events D tick taker ts seq row path) = 3 * length path"
  by (induction path arbitrary: ts seq row) (simp_all add: step_events_def)

lemma scan_last_ts:
  "rs_last_ts (scan_all D tick es) = fold (\<lambda>e m. max m (ld_ts e)) es 0"
proof -
  have ev: "rs_last_ts (scan_event D tick s e) = max (rs_last_ts s) (ld_ts e)" for s e
    by (auto simp: scan_event_def scan_complete_def note_mid_def Let_def split: event_payload.split option.split)
  have "rs_last_ts (foldl (scan_event D tick) s es) = fold (\<lambda>e m. max m (ld_ts e)) es (rs_last_ts s)" for s
    by (induction es arbitrary: s) (simp_all add: ev)
  then show ?thesis
    by (simp add: scan_all_def Let_def note_mid_def scan_new_def split: option.split)
qed

lemma fold_max_bound:
  fixes m :: u64
  shows "m \<le> fold (\<lambda>e m. max m (ld_ts e)) es m"
    and "\<forall>e \<in> set es. ld_ts e \<le> fold (\<lambda>e m. max m (ld_ts e)) es m"
    and "fold (\<lambda>e m. max m (ld_ts e)) es m \<in> insert m (ld_ts ` set es)"
proof (induction es arbitrary: m)
  case (Cons e es)
  { case 1 from Cons.IH(1) [of "max m (ld_ts e)"] show ?case by simp }
  { case 2 from Cons.IH(1,2) [of "max m (ld_ts e)"] show ?case by simp }
  { case 3 from Cons.IH(3) [of "max m (ld_ts e)"] show ?case by (auto simp: max_def) }
qed simp_all

lemma tail_placed:
  assumes sorted: "sorted (map ld_ts es)" and early: "\<forall>e \<in> set es. unat (ld_ts e) < 2 ^ 63"
    and b: "b = rs_last_ts (scan_all D tick es)" and n: "length path \<le> 20000"
    and tail: "tail = tail_events D tick' taker (b + step_ns) seq row path"
  shows "sorted (map ld_ts (es @ tail)) \<and> (\<forall>e \<in> set es. ld_ts e \<le> b) \<and> (\<forall>e \<in> set tail. b < ld_ts e)"
proof -
  have last_le: "\<forall>e \<in> set es. ld_ts e \<le> b" unfolding b scan_last_ts by (rule fold_max_bound)
  have "unat b < 2 ^ 63" using fold_max_bound(3) [of es 0] early unfolding b scan_last_ts by auto
  then have ts: "unat (b + step_ns) = unat b + 1000000000"
      "unat b + 1000000000 + 2000000000 * length path < 2 ^ 64"
    using n by (simp_all add: unat_word_ariths unat_step_ns)
  then have t: "sorted (map ld_ts tail)" "\<forall>e \<in> set tail. b + step_ns \<le> ld_ts e"
    unfolding tail using tail_events_ts [of "b + step_ns" path] by simp_all
  have later: "\<forall>e \<in> set tail. b < ld_ts e"
    using t(2) ts(1) by (fastforce simp: word_le_nat_alt word_less_nat_alt)
  have "ld_ts x \<le> ld_ts y" if "x \<in> set es" "y \<in> set tail" for x y
    using last_le later that by (meson order.trans less_imp_le)
  then show ?thesis using sorted t(1) last_le later by (auto simp: sorted_append)
qed

lemma retrace_outcome:
  assumes s: "s = scan_all D (rp_tick_size (dt_cfg d)) (dt_events d)"
    and ticks: "ticks = to_ticks D (rp_tick_size (dt_cfg d))"
  obtains "with_retrace_tail D d = Some (d, None)"
  | origin last_mid path tail taker where "rs_first_mid s = Some origin" "rs_last_mid s = Some last_mid"
      "ticks origin \<noteq> ticks last_mid" "towards (ticks origin) (ticks last_mid) path"
      "last path = ticks origin" "path \<noteq> []" "length path \<le> 20000"
      "tail = tail_events D (rp_tick_size (dt_cfg d)) taker (rs_last_ts s + step_ns) (rs_max_seq s + 1) 0 path"
      "with_retrace_tail D d = Some (d\<lparr>dt_events := dt_events d @ tail\<rparr>, Some (rs_last_ts s))"
proof (cases "rs_first_mid s")
  case None
  then show thesis by (intro that(1)) (simp add: with_retrace_tail_def Let_def s [symmetric])
next
  case fm: (Some origin)
  show thesis
  proof (cases "rs_last_mid s")
    case None
    then show thesis by (intro that(1)) (simp add: with_retrace_tail_def Let_def s [symmetric] fm)
  next
    case lm: (Some last_mid)
    let ?o = "ticks origin" and ?e = "ticks last_mid"
    let ?dir = "if ?e < ?o then 1 else - 1 :: int" and ?step = "step_ticks (rs_mid_diffs s) \<bar>?o - ?e\<bar>"
    show thesis
    proof (cases "?o \<noteq> ?e \<and> 0 < rp_tick_size (dt_cfg d) \<and> dt_events d \<noteq> []")
      case True
      have "1 \<le> ?step" by (simp add: step_ticks_def)
      with walk_returns [of ?dir ?e ?o ?step] obtain path where path:
        "retrace_walk ?dir ?step ?o ?e = Some path" "towards ?o ?e path" "last (?e # path) = ?o"
        "int (length path) * ?step < \<bar>?o - ?e\<bar> + ?step" by auto
      have "length path \<le> 20000" using step_ticks_bound [OF path(4)] True by simp
      moreover have "path \<noteq> []" using path(3) True by auto
      moreover have "origin \<noteq> last_mid" using True by auto
      ultimately show thesis
        using fm lm True path(1-3)
        by (intro that(2) [of origin last_mid path _ "if 0 < ?dir then 0 else 1"])
          (auto simp: with_retrace_tail_def Let_def s [symmetric] ticks [symmetric])
    next
      case False
      then show thesis
        by (intro that(1)) (auto simp: with_retrace_tail_def Let_def s [symmetric] ticks [symmetric] fm lm)
    qed
  qed
qed

text \<open>
  C40: The synthetic tail walks home: extending the data always returns; when it adds anything,
  the tail starts after the last recorded event and stays in order of time, its trades move
  strictly towards the first observed price and end exactly on it, and there are at most twenty
  thousand of them, however far the price has run.
\<close>

theorem retrace_tail_walks_home:
  assumes sorted: "sorted (map ld_ts (dt_events d))" and early: "\<forall>e \<in> set (dt_events d). unat (ld_ts e) < 2 ^ 63"
  shows "\<exists>d' b. with_retrace_tail D d = Some (d', b) \<and> (case b of None \<Rightarrow> d' = d
    | Some boundary \<Rightarrow>
        (let s = scan_all D (rp_tick_size (dt_cfg d)) (dt_events d);
             ticks = to_ticks D (rp_tick_size (dt_cfg d)); origin = ticks (the (rs_first_mid s)) in
         \<exists>tail path. dt_events d' = dt_events d @ tail \<and> sorted (map ld_ts (dt_events d'))
           \<and> (\<forall>e \<in> set (dt_events d). ld_ts e \<le> boundary) \<and> (\<forall>e \<in> set tail. boundary < ld_ts e)
           \<and> print_prices tail = map (\<lambda>t. dmul D (of_int t) (rp_tick_size (dt_cfg d))) path
           \<and> towards origin (ticks (the (rs_last_mid s))) path \<and> last path = origin
           \<and> path \<noteq> [] \<and> length path \<le> 20000 \<and> length tail = 3 * length path))"
proof (rule retrace_outcome [OF refl refl, of D d])
  assume "with_retrace_tail D d = Some (d, None)"
  then show ?thesis by auto
next
  fix origin last_mid path tail taker
  let ?s = "scan_all D (rp_tick_size (dt_cfg d)) (dt_events d)" and ?ticks = "to_ticks D (rp_tick_size (dt_cfg d))"
  assume mids: "rs_first_mid ?s = Some origin" "rs_last_mid ?s = Some last_mid"
    and path: "towards (?ticks origin) (?ticks last_mid) path" "last path = ?ticks origin" "path \<noteq> []"
      "length path \<le> 20000"
    and tail: "tail = tail_events D (rp_tick_size (dt_cfg d)) taker (rs_last_ts ?s + step_ns) (rs_max_seq ?s + 1) 0 path"
    and w: "with_retrace_tail D d = Some (d\<lparr>dt_events := dt_events d @ tail\<rparr>, Some (rs_last_ts ?s))"
  have "print_prices tail = map (\<lambda>t. dmul D (of_int t) (rp_tick_size (dt_cfg d))) path"
      "length tail = 3 * length path"
    unfolding tail by (rule tail_prices, rule tail_length)
  with mids path w tail_placed [OF sorted early refl path(4) tail] show ?thesis
    by (auto simp: Let_def intro!: exI [of _ tail] exI [of _ path])
qed

end
