(* ===== verification/Replay_Runs.thy ===== *)
theory Replay_Runs
  imports Record_Runs Retrace
begin

text \<open>
  The replay on concrete recordings: the witnesses of the properties of the loader, of the pace
  of the stream and of the synthetic tail.
\<close>

subsection \<open>A directory of two tables\<close>

definition rp_flush :: flushed where
  "rp_flush = \<lparr>fl_stamp = ''20260101_000100'',
     fl_books = [\<lparr>br_ts = 20, br_side = 0, br_price = 100, br_size = 3, br_seq = 4\<rparr>,
       \<lparr>br_ts = 20, br_side = 0, br_price = 99, br_size = 1, br_seq = 5\<rparr>,
       \<lparr>br_ts = 20, br_side = 1, br_price = 101, br_size = 2, br_seq = 6\<rparr>],
     fl_trades = [\<lparr>tw_ts = 15, tw_price = 101, tw_size = 1, tw_taker = 0, tw_trade_id = 1\<rparr>], fl_marks = []\<rparr>"

definition rp_dir :: directory where
  "rp_dir = flush_dir ''BTC'' [rp_flush]"

lemma rp_dir_loads:
  assumes c: "rp_symbols c = [rr_symbol]" "rp_tick_size c = 1 / 2"
  shows "\<exists>d. replay_load exact_decimal c rp_dir = Inr d
     \<and> filter (\<lambda>ev. \<not> is_heartbeat ev) (replay_all exact_decimal (from_shared d))
         = [Trade rr_symbol 101 1 Bid 15, BookUpdate (rr_book 20)]"
proof -
  have "\<exists>d. replay_load exact_decimal c (flush_dir (sy_base rr_symbol) [rp_flush]) = Inr d
      \<and> filter (\<lambda>ev. \<not> is_heartbeat ev) (replay_all exact_decimal (from_shared d))
          = sort_key stream_key (map BookUpdate [rr_book 20] @ map (trade_of rr_symbol) [(15, 101, 1, Bid)])"
    by (rule load_flushes [where f = id and n = 15, OF exact.decimal_arith_axioms])
      (simp_all add: c rp_flush_def row_content_def trade_content_def rr_recordable recordable_trade_def
        trade_cells_def, simp_all add: rr_book_def snapshot_rows_def level_rows_def)
  then show ?thesis
    by (simp add: rp_dir_def rr_symbol_def [THEN arg_cong, of sy_base, simplified] stream_key_def trade_of_def rr_book_def)
qed

lemma replay_books_exact_witness:
  "\<exists>d. replay_load exact_decimal rr_config rp_dir = Inr d
     \<and> snapshot_stream exact_decimal rr_config (dt_events d) = [Trade rr_symbol 101 1 Bid 15, BookUpdate (rr_book 20)]"
proof -
  obtain d where d: "replay_load exact_decimal rr_config rp_dir = Inr d"
      "filter (\<lambda>ev. \<not> is_heartbeat ev) (replay_all exact_decimal (from_shared d))
         = [Trade rr_symbol 101 1 Bid 15, BookUpdate (rr_book 20)]"
    using rp_dir_loads [of rr_config] by (auto simp: rr_config_def)
  with replay_books_exact [OF d(1)] show ?thesis by auto
qed

lemma replay_paced_witness:
  "\<exists>d. replay_load exact_decimal (rr_config\<lparr>rp_heartbeat_ms := 1\<rparr>) rp_dir = Inr d
     \<and> successively (paced 1) (map event_ts (replay_all exact_decimal (from_shared d)))"
proof -
  obtain d where d: "replay_load exact_decimal (rr_config\<lparr>rp_heartbeat_ms := 1\<rparr>) rp_dir = Inr d"
    using rp_dir_loads [of "rr_config\<lparr>rp_heartbeat_ms := 1\<rparr>"] by (auto simp: rr_config_def)
  with replay_paced [OF d] show ?thesis by simp
qed

lemma load_order_irrelevant_witness:
  "length rp_dir = 2 \<and> replay_load exact_decimal rr_config rp_dir = replay_load exact_decimal rr_config (rev rp_dir)"
proof -
  have dir: "rp_dir = [(shard_name ''book'' ''BTC'' ''20260101_000100'', BookTable (fl_books rp_flush)),
      (shard_name ''trades'' ''BTC'' ''20260101_000100'', TradeTable (fl_trades rp_flush))]"
    by (simp add: rp_dir_def flush_dir_def flush_files_def rp_flush_def)
  show ?thesis
    using load_order_irrelevant [of rp_dir "rev rp_dir" exact_decimal rr_config]
    by (simp add: dir shard_name_def insert_commute)
qed

subsection \<open>A run of two ticks and its way back\<close>

definition rt_level :: "u64 \<Rightarrow> nat \<Rightarrow> int \<Rightarrow> loaded_event" where
  "rt_level ts sd t = \<lparr>ld_ts = ts, ld_symbol_idx = 0, ld_payload = BookDelta sd t 1 ts, ld_src = ts\<rparr>"

definition rt_data :: loaded_data where
  "rt_data = \<lparr>dt_cfg = rr_config\<lparr>rp_tick_size := 1\<rparr>,
     dt_events = [rt_level 10 0 99, rt_level 10 1 101, rt_level 20 0 101, rt_level 20 1 103]\<rparr>"

lemma rt_scan: "scan_all exact_decimal 1 (dt_events rt_data) =
   \<lparr>rs_book = \<lparr>tb_bids = [(101, \<lparr>lv_price = 101, lv_size = 1\<rparr>)], tb_asks = [(103, \<lparr>lv_price = 103, lv_size = 1\<rparr>)],
      tb_last_applied_ts = 20\<rparr>, rs_first_mid = Some 100,
    rs_last_mid = Some 102, rs_prev_mid_t = Some 100, rs_mid_diffs = [], rs_last_ts = 20, rs_max_seq = 20\<rparr>"
  by (simp add: rt_data_def rt_level_def scan_all_def scan_event_def scan_complete_def note_mid_def scan_new_def
      apply_delta_row_def set_level_def tick_book_new_def book_mid_def best_ticks_def to_ticks_def to_i64_def Let_def)

lemma retrace_tail_walks_home_witness:
  "\<exists>d' tail. with_retrace_tail exact_decimal rt_data = Some (d', Some 20)
     \<and> dt_events d' = dt_events rt_data @ tail \<and> sorted (map ld_ts (dt_events d')) \<and> tail \<noteq> []"
proof -
  have walk: "retrace_walk (- 1) 1 100 102 = Some [101, 100]"
    by (subst retrace_walk.simps, subst retrace_walk.simps, subst retrace_walk.simps) (simp add: next_tick_def)
  have "rp_tick_size (dt_cfg rt_data) = 1" "dt_events rt_data \<noteq> []" by (simp_all add: rt_data_def)
  moreover have "step_ticks [] 2 = 1" by (simp add: step_ticks_def median_move_def max_steps_def)
  ultimately have w: "\<exists>d'. with_retrace_tail exact_decimal rt_data = Some (d', Some 20)"
    by (simp add: with_retrace_tail_def Let_def rt_scan to_ticks_def to_i64_def walk)
  have "sorted (map ld_ts (dt_events rt_data))" "\<forall>e \<in> set (dt_events rt_data). unat (ld_ts e) < 2 ^ 63"
    by (simp_all add: rt_data_def rt_level_def)
  from retrace_tail_walks_home [OF this, of exact_decimal] w show ?thesis
    by (elim exE conjE) (simp add: Let_def, metis length_greater_0_conv mult_is_0 list.size(3) zero_neq_numeral)
qed

end
