(* ===== verification/Wave.thy ===== *)
theory Wave
  imports Strategy_Api
begin

text \<open>
  The Wave strategy of \<open>crates/tikr-strategy/src/wave.rs\<close>: a price lattice frozen at the first
  usable book, a band of \<open>levels\<close> slots on each side that slides with the touch, refills when
  enough slots have drained, and a rebuilt lattice when the step has drifted.  The sections
  follow the source: sizing, the automatic step and inner zone from one-second candles, the
  lattice and its slots, pruning, emission, the reduce anchor and the event handler.

  Slot indices are unbounded integers (\<open>i64\<close> in the code).  The loop that raises an order to
  the minimum notional lot by lot need not end for every arithmetic, so sizes, emissions and the
  handler are options; \<open>None\<close> is a loop that does not return.  Logging and the status texts are
  left out.
\<close>

record wave_config =
  wc_notional_per_order :: rat
  wc_tick_size :: rat
  wc_step_size :: rat
  wc_min_notional :: rat
  wc_levels :: u32
  wc_steps_bps :: u32
  wc_steps_inner :: u32
  wc_auto_inner :: bool
  wc_round_trips :: u32
  wc_force_refill_secs :: u64
  wc_auto_step :: bool
  wc_auto_step_k :: rat
  wc_maker_fee_bps :: rat
  wc_auto_candle_window :: u32
  wc_relattice_drift_pct :: rat
  wc_size_mult :: rat
  wc_size_ramp :: rat
  wc_reduce_to_avg :: bool

record window_range =
  low_k :: int
  high_k :: int

record wave =
  wv_config :: wave_config
  wv_bid_origin :: "rat option"
  wv_ask_origin :: "rat option"
  wv_step :: "rat option"
  wv_emitted_bid :: "int set"
  wv_emitted_ask :: "int set"
  wv_candle_sec :: "u64 option"
  wv_candle_high :: rat
  wv_candle_low :: rat
  wv_candle_bps :: "rat list"
  wv_dyn_inner :: u32
  wv_inner_dirty :: bool
  wv_dyn_step :: u32
  wv_last_refill :: "u64 option"
  wv_last_bid_fill :: "rat option"
  wv_last_ask_fill :: "rat option"

definition max_candle_window :: nat where
  "max_candle_window = 600"

definition candle_nanos :: u64 where
  "candle_nanos = 1000000000"

definition max_auto_inner :: int where
  "max_auto_inner = 50"

definition auto_inner_fraction :: rat where
  "auto_inner_fraction = 1 / 2"

definition wave_new :: "wave_config \<Rightarrow> wave" where
  "wave_new c = \<lparr>wv_config = c, wv_bid_origin = None, wv_ask_origin = None, wv_step = None,
     wv_emitted_bid = {}, wv_emitted_ask = {}, wv_candle_sec = None, wv_candle_high = 0,
     wv_candle_low = 0, wv_candle_bps = [], wv_dyn_inner = 0, wv_inner_dirty = False,
     wv_dyn_step = wc_steps_bps c, wv_last_refill = None, wv_last_bid_fill = None,
     wv_last_ask_fill = None\<rparr>"

subsection \<open>Sizing\<close>

definition depth_mult :: "decimal_ops \<Rightarrow> wave_config \<Rightarrow> int \<Rightarrow> rat" where
  "depth_mult D c depth =
     (if depth \<le> 0 then 1
      else
        let m = (if 1 < wc_size_mult c then ((\<lambda>m. dmul D m (wc_size_mult c)) ^^ nat depth) 1 else 1)
        in if 1 < wc_size_ramp c \<and> 1 < wc_levels c then
             let span = dec_u32 (wc_levels c - 1); frac = min (ddiv D (of_int depth) span) 1
             in dmul D m (dadd D 1 (dmul D (dsub D (wc_size_ramp c) 1) frac))
           else m)"

text \<open>\<open>while needed * price.0 < min { needed += step_size }\<close>.\<close>

partial_function (option) raise_lots :: "decimal_ops \<Rightarrow> rat \<Rightarrow> rat \<Rightarrow> rat \<Rightarrow> rat \<Rightarrow> rat option" where
  "raise_lots D price mn step needed =
     (if dmul D needed price < mn then raise_lots D price mn step (dadd D needed step) else Some needed)"

definition size_for_notional :: "decimal_ops \<Rightarrow> wave_config \<Rightarrow> price \<Rightarrow> rat \<Rightarrow> qsize option" where
  "size_for_notional D c price notional =
     (if price \<le> 0 then Some 0
      else
        let raw = ddiv D notional price; step = wc_step_size c; mn = wc_min_notional c;
            stepped = (if 0 < step then dmul D (dec_floor (ddiv D raw step)) step else raw)
        in if 0 < mn \<and> dmul D stepped price < mn \<and> 0 < step
           then raise_lots D price mn step (dmul D (dec_ceil (ddiv D (ddiv D mn price) step)) step)
           else Some stepped)"

definition reduce_size_boost :: "decimal_ops \<Rightarrow> wave_config \<Rightarrow> rat \<Rightarrow> rat \<Rightarrow> side \<Rightarrow> rat" where
  "reduce_size_boost D c pos mark sd =
     (let gain = dsub D (wc_size_ramp c) 1
      in if gain \<le> 0 \<or> pos = 0 \<or> mark \<le> 0 then 1
         else if \<not> (0 < pos \<and> sd = Ask \<or> pos < 0 \<and> sd = Bid) then 1
         else
           let ladder = dmul D (wc_notional_per_order c) (dec_u32 (max (wc_levels c) 1))
           in if ladder \<le> 0 then 1
              else dadd D 1 (dmul D gain (ddiv D (dmul D \<bar>pos\<bar> mark) ladder)))"

definition wave_quote ::
    "decimal_ops \<Rightarrow> wave_config \<Rightarrow> symbol \<Rightarrow> side \<Rightarrow> price \<Rightarrow> int \<Rightarrow> rat \<Rightarrow> action option" where
  "wave_quote D c sy sd price depth boost =
     map_option (\<lambda>q. Quote (make_post_only_intent sy sd price q))
       (size_for_notional D c price
         (dmul D (dmul D (wc_notional_per_order c) (depth_mult D c depth)) boost))"

subsection \<open>The automatic step and inner zone\<close>

definition effective_inner :: "wave \<Rightarrow> u32" where
  "effective_inner w = (if wc_auto_inner (wv_config w) then wv_dyn_inner w else wc_steps_inner (wv_config w))"

definition candle_window :: "wave_config \<Rightarrow> nat" where
  "candle_window c = max 1 (min max_candle_window (unat (wc_auto_candle_window c)))"

definition effective_step_bps :: "wave \<Rightarrow> u32" where
  "effective_step_bps w = (let c = wv_config w in
     if wc_auto_step c \<and> 0 < wc_steps_bps c then wv_dyn_step w else wc_steps_bps c)"

definition floor_step_bps :: "decimal_ops \<Rightarrow> wave_config \<Rightarrow> u32" where
  "floor_step_bps D c = word_of_int (max 0
     (case parse_i64 (dec_ceil (dmul D (wc_maker_fee_bps c) 2)) of Some v \<Rightarrow> v | None \<Rightarrow> 0))"

definition candle_mean :: "decimal_ops \<Rightarrow> wave \<Rightarrow> rat" where
  "candle_mean D w = ddiv D (dec_sum D (wv_candle_bps w)) (of_nat (length (wv_candle_bps w)))"

definition recompute_dyn_step :: "decimal_ops \<Rightarrow> wave \<Rightarrow> wave" where
  "recompute_dyn_step D w =
     (let c = wv_config w
      in if \<not> wc_auto_step c \<or> wc_steps_bps c = 0 \<or> wv_candle_bps w = [] then w
         else
           let raw = dmul D (candle_mean D w) (wc_auto_step_k c);
               lo = floor_step_bps D c; hi = max (wc_steps_bps c) lo;
               v = (case parse_i64 (round_dp D raw 0) of Some v \<Rightarrow> v | None \<Rightarrow> int (unat (wc_steps_bps c)))
           in w\<lparr>wv_dyn_step := word_of_int (clamp (int (unat lo)) (int (unat hi)) v)\<rparr>)"

definition auto_inner_steps :: "decimal_ops \<Rightarrow> wave \<Rightarrow> u32" where
  "auto_inner_steps D w =
     (let sbps = effective_step_bps w
      in if sbps = 0 \<or> wv_candle_bps w = [] then 0
         else
           let target = dmul D (candle_mean D w) auto_inner_fraction
           in word_of_int (clamp 0 max_auto_inner
                (case parse_i64 (round_dp D (ddiv D target (dec_u32 sbps)) 0) of Some v \<Rightarrow> v | None \<Rightarrow> 0)))"

definition recompute_dyn_inner :: "decimal_ops \<Rightarrow> wave \<Rightarrow> wave" where
  "recompute_dyn_inner D w =
     (let steps = auto_inner_steps D w
      in if steps \<noteq> wv_dyn_inner w then w\<lparr>wv_dyn_inner := steps, wv_inner_dirty := True\<rparr> else w)"

definition open_candle :: "u64 \<Rightarrow> rat \<Rightarrow> wave \<Rightarrow> wave" where
  "open_candle sec mid w = w\<lparr>wv_candle_sec := Some sec, wv_candle_high := mid, wv_candle_low := mid\<rparr>"

definition close_candle :: "decimal_ops \<Rightarrow> wave \<Rightarrow> wave" where
  "close_candle D w =
     (let cmid = ddiv D (dadd D (wv_candle_high w) (wv_candle_low w)) 2
      in if 0 < cmid then
           let gap = dmul D (ddiv D (dsub D (wv_candle_high w) (wv_candle_low w)) cmid) 10000;
               kept = drop (Suc (length (wv_candle_bps w)) - candle_window (wv_config w)) (wv_candle_bps w)
           in recompute_dyn_inner D (recompute_dyn_step D (w\<lparr>wv_candle_bps := kept @ [gap]\<rparr>))
         else w)"

definition update_candles :: "decimal_ops \<Rightarrow> rat \<Rightarrow> timestamp \<Rightarrow> wave \<Rightarrow> wave" where
  "update_candles D mid now w =
     (if \<not> (wc_auto_inner (wv_config w) \<or> wc_auto_step (wv_config w)) \<or> mid \<le> 0 then w
      else
        let sec = now div candle_nanos
        in case wv_candle_sec w of
             None \<Rightarrow> open_candle sec mid w
           | Some cur \<Rightarrow>
               if cur = sec
               then w\<lparr>wv_candle_high := (if wv_candle_high w < mid then mid else wv_candle_high w),
                      wv_candle_low := (if mid < wv_candle_low w then mid else wv_candle_low w)\<rparr>
               else open_candle sec mid (close_candle D w))"

subsection \<open>The lattice\<close>

definition compute_step :: "decimal_ops \<Rightarrow> wave \<Rightarrow> rat \<Rightarrow> rat" where
  "compute_step D w mid =
     (let tick = wc_tick_size (wv_config w); sbps = effective_step_bps w
      in if 0 < sbps \<and> 0 < mid \<and> 0 < tick then
           let target = ddiv D (dmul D mid (dec_u32 sbps)) 10000
           in if target < tick then dmul D (dec_ceil (ddiv D (dmul D (12 / 10) tick) tick)) tick
              else dmul D (dec_ceil (ddiv D target tick)) tick
         else tick)"

definition top_overrides :: "decimal_ops \<Rightarrow> wave \<Rightarrow> price option \<Rightarrow> price option \<Rightarrow> price option \<times> price option" where
  "top_overrides D w best_bid best_ask =
     (let tick = wc_tick_size (wv_config w); inner = effective_inner w
      in case (best_bid, best_ask) of
           (Some bp, Some ap) \<Rightarrow>
             if 0 < bp \<and> bp < ap \<and> 0 < tick \<and> (0 < wc_steps_bps (wv_config w) \<or> 0 < inner) then
               let mid = ddiv D (dadd D bp ap) 2;
                   half = dmul D (dec_u32 inner) (compute_step D w mid);
                   bid = dmul D (dec_floor (ddiv D (dsub D mid half) tick)) tick;
                   ask = dmul D (dec_ceil (ddiv D (dadd D mid half) tick)) tick
               in (Some (min bid bp), Some (max ask ap))
             else (best_bid, best_ask)
         | _ \<Rightarrow> (best_bid, best_ask))"

definition bid_price :: "decimal_ops \<Rightarrow> wave \<Rightarrow> int \<Rightarrow> rat option" where
  "bid_price D w k = (case (wv_bid_origin w, wv_step w) of
     (Some origin, Some step) \<Rightarrow>
       (let p = dsub D origin (dmul D (of_int k) step) in if 0 < p then Some p else None)
   | _ \<Rightarrow> None)"

definition ask_price :: "decimal_ops \<Rightarrow> wave \<Rightarrow> int \<Rightarrow> rat option" where
  "ask_price D w k = (case (wv_ask_origin w, wv_step w) of
     (Some origin, Some step) \<Rightarrow>
       (let p = dadd D origin (dmul D (of_int k) step) in if 0 < p then Some p else None)
   | _ \<Rightarrow> None)"

definition slot_price :: "decimal_ops \<Rightarrow> wave \<Rightarrow> side \<Rightarrow> int \<Rightarrow> rat option" where
  "slot_price D w sd k = (case sd of Bid \<Rightarrow> bid_price D w k | Ask \<Rightarrow> ask_price D w k)"

definition bid_k_at_or_below :: "decimal_ops \<Rightarrow> wave \<Rightarrow> price \<Rightarrow> int option" where
  "bid_k_at_or_below D w p = (case (wv_bid_origin w, wv_step w) of
     (Some origin, Some step) \<Rightarrow>
       if step \<le> 0 then None else parse_i64 (dec_ceil (ddiv D (dsub D origin p) step))
   | _ \<Rightarrow> None)"

definition ask_k_at_or_above :: "decimal_ops \<Rightarrow> wave \<Rightarrow> price \<Rightarrow> int option" where
  "ask_k_at_or_above D w p = (case (wv_ask_origin w, wv_step w) of
     (Some origin, Some step) \<Rightarrow>
       if step \<le> 0 then None else parse_i64 (dec_ceil (ddiv D (dsub D p origin) step))
   | _ \<Rightarrow> None)"

text \<open>Freezing the lattice, and rebuilding it: all resting orders are cancelled.\<close>

definition wave_init :: "decimal_ops \<Rightarrow> price option \<Rightarrow> price option \<Rightarrow> wave \<Rightarrow> wave" where
  "wave_init D top_b top_a w = (case (wv_step w, top_b, top_a) of
     (None, Some b, Some a) \<Rightarrow>
       if 0 < b \<and> b < a \<and> 0 < wc_tick_size (wv_config w)
       then w\<lparr>wv_step := Some (compute_step D w (ddiv D (dadd D b a) 2)),
              wv_bid_origin := Some b, wv_ask_origin := Some a\<rparr>
       else w
   | _ \<Rightarrow> w)"

definition lattice_ready :: "wave \<Rightarrow> bool" where
  "lattice_ready w \<longleftrightarrow> wv_step w \<noteq> None \<and> wv_bid_origin w \<noteq> None \<and> wv_ask_origin w \<noteq> None"

definition maybe_relattice ::
    "decimal_ops \<Rightarrow> strategy_context \<Rightarrow> price option \<Rightarrow> price option \<Rightarrow> wave \<Rightarrow> bool \<times> wave \<times> action list" where
  "maybe_relattice D cx top_b top_a w =
     (let keep = (False, w, []) in
      if effective_step_bps w = 0 \<or> wc_tick_size (wv_config w) \<le> 0 then keep
      else case (wv_step w, top_b, top_a) of
        (Some step, Some b, Some a) \<Rightarrow>
          if \<not> (0 < b \<and> b < a) then keep
          else
            let mid = ddiv D (dadd D b a) 2
            in if mid \<le> 0 then keep
               else
                 let fresh = compute_step D w mid
                 in if fresh \<le> 0 then keep
                    else if ddiv D \<bar>dsub D step fresh\<bar> fresh \<le> wc_relattice_drift_pct (wv_config w) then keep
                    else (True, w\<lparr>wv_step := Some fresh, wv_bid_origin := Some b, wv_ask_origin := Some a\<rparr>,
                          map (\<lambda>(id, q). Cancel id) (cx_open_quotes cx))
      | _ \<Rightarrow> keep)"

subsection \<open>Pruning and counting\<close>

definition prune_trailing_tail ::
    "decimal_ops \<Rightarrow> wave \<Rightarrow> strategy_context \<Rightarrow> side \<Rightarrow> window_range \<Rightarrow> action list" where
  "prune_trailing_tail D w cx sd band = (case slot_price D w sd (high_k band) of None \<Rightarrow> []
     | Some edge \<Rightarrow> map (\<lambda>(id, q). Cancel id) (filter (\<lambda>(id, q). qi_side q = sd
         \<and> (case sd of Bid \<Rightarrow> qi_price q < edge | Ask \<Rightarrow> edge < qi_price q)) (cx_open_quotes cx)))"

definition band_edges :: "decimal_ops \<Rightarrow> wave \<Rightarrow> side \<Rightarrow> window_range \<Rightarrow> (rat \<times> rat) option" where
  "band_edges D w sd band = (case sd of
     Bid \<Rightarrow> (case (bid_price D w (high_k band), bid_price D w (low_k band)) of
       (Some deep, Some shallow) \<Rightarrow> Some (deep, shallow) | _ \<Rightarrow> None)
   | Ask \<Rightarrow> (case (ask_price D w (low_k band), ask_price D w (high_k band)) of
       (Some shallow, Some deep) \<Rightarrow> Some (shallow, deep) | _ \<Rightarrow> None))"

definition prune_full_window ::
    "decimal_ops \<Rightarrow> wave \<Rightarrow> strategy_context \<Rightarrow> side \<Rightarrow> window_range \<Rightarrow> action list" where
  "prune_full_window D w cx sd band = (case band_edges D w sd band of None \<Rightarrow> []
     | Some (lo, hi) \<Rightarrow> map (\<lambda>(id, q). Cancel id) (filter (\<lambda>(id, q). qi_side q = sd
         \<and> (qi_price q < lo \<or> hi < qi_price q)) (cx_open_quotes cx)))"

definition resting_at :: "strategy_context \<Rightarrow> side \<Rightarrow> price \<Rightarrow> bool" where
  "resting_at cx sd p \<longleftrightarrow> list_ex (\<lambda>(id, q). qi_side q = sd \<and> qi_price q = p) (cx_open_quotes cx)"

text \<open>The counter saturates at the largest \<open>u32\<close>.\<close>

definition band_missing :: "decimal_ops \<Rightarrow> wave \<Rightarrow> strategy_context \<Rightarrow> side \<Rightarrow> window_range \<Rightarrow> nat" where
  "band_missing D w cx sd band = min (2 ^ 32 - 1)
     (length (filter (\<lambda>k. case slot_price D w sd k of None \<Rightarrow> False | Some p \<Rightarrow> \<not> resting_at cx sd p)
       [low_k band..high_k band]))"

subsection \<open>Emission\<close>

definition best_price :: "level list \<Rightarrow> price option" where
  "best_price ls = map_option lv_price (first_opt ls)"

definition book_mark :: "decimal_ops \<Rightarrow> snapshot \<Rightarrow> rat" where
  "book_mark D sn = (case (best_price (sn_bids sn), best_price (sn_asks sn)) of
     (Some b, Some a) \<Rightarrow> ddiv D (dadd D b a) 2 | (Some b, None) \<Rightarrow> b | (None, Some a) \<Rightarrow> a | (None, None) \<Rightarrow> 0)"

definition crosses :: "decimal_ops \<Rightarrow> rat \<Rightarrow> snapshot \<Rightarrow> side \<Rightarrow> price \<Rightarrow> bool" where
  "crosses D tick sn sd p = (case sd of
     Bid \<Rightarrow> (case best_price (sn_asks sn) of None \<Rightarrow> False
       | Some ap \<Rightarrow> 0 < ap \<and> 0 < tick \<and> dsub D ap tick < p)
   | Ask \<Rightarrow> (case best_price (sn_bids sn) of None \<Rightarrow> False
       | Some bp \<Rightarrow> 0 < bp \<and> 0 < tick \<and> p < dadd D bp tick))"

definition emitted :: "wave \<Rightarrow> side \<Rightarrow> int set" where
  "emitted w sd = (case sd of Bid \<Rightarrow> wv_emitted_bid w | Ask \<Rightarrow> wv_emitted_ask w)"

definition mark_emitted :: "side \<Rightarrow> int \<Rightarrow> wave \<Rightarrow> wave" where
  "mark_emitted sd k w = (case sd of Bid \<Rightarrow> w\<lparr>wv_emitted_bid := insert k (wv_emitted_bid w)\<rparr>
     | Ask \<Rightarrow> w\<lparr>wv_emitted_ask := insert k (wv_emitted_ask w)\<rparr>)"

definition emit_slot ::
    "decimal_ops \<Rightarrow> strategy_context \<Rightarrow> side \<Rightarrow> int \<Rightarrow> rat \<Rightarrow> int \<Rightarrow> wave \<Rightarrow> (wave \<times> action list) option" where
  "emit_slot D cx sd low boost k w = (case slot_price D w sd k of None \<Rightarrow> Some (w, [])
     | Some p \<Rightarrow>
         if crosses D (wc_tick_size (wv_config w)) (cx_latest_book cx) sd p \<or> p \<le> 0
            \<or> k \<in> emitted w sd \<or> resting_at cx sd p then Some (w, [])
         else map_option (\<lambda>a. (mark_emitted sd k w, [a]))
                (wave_quote D (wv_config w) (cx_symbol cx) sd p (k - low) boost))"

fun emit_slots ::
    "decimal_ops \<Rightarrow> strategy_context \<Rightarrow> side \<Rightarrow> int \<Rightarrow> rat \<Rightarrow> int list \<Rightarrow> wave \<Rightarrow> (wave \<times> action list) option" where
  "emit_slots D cx sd low boost [] w = Some (w, [])"
| "emit_slots D cx sd low boost (k # ks) w = (case emit_slot D cx sd low boost k w of None \<Rightarrow> None
     | Some (w, as) \<Rightarrow> map_option (\<lambda>(w, bs). (w, as @ bs)) (emit_slots D cx sd low boost ks w))"

definition emit_window_slots ::
    "decimal_ops \<Rightarrow> strategy_context \<Rightarrow> side \<Rightarrow> window_range \<Rightarrow> wave \<Rightarrow> (wave \<times> action list) option" where
  "emit_window_slots D cx sd window w =
     (let boost = reduce_size_boost D (wv_config w) (p_size (cx_position cx)) (book_mark D (cx_latest_book cx)) sd
      in emit_slots D cx sd (low_k window) boost [low_k window..high_k window] w)"

text \<open>Both sides, bids first.\<close>

definition emit_both ::
    "decimal_ops \<Rightarrow> strategy_context \<Rightarrow> window_range \<Rightarrow> window_range \<Rightarrow> wave \<Rightarrow> (wave \<times> action list) option" where
  "emit_both D cx bb ab w = (case emit_window_slots D cx Bid bb w of None \<Rightarrow> None
     | Some (w, as) \<Rightarrow> map_option (\<lambda>(w, bs). (w, as @ bs)) (emit_window_slots D cx Ask ab w))"

subsection \<open>The reduce anchor\<close>

definition wave_levels :: "wave \<Rightarrow> int" where
  "wave_levels w = int (unat (max (wc_levels (wv_config w)) 1))"

definition window_from :: "wave \<Rightarrow> int \<Rightarrow> window_range" where
  "window_from w k = \<lparr>low_k = k, high_k = k + wave_levels w - 1\<rparr>"

definition reduce_anchor_band ::
    "decimal_ops \<Rightarrow> wave \<Rightarrow> strategy_context \<Rightarrow> window_range \<Rightarrow> window_range \<Rightarrow> (side \<times> window_range) option" where
  "reduce_anchor_band D w cx bid_touch ask_touch =
     (let pos = p_size (cx_position cx); avg = p_avg_entry (cx_position cx)
      in if wv_step w = None \<or> pos = 0 then None
         else if 0 < pos then
           let floor_px = (case wv_last_bid_fill w of Some p \<Rightarrow> p | None \<Rightarrow> avg)
           in if floor_px \<le> 0 then None
              else map_option (\<lambda>k. (Ask, window_from w (max (low_k ask_touch) k))) (ask_k_at_or_above D w floor_px)
         else
           let floor_px = (case wv_last_ask_fill w of Some p \<Rightarrow> p | None \<Rightarrow> avg)
           in if floor_px \<le> 0 then None
              else map_option (\<lambda>k. (Bid, window_from w (max (low_k bid_touch) k))) (bid_k_at_or_below D w floor_px))"

subsection \<open>The event handler\<close>

definition note_fill :: "fill \<Rightarrow> wave \<Rightarrow> wave" where
  "note_fill f w = (case f_side f of Bid \<Rightarrow> w\<lparr>wv_last_bid_fill := Some (f_price f)\<rparr>
     | Ask \<Rightarrow> w\<lparr>wv_last_ask_fill := Some (f_price f)\<rparr>)"

text \<open>Everything before the relattice: cleared marks, fills, candles, the frozen lattice.\<close>

definition wave_observe :: "decimal_ops \<Rightarrow> strategy_context \<Rightarrow> wave \<Rightarrow> wave" where
  "wave_observe D cx w =
     (let w = fold note_fill (cx_recent_fills cx) (w\<lparr>wv_emitted_bid := {}, wv_emitted_ask := {}\<rparr>)
      in case (best_price (sn_bids (cx_latest_book cx)), best_price (sn_asks (cx_latest_book cx))) of
           (Some bp, Some ap) \<Rightarrow>
             if 0 < bp \<and> bp < ap then update_candles D (ddiv D (dadd D bp ap) 2) (cx_now cx) w else w
         | _ \<Rightarrow> w)"

definition wave_tops :: "decimal_ops \<Rightarrow> strategy_context \<Rightarrow> wave \<Rightarrow> price option \<times> price option" where
  "wave_tops D cx w = top_overrides D w (best_price (sn_bids (cx_latest_book cx))) (best_price (sn_asks (cx_latest_book cx)))"

definition touch_band_bid :: "decimal_ops \<Rightarrow> strategy_context \<Rightarrow> price option \<Rightarrow> wave \<Rightarrow> window_range option" where
  "touch_band_bid D cx tp w = (case tp of None \<Rightarrow> None | Some t \<Rightarrow>
     if t \<le> 0 then None
     else
       let tick = wc_tick_size (wv_config w);
           cap = (case best_price (sn_asks (cx_latest_book cx)) of
             Some ap \<Rightarrow> if 0 < ap \<and> 0 < tick then min t (dsub D ap tick) else t | None \<Rightarrow> t)
       in map_option (window_from w) (bid_k_at_or_below D w cap))"

definition touch_band_ask :: "decimal_ops \<Rightarrow> strategy_context \<Rightarrow> price option \<Rightarrow> wave \<Rightarrow> window_range option" where
  "touch_band_ask D cx tp w = (case tp of None \<Rightarrow> None | Some t \<Rightarrow>
     if t \<le> 0 then None
     else
       let tick = wc_tick_size (wv_config w);
           cap = (case best_price (sn_bids (cx_latest_book cx)) of
             Some bp \<Rightarrow> if 0 < bp \<and> 0 < tick then max t (dadd D bp tick) else t | None \<Rightarrow> t)
       in map_option (window_from w) (ask_k_at_or_above D w cap))"

definition force_due :: "wave \<Rightarrow> timestamp \<Rightarrow> bool" where
  "force_due w now \<longleftrightarrow> 0 < wc_force_refill_secs (wv_config w) \<and> (case wv_last_refill w of None \<Rightarrow> True
     | Some t \<Rightarrow> sat_mul (wc_force_refill_secs (wv_config w)) 1000000000 \<le> sat_sub now t)"

definition refill_due ::
    "decimal_ops \<Rightarrow> strategy_context \<Rightarrow> window_range \<Rightarrow> window_range \<Rightarrow> wave \<Rightarrow> bool" where
  "refill_due D cx bb ab w =
     (let b = band_missing D w cx Bid bb; a = band_missing D w cx Ask ab;
          thr = unat (max (wc_round_trips (wv_config w)) 1); full = unat (max (wc_levels (wv_config w)) 1)
      in thr \<le> b \<and> thr \<le> a \<or> full \<le> b \<or> full \<le> a \<or> (0 < b \<or> 0 < a) \<and> force_due w (cx_now cx))"

definition prune_side ::
    "decimal_ops \<Rightarrow> wave \<Rightarrow> strategy_context \<Rightarrow> side option \<Rightarrow> side \<Rightarrow> window_range \<Rightarrow> action list" where
  "prune_side D w cx reduce_side sd band =
     (if reduce_side = Some sd then prune_full_window D w cx sd band else prune_trailing_tail D w cx sd band)"

definition wave_bands ::
    "(side \<times> window_range) option \<Rightarrow> window_range \<Rightarrow> window_range \<Rightarrow> window_range \<times> window_range" where
  "wave_bands reduce bb ab = (case reduce of Some (Bid, rb) \<Rightarrow> (rb, ab) | Some (Ask, rb) \<Rightarrow> (bb, rb) | None \<Rightarrow> (bb, ab))"

definition stamp_refill :: "timestamp \<Rightarrow> wave \<Rightarrow> wave" where
  "stamp_refill now w = w\<lparr>wv_last_refill := Some now\<rparr>"

definition wave_place ::
    "decimal_ops \<Rightarrow> strategy_context \<Rightarrow> bool \<Rightarrow> bool \<Rightarrow> window_range \<Rightarrow> window_range \<Rightarrow> wave
      \<Rightarrow> (wave \<times> action list) option" where
  "wave_place D cx relatticed dirty bb_touch ab_touch w =
     (let reduce = reduce_anchor_band D w cx bb_touch ab_touch;
          (bb, ab) = wave_bands reduce bb_touch ab_touch; reduce_side = map_option fst reduce;
          now = cx_now cx
      in if relatticed then map_option (\<lambda>(w, as). (stamp_refill now w, as)) (emit_both D cx bb ab w)
         else if dirty then map_option (\<lambda>(w, as). (stamp_refill now w,
                as @ prune_full_window D w cx Bid bb @ prune_full_window D w cx Ask ab)) (emit_both D cx bb ab w)
         else if refill_due D cx bb ab w then map_option (\<lambda>(w, as). (stamp_refill now w,
                as @ prune_side D w cx reduce_side Bid bb @ prune_side D w cx reduce_side Ask ab)) (emit_both D cx bb ab w)
         else case (wc_reduce_to_avg (wv_config w), reduce_side) of
                (True, Some sd) \<Rightarrow>
                  (let band = (if sd = Bid then bb else ab)
                   in map_option (\<lambda>(w, as). (w, as @ prune_full_window D w cx sd band))
                        (emit_window_slots D cx sd band w))
              | _ \<Rightarrow> Some (w, []))"

definition wave_on_event :: "decimal_ops \<Rightarrow> strategy_context \<Rightarrow> wave \<Rightarrow> (wave \<times> action list) option" where
  "wave_on_event D cx w =
     (let w = wave_observe D cx w; (top_b, top_a) = wave_tops D cx w; w = wave_init D top_b top_a w
      in if \<not> lattice_ready w then Some (w, [])
         else
           let (relatticed, w, cancels) = maybe_relattice D cx top_b top_a w;
               dirty = wv_inner_dirty w; w = w\<lparr>wv_inner_dirty := False\<rparr>
           in case (touch_band_bid D cx top_b w, touch_band_ask D cx top_a w) of
                (Some bb, Some ab) \<Rightarrow> map_option (\<lambda>(w, as). (w, cancels @ as))
                  (wave_place D cx relatticed dirty bb ab w)
              | _ \<Rightarrow> Some (w, cancels))"

definition wave_on_notional_updated :: "rat \<Rightarrow> wave \<Rightarrow> wave \<times> action list" where
  "wave_on_notional_updated n w =
     (if 0 < n then w\<lparr>wv_config := (wv_config w)\<lparr>wc_notional_per_order := n\<rparr>\<rparr> else w, [])"

end
