(* ===== verification/Wave_Laws.thy ===== *)
theory Wave_Laws
  imports Wave
begin

text \<open>
  What the Wave handler promises, for every correctly rounding arithmetic: the orders it emits,
  the state it keeps, and that it settles: an answer that the venue has carried out is followed
  by an empty one.
\<close>

subsection \<open>Frames\<close>

text \<open>The fields no part of the lattice depends on.\<close>

lemma wave_frame [simp]:
  "effective_step_bps (w\<lparr>wv_emitted_bid := x\<rparr>) = effective_step_bps w"
  "effective_step_bps (w\<lparr>wv_emitted_ask := x\<rparr>) = effective_step_bps w"
  "effective_step_bps (w\<lparr>wv_inner_dirty := d\<rparr>) = effective_step_bps w"
  "effective_step_bps (w\<lparr>wv_last_refill := r\<rparr>) = effective_step_bps w"
  "effective_step_bps (w\<lparr>wv_step := s\<rparr>) = effective_step_bps w"
  "effective_step_bps (w\<lparr>wv_bid_origin := o1\<rparr>) = effective_step_bps w"
  "effective_step_bps (w\<lparr>wv_ask_origin := o2\<rparr>) = effective_step_bps w"
  "effective_inner (w\<lparr>wv_emitted_bid := x\<rparr>) = effective_inner w"
  "effective_inner (w\<lparr>wv_emitted_ask := x\<rparr>) = effective_inner w"
  "effective_inner (w\<lparr>wv_inner_dirty := d\<rparr>) = effective_inner w"
  "effective_inner (w\<lparr>wv_last_refill := r\<rparr>) = effective_inner w"
  "effective_inner (w\<lparr>wv_step := s\<rparr>) = effective_inner w"
  "effective_inner (w\<lparr>wv_bid_origin := o1\<rparr>) = effective_inner w"
  "effective_inner (w\<lparr>wv_ask_origin := o2\<rparr>) = effective_inner w"
  by (simp_all add: effective_step_bps_def effective_inner_def Let_def)

lemma compute_step_frame [simp]:
  "compute_step D (w\<lparr>wv_emitted_bid := x\<rparr>) = compute_step D w"
  "compute_step D (w\<lparr>wv_emitted_ask := x\<rparr>) = compute_step D w"
  "compute_step D (w\<lparr>wv_inner_dirty := d\<rparr>) = compute_step D w"
  "compute_step D (w\<lparr>wv_last_refill := r\<rparr>) = compute_step D w"
  "compute_step D (w\<lparr>wv_step := s\<rparr>) = compute_step D w"
  "compute_step D (w\<lparr>wv_bid_origin := o1\<rparr>) = compute_step D w"
  "compute_step D (w\<lparr>wv_ask_origin := o2\<rparr>) = compute_step D w"
  by (simp_all add: compute_step_def fun_eq_iff)

lemma wave_tops_frame [simp]:
  "wave_tops D cx (w\<lparr>wv_emitted_bid := x\<rparr>) = wave_tops D cx w"
  "wave_tops D cx (w\<lparr>wv_emitted_ask := x\<rparr>) = wave_tops D cx w"
  "wave_tops D cx (w\<lparr>wv_inner_dirty := d\<rparr>) = wave_tops D cx w"
  "wave_tops D cx (w\<lparr>wv_last_refill := r\<rparr>) = wave_tops D cx w"
  "wave_tops D cx (w\<lparr>wv_step := s\<rparr>) = wave_tops D cx w"
  "wave_tops D cx (w\<lparr>wv_bid_origin := o1\<rparr>) = wave_tops D cx w"
  "wave_tops D cx (w\<lparr>wv_ask_origin := o2\<rparr>) = wave_tops D cx w"
  "wave_tops D (cx\<lparr>cx_open_quotes := oq\<rparr>) w = wave_tops D cx w"
  by (simp_all add: wave_tops_def top_overrides_def Let_def cong: option.case_cong if_cong)

lemma slot_price_frame [simp]:
  "slot_price D (w\<lparr>wv_emitted_bid := x\<rparr>) = slot_price D w"
  "slot_price D (w\<lparr>wv_emitted_ask := x\<rparr>) = slot_price D w"
  "slot_price D (w\<lparr>wv_inner_dirty := d\<rparr>) = slot_price D w"
  "slot_price D (w\<lparr>wv_last_refill := r\<rparr>) = slot_price D w"
  by (simp_all add: slot_price_def bid_price_def ask_price_def fun_eq_iff split: side.split)

lemma slot_index_frame [simp]:
  "bid_k_at_or_below D (w\<lparr>wv_emitted_bid := x\<rparr>) = bid_k_at_or_below D w"
  "bid_k_at_or_below D (w\<lparr>wv_emitted_ask := x\<rparr>) = bid_k_at_or_below D w"
  "bid_k_at_or_below D (w\<lparr>wv_inner_dirty := d\<rparr>) = bid_k_at_or_below D w"
  "bid_k_at_or_below D (w\<lparr>wv_last_refill := r\<rparr>) = bid_k_at_or_below D w"
  "ask_k_at_or_above D (w\<lparr>wv_emitted_bid := x\<rparr>) = ask_k_at_or_above D w"
  "ask_k_at_or_above D (w\<lparr>wv_emitted_ask := x\<rparr>) = ask_k_at_or_above D w"
  "ask_k_at_or_above D (w\<lparr>wv_inner_dirty := d\<rparr>) = ask_k_at_or_above D w"
  "ask_k_at_or_above D (w\<lparr>wv_last_refill := r\<rparr>) = ask_k_at_or_above D w"
  by (simp_all add: bid_k_at_or_below_def ask_k_at_or_above_def fun_eq_iff)

lemma window_from_frame [simp]:
  "window_from (w\<lparr>wv_emitted_bid := x\<rparr>) = window_from w"
  "window_from (w\<lparr>wv_emitted_ask := x\<rparr>) = window_from w"
  "window_from (w\<lparr>wv_inner_dirty := d\<rparr>) = window_from w"
  "window_from (w\<lparr>wv_last_refill := r\<rparr>) = window_from w"
  by (simp_all add: window_from_def wave_levels_def fun_eq_iff)

lemma band_edges_slots: "band_edges D w sd band = (case sd of
     Bid \<Rightarrow> (case (slot_price D w Bid (high_k band), slot_price D w Bid (low_k band)) of
       (Some deep, Some shallow) \<Rightarrow> Some (deep, shallow) | _ \<Rightarrow> None)
   | Ask \<Rightarrow> (case (slot_price D w Ask (low_k band), slot_price D w Ask (high_k band)) of
       (Some shallow, Some deep) \<Rightarrow> Some (shallow, deep) | _ \<Rightarrow> None))"
  by (cases sd) (simp_all add: band_edges_def slot_price_def)

subsection \<open>Emission\<close>

definition placeable :: "decimal_ops \<Rightarrow> wave \<Rightarrow> strategy_context \<Rightarrow> side \<Rightarrow> int \<Rightarrow> price \<Rightarrow> bool" where
  "placeable D w cx sd k p \<longleftrightarrow> slot_price D w sd k = Some p
     \<and> \<not> crosses D (wc_tick_size (wv_config w)) (cx_latest_book cx) sd p \<and> 0 < p \<and> \<not> resting_at cx sd p"

lemma placeable_frame [simp]:
  "placeable D (w\<lparr>wv_emitted_bid := x\<rparr>) = placeable D w"
  "placeable D (w\<lparr>wv_emitted_ask := x\<rparr>) = placeable D w"
  "placeable D (w\<lparr>wv_inner_dirty := d\<rparr>) = placeable D w"
  "placeable D (w\<lparr>wv_last_refill := r\<rparr>) = placeable D w"
  by (simp_all add: placeable_def fun_eq_iff)

lemma emitted_simps [simp]:
  "emitted (mark_emitted sd k w) sd = insert k (emitted w sd)"
  "emitted (w\<lparr>wv_inner_dirty := d\<rparr>) sd = emitted w sd"
  by (simp_all add: emitted_def mark_emitted_def split: side.splits)

text \<open>States that differ at most in what has been emitted during the event.\<close>

definition clear_marks :: "wave \<Rightarrow> wave" where
  "clear_marks w = w\<lparr>wv_emitted_bid := {}, wv_emitted_ask := {}\<rparr>"

lemma clear_marks_mark [simp]: "clear_marks (mark_emitted sd k w) = clear_marks w"
  by (cases sd) (simp_all add: clear_marks_def mark_emitted_def)

lemma clear_marks_frame:
  "slot_price D (clear_marks w) = slot_price D w" "placeable D (clear_marks w) = placeable D w"
  "wv_config (clear_marks w) = wv_config w"
  by (simp_all add: clear_marks_def)

lemma marks_frame:
  assumes "clear_marks w = clear_marks w'"
  shows "slot_price D w = slot_price D w'" "placeable D w = placeable D w'"
    "wv_config w = wv_config w'" "emitted (clear_marks w) sd = {}"
  using arg_cong [OF assms, of "slot_price D"] arg_cong [OF assms, of "placeable D"]
    arg_cong [OF assms, of wv_config]
  by (simp_all add: clear_marks_frame) (simp add: emitted_def clear_marks_def split: side.split)

lemma emit_slot_cases:
  assumes "emit_slot D cx sd low boost k w = Some (w', acts)"
  obtains "w' = w" "acts = []" "\<And>p. placeable D w cx sd k p \<Longrightarrow> k \<in> emitted w sd"
  | p q where "placeable D w cx sd k p" "k \<notin> emitted w sd" "w' = mark_emitted sd k w"
      "acts = [Quote (make_post_only_intent (cx_symbol cx) sd p q)]"
proof (cases "\<exists>p. placeable D w cx sd k p \<and> k \<notin> emitted w sd")
  case True
  then obtain p where p: "placeable D w cx sd k p" "k \<notin> emitted w sd" by blast
  then have "emit_slot D cx sd low boost k w = map_option (\<lambda>a. (mark_emitted sd k w, [a]))
      (wave_quote D (wv_config w) (cx_symbol cx) sd p (k - low) boost)"
    by (simp add: emit_slot_def placeable_def)
  with assms obtain a where "wave_quote D (wv_config w) (cx_symbol cx) sd p (k - low) boost = Some a"
    and a: "w' = mark_emitted sd k w" "acts = [a]" by auto
  moreover from this(1) obtain q where "a = Quote (make_post_only_intent (cx_symbol cx) sd p q)"
    unfolding wave_quote_def by blast
  ultimately show ?thesis using that(2) p by simp
next
  case False
  then have "emit_slot D cx sd low boost k w = Some (w, [])"
    by (auto simp: emit_slot_def placeable_def split: option.split)
  with assms False show ?thesis by (intro that(1)) auto
qed

lemma emit_slots_spec:
  assumes "emit_slots D cx sd low boost ks w = Some (w', acts)"
  shows "clear_marks w' = clear_marks w
    \<and> (\<forall>a \<in> set acts. \<exists>k \<in> set ks. \<exists>p q. placeable D w cx sd k p
           \<and> a = Quote (make_post_only_intent (cx_symbol cx) sd p q))
    \<and> (\<forall>k \<in> set ks. \<forall>p. placeable D w cx sd k p \<longrightarrow> k \<notin> emitted w sd
           \<longrightarrow> (\<exists>q. Quote (make_post_only_intent (cx_symbol cx) sd p q) \<in> set acts))"
  using assms
proof (induction ks arbitrary: w acts)
  case (Cons k ks)
  from Cons.prems obtain w1 as bs where
    1: "emit_slot D cx sd low boost k w = Some (w1, as)"
    and 2: "emit_slots D cx sd low boost ks w1 = Some (w', bs)" and acts: "acts = as @ bs"
    by (auto split: option.splits)
  note IH = Cons.IH [OF 2]
  from 1 show ?case
  proof (cases rule: emit_slot_cases)
    case 1
    with IH acts show ?thesis by auto
  next
    case (2 p q)
    have m: "clear_marks w1 = clear_marks w" by (simp add: 2(3))
    note p = marks_frame(2) [OF m, of D]
    have e: "emitted w1 sd = insert k (emitted w sd)" by (simp add: 2(3))
    have same: "p' = p" if "placeable D w cx sd k p'" for p' using that 2(1) by (simp add: placeable_def)
    from IH have IH1: "clear_marks w' = clear_marks w"
      and IH2: "\<And>a. a \<in> set bs \<Longrightarrow> \<exists>k \<in> set ks. \<exists>p q. placeable D w cx sd k p
           \<and> a = Quote (make_post_only_intent (cx_symbol cx) sd p q)"
      and IH3: "\<And>k' p. k' \<in> set ks \<Longrightarrow> placeable D w cx sd k' p \<Longrightarrow> k' \<notin> insert k (emitted w sd)
           \<Longrightarrow> \<exists>q. Quote (make_post_only_intent (cx_symbol cx) sd p q) \<in> set bs"
      unfolding p e m by blast+
    have "\<exists>q'. Quote (make_post_only_intent (cx_symbol cx) sd p' q') \<in> set acts"
      if "k' \<in> set (k # ks)" "placeable D w cx sd k' p'" "k' \<notin> emitted w sd" for k' p'
      using that same [of p'] IH3 [of k' p'] by (cases "k' = k") (auto simp: acts 2(4))
    moreover have "\<exists>k' \<in> set (k # ks). \<exists>p q. placeable D w cx sd k' p
        \<and> a = Quote (make_post_only_intent (cx_symbol cx) sd p q)" if "a \<in> set acts" for a
      using that IH2 [of a] 2(1) by (auto simp: acts 2(4))
    ultimately show ?thesis using IH1 by blast
  qed
qed simp

lemma emit_slots_none:
  "\<forall>k \<in> set ks. \<forall>p. \<not> placeable D w cx sd k p \<Longrightarrow> emit_slots D cx sd low boost ks w = Some (w, [])"
proof (induction ks)
  case (Cons k ks)
  have "emit_slot D cx sd low boost k w = Some (w, [])"
    using Cons.prems by (auto simp: emit_slot_def placeable_def split: option.splits)
  with Cons show ?case by simp
qed simp

abbreviation wave_order :: "strategy_context \<Rightarrow> side \<Rightarrow> price \<Rightarrow> qsize \<Rightarrow> action" where
  "wave_order cx sd p q \<equiv> Quote (make_post_only_intent (cx_symbol cx) sd p q)"

definition band_slots :: "window_range \<Rightarrow> int list" where
  "band_slots b = [low_k b..high_k b]"

lemma emit_window_spec:
  assumes "emit_window_slots D cx sd b w = Some (w', acts)"
  shows "clear_marks w' = clear_marks w"
    and "a \<in> set acts \<Longrightarrow> \<exists>k \<in> set (band_slots b). \<exists>p q. placeable D w cx sd k p \<and> a = wave_order cx sd p q"
    and "emitted w sd = {} \<Longrightarrow> k \<in> set (band_slots b) \<Longrightarrow> placeable D w cx sd k p \<Longrightarrow> \<exists>q. wave_order cx sd p q \<in> set acts"
  using emit_slots_spec [OF assms [unfolded emit_window_slots_def Let_def]] unfolding band_slots_def by blast+

lemma emit_window_none:
  "\<forall>k \<in> set (band_slots b). \<forall>p. \<not> placeable D w cx sd k p \<Longrightarrow> emit_window_slots D cx sd b w = Some (w, [])"
  unfolding emit_window_slots_def Let_def band_slots_def by (rule emit_slots_none)

text \<open>Emission on one side does not touch the marks of the other.\<close>

lemma emit_slots_other:
  "emit_slots D cx sd low boost ks w = Some (w', acts) \<Longrightarrow> sd' \<noteq> sd \<Longrightarrow> emitted w' sd' = emitted w sd'"
proof (induction ks arbitrary: w acts)
  case (Cons k ks)
  from Cons.prems(1) obtain w1 as bs where
    1: "emit_slot D cx sd low boost k w = Some (w1, as)" and 2: "emit_slots D cx sd low boost ks w1 = Some (w', bs)"
    by (auto split: option.splits)
  from 1 have "emitted w1 sd' = emitted w sd'"
    by (cases rule: emit_slot_cases)
      (use Cons.prems(2) in \<open>auto simp: emitted_def mark_emitted_def split: side.splits\<close>)
  with Cons.IH [OF 2 Cons.prems(2)] show ?case by simp
qed simp

lemma emit_both_spec:
  assumes "emit_both D cx bb ab w = Some (w', acts)"
  shows "clear_marks w' = clear_marks w"
    and "a \<in> set acts \<Longrightarrow> \<exists>sd. \<exists>k \<in> set (band_slots (if sd = Bid then bb else ab)). \<exists>p q.
           placeable D w cx sd k p \<and> a = wave_order cx sd p q"
    and "w = clear_marks w \<Longrightarrow> k \<in> set (band_slots (if sd = Bid then bb else ab)) \<Longrightarrow> placeable D w cx sd k p
           \<Longrightarrow> \<exists>q. wave_order cx sd p q \<in> set acts"
proof -
  from assms obtain w1 as bs where
    1: "emit_window_slots D cx Bid bb w = Some (w1, as)" and 2: "emit_window_slots D cx Ask ab w1 = Some (w', bs)"
    and acts: "acts = as @ bs" by (auto simp: emit_both_def split: option.splits)
  note s1 = emit_window_spec [OF 1] and s2 = emit_window_spec [OF 2]
  note p = marks_frame(2) [OF s1(1), of D]
  show "clear_marks w' = clear_marks w" using s1(1) s2(1) by simp
  show "\<exists>sd. \<exists>k \<in> set (band_slots (if sd = Bid then bb else ab)). \<exists>p q.
           placeable D w cx sd k p \<and> a = wave_order cx sd p q" if "a \<in> set acts"
    using that s1(2) [of a] s2(2) [of a] unfolding p acts by fastforce
  show "\<exists>q. wave_order cx sd p q \<in> set acts"
    if w: "w = clear_marks w" and k: "k \<in> set (band_slots (if sd = Bid then bb else ab))" "placeable D w cx sd k p"
  proof -
    have e: "emitted w sd' = {}" for sd' using marks_frame(4) [OF refl, of w] w by metis
    have "emitted w1 Ask = emitted w Ask"
      using emit_slots_other [OF 1 [unfolded emit_window_slots_def Let_def]] by simp
    with e s1(3) [of k p] s2(3) [of k p] k show ?thesis unfolding p acts by (cases sd) auto
  qed
qed

lemma emit_both_none:
  assumes "\<And>sd k p. k \<in> set (band_slots (if sd = Bid then bb else ab)) \<Longrightarrow> \<not> placeable D w cx sd k p"
  shows "emit_both D cx bb ab w = Some (w, [])"
proof -
  have "emit_window_slots D cx Bid bb w = Some (w, [])" "emit_window_slots D cx Ask ab w = Some (w, [])"
    using assms [where sd = Bid] assms [where sd = Ask] by (auto intro!: emit_window_none)
  then show ?thesis by (simp add: emit_both_def)
qed

subsection \<open>The stages of the handler\<close>

definition prepared :: "decimal_ops \<Rightarrow> strategy_context \<Rightarrow> wave \<Rightarrow> wave" where
  "prepared D cx w = (let w = wave_observe D cx w; (top_b, top_a) = wave_tops D cx w in wave_init D top_b top_a w)"

text \<open>The answer of the relattice to the prepared state.\<close>

definition relattice :: "decimal_ops \<Rightarrow> strategy_context \<Rightarrow> wave \<Rightarrow> bool \<times> wave \<times> action list" where
  "relattice D cx w = (case wave_tops D cx w of (top_b, top_a) \<Rightarrow> maybe_relattice D cx top_b top_a w)"

definition touch_bands :: "decimal_ops \<Rightarrow> strategy_context \<Rightarrow> wave \<Rightarrow> (window_range \<times> window_range) option" where
  "touch_bands D cx w = (case wave_tops D cx w of (top_b, top_a) \<Rightarrow>
     (case (touch_band_bid D cx top_b w, touch_band_ask D cx top_a w) of (Some bb, Some ab) \<Rightarrow> Some (bb, ab) | _ \<Rightarrow> None))"

definition wave_finish ::
    "decimal_ops \<Rightarrow> strategy_context \<Rightarrow> bool \<times> wave \<times> action list \<Rightarrow> (wave \<times> action list) option" where
  "wave_finish D cx r = (case r of (relatticed, w, cancels) \<Rightarrow>
     (let dirty = wv_inner_dirty w; w = w\<lparr>wv_inner_dirty := False\<rparr>
      in case touch_bands D cx w of None \<Rightarrow> Some (w, cancels)
         | Some (bb, ab) \<Rightarrow> map_option (\<lambda>(w, as). (w, cancels @ as)) (wave_place D cx relatticed dirty bb ab w)))"

lemma wave_tops_init [simp]: "wave_tops D cx (wave_init D tb ta w) = wave_tops D cx w"
  by (auto simp: wave_init_def split: option.split)

lemma wave_tops_relattice:
  "relattice D cx w = (rel, w', cancels) \<Longrightarrow> wave_tops D cx w' = wave_tops D cx w"
  by (auto simp: relattice_def maybe_relattice_def Let_def split: option.splits prod.splits if_splits)

lemma wave_on_event_stages:
  "wave_on_event D cx w = (let w = prepared D cx w
     in if lattice_ready w then wave_finish D cx (relattice D cx w) else Some (w, []))"
proof -
  obtain tb ta where t: "wave_tops D cx (wave_observe D cx w) = (tb, ta)" by fastforce
  define w2 where "w2 = wave_init D tb ta (wave_observe D cx w)"
  obtain rel w3 cs where r: "relattice D cx w2 = (rel, w3, cs)" by (metis prod_cases3)
  have t2: "wave_tops D cx w2 = (tb, ta)" using t by (simp add: w2_def)
  then have "maybe_relattice D cx tb ta w2 = (rel, w3, cs)" "wave_tops D cx w3 = (tb, ta)"
    using r wave_tops_relattice [OF r] by (simp_all add: relattice_def)
  then show ?thesis
    unfolding wave_on_event_def prepared_def Let_def t prod.case w2_def [symmetric] r
    by (auto simp: wave_finish_def touch_bands_def Let_def split: option.split)
qed

subsection \<open>Cancellations\<close>

definition outside :: "decimal_ops \<Rightarrow> wave \<Rightarrow> side \<Rightarrow> window_range \<Rightarrow> price \<Rightarrow> bool" where
  "outside D w sd b p \<longleftrightarrow> (case band_edges D w sd b of None \<Rightarrow> False | Some (lo, hi) \<Rightarrow> p < lo \<or> hi < p)"

definition beyond :: "decimal_ops \<Rightarrow> wave \<Rightarrow> side \<Rightarrow> window_range \<Rightarrow> price \<Rightarrow> bool" where
  "beyond D w sd b p \<longleftrightarrow> (case slot_price D w sd (high_k b) of None \<Rightarrow> False
     | Some edge \<Rightarrow> (case sd of Bid \<Rightarrow> p < edge | Ask \<Rightarrow> edge < p))"

definition cancel_where :: "strategy_context \<Rightarrow> (quote_intent \<Rightarrow> bool) \<Rightarrow> action list" where
  "cancel_where cx P = map (\<lambda>(id, q). Cancel id) (filter (\<lambda>(id, q). P q) (cx_open_quotes cx))"

lemma prune_full_where:
  "prune_full_window D w cx sd b = cancel_where cx (\<lambda>q. qi_side q = sd \<and> outside D w sd b (qi_price q))"
  by (simp add: prune_full_window_def outside_def cancel_where_def split: option.split)

lemma prune_trailing_where:
  "prune_trailing_tail D w cx sd b = cancel_where cx (\<lambda>q. qi_side q = sd \<and> beyond D w sd b (qi_price q))"
  by (simp add: prune_trailing_tail_def beyond_def cancel_where_def split: option.split)

lemma cancel_where_mem:
  "a \<in> set (cancel_where cx P) \<longleftrightarrow> (\<exists>id q. (id, q) \<in> set (cx_open_quotes cx) \<and> P q \<and> a = Cancel id)"
  by (auto simp: cancel_where_def)

lemma cancel_where_Nil: "cancel_where cx P = [] \<longleftrightarrow> (\<forall>(id, q) \<in> set (cx_open_quotes cx). \<not> P q)"
  by (auto simp: cancel_where_def filter_empty_conv)

text \<open>What a side may lose: orders outside its band.\<close>

definition prunable :: "decimal_ops \<Rightarrow> wave \<Rightarrow> side \<Rightarrow> window_range \<Rightarrow> price \<Rightarrow> bool" where
  "prunable D w sd b p \<longleftrightarrow> outside D w sd b p \<or> beyond D w sd b p"

lemma prune_side_mem:
  "a \<in> set (prune_side D w cx r sd b) \<Longrightarrow>
     \<exists>id q. (id, q) \<in> set (cx_open_quotes cx) \<and> qi_side q = sd \<and> prunable D w sd b (qi_price q) \<and> a = Cancel id"
  "a \<in> set (prune_full_window D w cx sd b) \<Longrightarrow>
     \<exists>id q. (id, q) \<in> set (cx_open_quotes cx) \<and> qi_side q = sd \<and> prunable D w sd b (qi_price q) \<and> a = Cancel id"
  by (auto simp: prune_side_def prune_full_where prune_trailing_where cancel_where_mem prunable_def split: if_splits)

definition pick_band :: "window_range \<times> window_range \<Rightarrow> side \<Rightarrow> window_range" where
  "pick_band bs sd = (if sd = Bid then fst bs else snd bs)"

lemma pick_band_simps [simp]: "pick_band bs Bid = fst bs" "pick_band bs Ask = snd bs"
  by (simp_all add: pick_band_def)

definition anchored_bands ::
    "decimal_ops \<Rightarrow> wave \<Rightarrow> strategy_context \<Rightarrow> window_range \<times> window_range \<Rightarrow> window_range \<times> window_range" where
  "anchored_bands D w cx t = wave_bands (reduce_anchor_band D w cx (fst t) (snd t)) (fst t) (snd t)"

lemma prune_slots:
  assumes p: "slot_price D v = slot_price D w"
  shows "outside D v = outside D w" "beyond D v = beyond D w"
    "prune_full_window D v = prune_full_window D w" "prune_side D v = prune_side D w"
proof -
  show o: "outside D v = outside D w" and b: "beyond D v = beyond D w"
    by (intro ext, simp only: outside_def beyond_def band_edges_slots p)+
  show "prune_full_window D v = prune_full_window D w" "prune_side D v = prune_side D w"
    by (simp_all add: fun_eq_iff prune_side_def prune_full_where prune_trailing_where o b)
qed

lemmas prune_marks = prune_slots(3,4) [OF marks_frame(1)]

lemma wave_place_cases:
  assumes pl: "wave_place D cx rel dirty bt aa w = Some (w', acts)"
    and wb: "wave_bands (reduce_anchor_band D w cx bt aa) bt aa = (bb, ab)"
  obtains (Both) v as cs where "emit_both D cx bb ab w = Some (v, as)" "w' = stamp_refill (cx_now cx) v" "acts = as @ cs"
      "rel \<and> cs = []
       \<or> \<not> rel \<and> dirty \<and> cs = prune_full_window D w cx Bid bb @ prune_full_window D w cx Ask ab
       \<or> \<not> rel \<and> cs = prune_side D w cx (map_option fst (reduce_anchor_band D w cx bt aa)) Bid bb
           @ prune_side D w cx (map_option fst (reduce_anchor_band D w cx bt aa)) Ask ab"
  | (Side) sd as where "\<not> rel" "\<not> dirty" "\<not> refill_due D cx bb ab w"
      "map_option fst (reduce_anchor_band D w cx bt aa) = Some sd"
      "emit_window_slots D cx sd (pick_band (bb, ab) sd) w = Some (w', as)"
      "acts = as @ prune_full_window D w cx sd (pick_band (bb, ab) sd)"
  | (Quiet) "\<not> rel" "\<not> dirty" "\<not> refill_due D cx bb ab w" "w' = w" "acts = []"
      "\<not> (wc_reduce_to_avg (wv_config w) \<and> map_option fst (reduce_anchor_band D w cx bt aa) \<noteq> None)"
proof -
  let ?r = "map_option fst (reduce_anchor_band D w cx bt aa)"
  note pl' = pl [unfolded wave_place_def Let_def wb prod.case]
  show thesis
  proof (cases "rel \<or> dirty \<or> refill_due D cx bb ab w")
    case True
    with pl' obtain v as where v: "emit_both D cx bb ab w = Some (v, as)" "w' = stamp_refill (cx_now cx) v"
      and acts: "acts = as @ (if rel then [] else if dirty then prune_full_window D v cx Bid bb @ prune_full_window D v cx Ask ab
             else prune_side D v cx ?r Bid bb @ prune_side D v cx ?r Ask ab)"
      by (cases "emit_both D cx bb ab w"; cases rel; cases dirty) (simp_all split: prod.splits)
    then show thesis
      by (intro Both [OF v acts]) (simp add: prune_marks [OF emit_both_spec(1) [OF v(1)]])
  next
    case False
    then have c: "(case (wc_reduce_to_avg (wv_config w), ?r) of
        (True, Some sd) \<Rightarrow> map_option (\<lambda>(v, as). (v, as @ prune_full_window D v cx sd (pick_band (bb, ab) sd)))
          (emit_window_slots D cx sd (pick_band (bb, ab) sd) w) | _ \<Rightarrow> Some (w, [])) = Some (w', acts)"
      unfolding pick_band_def fst_conv snd_conv using pl' by simp
    show thesis
    proof (cases "wc_reduce_to_avg (wv_config w) \<and> ?r \<noteq> None")
      case True
      then obtain sd where sd: "?r = Some sd" by auto
      with c True obtain as where as: "emit_window_slots D cx sd (pick_band (bb, ab) sd) w = Some (w', as)"
          "acts = as @ prune_full_window D w' cx sd (pick_band (bb, ab) sd)" by auto
      with sd False show thesis
        by (intro Side [OF _ _ _ sd as(1)]) (simp_all add: prune_marks [OF emit_window_spec(1) [OF as(1)]])
    next
      case n: False
      with c have "w' = w" "acts = []" by (auto split: bool.splits option.splits)
      with False n show thesis by (intro Quiet) auto
    qed
  qed
qed

lemma wave_place_spec:
  assumes "wave_place D cx rel dirty bt aa w = Some (w', acts)" "bs = anchored_bands D w cx (bt, aa)"
  shows "\<exists>r. clear_marks w' = (clear_marks w)\<lparr>wv_last_refill := r\<rparr>"
    and "a \<in> set acts \<Longrightarrow>
      (\<exists>sd. \<exists>k \<in> set (band_slots (pick_band bs sd)). \<exists>p q. placeable D w cx sd k p \<and> a = wave_order cx sd p q)
      \<or> (\<exists>id q. (id, q) \<in> set (cx_open_quotes cx) \<and> prunable D w (qi_side q) (pick_band bs (qi_side q)) (qi_price q)
           \<and> a = Cancel id)"
proof -
  obtain bb ab where b: "bs = (bb, ab)" by fastforce
  let ?r = "map_option fst (reduce_anchor_band D w cx bt aa)"
  have wb: "wave_bands (reduce_anchor_band D w cx bt aa) bt aa = (bb, ab)"
    using assms(2) b by (simp add: anchored_bands_def)
  have stamped: "clear_marks (stamp_refill now v) = (clear_marks w)\<lparr>wv_last_refill := Some now\<rparr>"
    if "clear_marks v = clear_marks w" for v now
    unfolding that [symmetric] by (cases v) (simp add: stamp_refill_def clear_marks_def)
  have kept: "\<exists>r. clear_marks v = (clear_marks w)\<lparr>wv_last_refill := r\<rparr>" if "clear_marks v = clear_marks w" for v
    using that by (intro exI [of _ "wv_last_refill w"]) (simp add: clear_marks_def)
  note cases = wave_place_cases [OF assms(1) wb]
  show "\<exists>r. clear_marks w' = (clear_marks w)\<lparr>wv_last_refill := r\<rparr>"
  proof (cases rule: cases)
    case (1 v as cs)
    then show ?thesis using stamped [OF emit_both_spec(1)] by blast
  next
    case (2 sd as)
    show ?thesis by (rule kept [OF emit_window_spec(1) [OF 2(5)]])
  qed (use kept [OF refl] in simp)
  assume a: "a \<in> set acts"
  show "(\<exists>sd. \<exists>k \<in> set (band_slots (pick_band bs sd)). \<exists>p q. placeable D w cx sd k p \<and> a = wave_order cx sd p q)
      \<or> (\<exists>id q. (id, q) \<in> set (cx_open_quotes cx) \<and> prunable D w (qi_side q) (pick_band bs (qi_side q)) (qi_price q)
           \<and> a = Cancel id)"
  proof (cases rule: cases)
    case (1 v as cs)
    consider "a \<in> set as" | "a \<in> set cs" using a 1(3) by auto
    then show ?thesis
    proof cases
      case 1
      with emit_both_spec(2) [OF \<open>emit_both D cx bb ab w = Some (v, as)\<close> 1] show ?thesis
        unfolding b pick_band_def fst_conv snd_conv by blast
    next
      case 2
      then obtain sd where "a \<in> set (prune_full_window D w cx sd (pick_band bs sd))
          \<or> a \<in> set (prune_side D w cx ?r sd (pick_band bs sd))"
        using 1(4) that [of Bid] that [of Ask] unfolding b by auto
      then show ?thesis by (elim disjE) (drule prune_side_mem, blast)+
    qed
  next
    case (2 sd as)
    then show ?thesis using a emit_window_spec(2) [OF 2(5)] prune_side_mem(2) unfolding b by fastforce
  qed (use a in simp)
qed

subsection \<open>Orders\<close>

lemma clear_marks_dirty: "clear_marks (w\<lparr>wv_inner_dirty := d\<rparr>) = (clear_marks w)\<lparr>wv_inner_dirty := d\<rparr>"
  by (simp add: clear_marks_def)

lemma refill_frame:
  assumes "\<exists>r. clear_marks w' = (clear_marks w)\<lparr>wv_last_refill := r\<rparr>"
  shows "slot_price D w' = slot_price D w" "wv_config w' = wv_config w"
proof -
  obtain r where r: "clear_marks w' = (clear_marks w)\<lparr>wv_last_refill := r\<rparr>" using assms by blast
  show "slot_price D w' = slot_price D w" "wv_config w' = wv_config w"
    using arg_cong [OF r, of "slot_price D"] arg_cong [OF r, of wv_config] by (simp_all add: clear_marks_frame)
qed

text \<open>
  C28: Every order the Wave handler emits is a post-only order of its symbol at a positive price
  that is a slot of its lattice, stays a tick away from the opposite touch, and is not a
  duplicate of an order already resting there; whatever else it answers cancels a resting order.
\<close>

theorem wave_orders_safe:
  assumes "wave_on_event D cx w = Some (w', acts)" "a \<in> set acts"
  shows "case a of
      Quote q \<Rightarrow> qi_symbol q = cx_symbol cx \<and> qi_tif q = PostOnly \<and> 0 < qi_price q
        \<and> (\<exists>k. slot_price D w' (qi_side q) k = Some (qi_price q))
        \<and> \<not> crosses D (wc_tick_size (wv_config w')) (cx_latest_book cx) (qi_side q) (qi_price q)
        \<and> \<not> resting_at cx (qi_side q) (qi_price q)
    | Cancel i \<Rightarrow> i \<in> fst ` set (cx_open_quotes cx)
    | _ \<Rightarrow> False"
proof -
  let ?w = "prepared D cx w"
  have ready: "lattice_ready ?w" using assms by (auto simp: wave_on_event_stages Let_def split: if_splits)
  obtain rel v cs where r: "relattice D cx ?w = (rel, v, cs)" by (metis prod_cases3)
  have cs: "b \<in> set cs \<Longrightarrow> \<exists>id \<in> fst ` set (cx_open_quotes cx). b = Cancel id" for b
    using r by (force simp: relattice_def maybe_relattice_def Let_def split: prod.splits option.splits if_splits)
  let ?v = "v\<lparr>wv_inner_dirty := False\<rparr>"
  have fin: "wave_finish D cx (rel, v, cs) = Some (w', acts)"
    using assms(1) ready r by (simp add: wave_on_event_stages)
  show ?thesis
  proof (cases "touch_bands D cx ?v")
    case None
    with fin have "acts = cs" by (simp add: wave_finish_def Let_def)
    with assms(2) show ?thesis by (force dest!: cs)
  next
    case (Some t)
    obtain bt aa where t: "t = (bt, aa)" by fastforce
    with Some fin obtain as where pl: "wave_place D cx rel (wv_inner_dirty v) bt aa ?v = Some (w', as)"
      and acts: "acts = cs @ as" by (auto simp: wave_finish_def Let_def)
    note frame = refill_frame [OF wave_place_spec(1) [OF pl refl]]
    from assms(2) acts consider "a \<in> set cs" | "a \<in> set as" by auto
    then show ?thesis
    proof cases
      case 1
      then show ?thesis by (force dest!: cs)
    next
      case 2
      from wave_place_spec(2) [OF pl refl this] show ?thesis
        by (elim disjE exE bexE conjE)
          (auto simp: make_post_only_intent_def placeable_def frame rev_image_eqI)
    qed
  qed
qed

end
