(* ===== verification/Wave_Settles.thy ===== *)
theory Wave_Settles
  imports Wave_Laws
begin

text \<open>
  The Wave handler settles: once the venue has carried out an answer, the same book is answered
  with nothing, because what was missing is there, what was outside the bands is gone, and no
  counter that fires a refill can have grown.
\<close>

subsection \<open>Observing the same book again\<close>

definition last_price :: "side \<Rightarrow> fill list \<Rightarrow> rat option \<Rightarrow> rat option" where
  "last_price sd fs x = fold (\<lambda>f x. if f_side f = sd then Some (f_price f) else x) fs x"

lemma last_price_again: "last_price sd fs (last_price sd fs x) = last_price sd fs x"
proof -
  have "last_price sd fs x = last_price sd fs y \<or> (\<forall>z. last_price sd fs z = z)" for x y
    by (induction fs arbitrary: x y) (auto simp: last_price_def)
  then show ?thesis by metis
qed

lemma fold_note_fill: "fold note_fill fs w = w\<lparr>wv_last_bid_fill := last_price Bid fs (wv_last_bid_fill w),
    wv_last_ask_fill := last_price Ask fs (wv_last_ask_fill w)\<rparr>"
proof (induction fs arbitrary: w)
  case (Cons f fs)
  then show ?case by (cases "f_side f"; cases w) (simp_all add: note_fill_def last_price_def)
qed (simp add: last_price_def)

definition same_view :: "wave \<Rightarrow> wave \<Rightarrow> bool" where
  "same_view w w' \<longleftrightarrow> wv_config w' = wv_config w \<and> wv_candle_sec w' = wv_candle_sec w
     \<and> wv_candle_high w' = wv_candle_high w \<and> wv_candle_low w' = wv_candle_low w
     \<and> wv_last_bid_fill w' = wv_last_bid_fill w \<and> wv_last_ask_fill w' = wv_last_ask_fill w"

lemma close_candle_frame [simp]:
  "wv_config (close_candle D w) = wv_config w" "wv_last_bid_fill (close_candle D w) = wv_last_bid_fill w"
  "wv_last_ask_fill (close_candle D w) = wv_last_ask_fill w" "wv_step (close_candle D w) = wv_step w"
  "wv_emitted_bid (close_candle D w) = wv_emitted_bid w" "wv_emitted_ask (close_candle D w) = wv_emitted_ask w"
  "wv_bid_origin (close_candle D w) = wv_bid_origin w" "wv_ask_origin (close_candle D w) = wv_ask_origin w"
  by (simp_all add: close_candle_def recompute_dyn_inner_def recompute_dyn_step_def Let_def)

lemma update_candles_frame [simp]:
  "wv_config (update_candles D mid now w) = wv_config w"
  "wv_last_bid_fill (update_candles D mid now w) = wv_last_bid_fill w"
  "wv_last_ask_fill (update_candles D mid now w) = wv_last_ask_fill w"
  "wv_emitted_bid (update_candles D mid now w) = wv_emitted_bid w"
  "wv_emitted_ask (update_candles D mid now w) = wv_emitted_ask w"
  by (simp_all add: update_candles_def open_candle_def Let_def split: option.split)

lemma update_candles_again:
  assumes "same_view (update_candles D mid now w) w'"
  shows "update_candles D mid now w' = w'"
proof (cases "(wc_auto_inner (wv_config w) \<or> wc_auto_step (wv_config w)) \<and> 0 < mid")
  case False
  moreover have "wv_config w' = wv_config w" using assms by (simp add: same_view_def)
  ultimately show ?thesis by (auto simp: update_candles_def)
next
  case True
  let ?u = "update_candles D mid now w"
  have u: "wv_candle_sec ?u = Some (now div candle_nanos) \<and> \<not> wv_candle_high ?u < mid \<and> \<not> mid < wv_candle_low ?u"
    using True by (simp add: update_candles_def open_candle_def Let_def split: option.split)
  then have "wv_candle_sec w' = Some (now div candle_nanos)" "\<not> wv_candle_high w' < mid" "\<not> mid < wv_candle_low w'"
    using assms by (simp_all add: same_view_def)
  then show ?thesis by (simp add: update_candles_def Let_def)
qed

lemma observe_again:
  assumes "same_view (wave_observe D cx w) w'"
  shows "wave_observe D (cx\<lparr>cx_open_quotes := oq\<rparr>) w' = clear_marks w'"
proof -
  let ?f = "\<lambda>w. fold note_fill (cx_recent_fills cx) (w\<lparr>wv_emitted_bid := {}, wv_emitted_ask := {}\<rparr>)"
  let ?b = "best_price (sn_bids (cx_latest_book cx))" and ?a = "best_price (sn_asks (cx_latest_book cx))"
  have fills: "wv_last_bid_fill w' = last_price Bid (cx_recent_fills cx) (wv_last_bid_fill w)"
      "wv_last_ask_fill w' = last_price Ask (cx_recent_fills cx) (wv_last_ask_fill w)"
    using assms by (simp_all add: same_view_def wave_observe_def fold_note_fill Let_def split: option.splits if_splits)
  have f: "?f w' = clear_marks w'"
    by (cases w') (use fills in \<open>simp add: fold_note_fill clear_marks_def last_price_again\<close>)
  show ?thesis
  proof (cases "\<exists>bp ap. ?b = Some bp \<and> ?a = Some ap \<and> 0 < bp \<and> bp < ap")
    case True
    then obtain bp ap where ba: "?b = Some bp" "?a = Some ap" "0 < bp" "bp < ap" by blast
    let ?m = "ddiv D (dadd D bp ap) 2"
    have "wave_observe D cx w = update_candles D ?m (cx_now cx) (?f w)"
      using ba by (simp add: wave_observe_def)
    with assms have "same_view (update_candles D ?m (cx_now cx) (?f w)) (clear_marks w')"
      by (simp add: same_view_def clear_marks_def)
    from update_candles_again [OF this] show ?thesis
      using ba f by (simp add: wave_observe_def)
  next
    case False
    then show ?thesis using f by (auto simp: wave_observe_def Let_def split: option.split)
  qed
qed

lemma observe_clear: "clear_marks (wave_observe D cx w) = wave_observe D cx w"
proof -
  have "wv_emitted_bid (wave_observe D cx w) = {} \<and> wv_emitted_ask (wave_observe D cx w) = {}"
    by (simp add: wave_observe_def fold_note_fill Let_def split: option.split)
  then show ?thesis by (cases "wave_observe D cx w") (simp add: clear_marks_def)
qed

lemma init_view: "same_view w (wave_init D tb ta w)" "clear_marks (wave_init D tb ta w) = wave_init D tb ta (clear_marks w)"
  by (simp_all add: wave_init_def same_view_def clear_marks_def split: option.split)

lemma relattice_view: "relattice D cx w = (rel, w', cs) \<Longrightarrow> same_view w w'"
  by (auto simp: relattice_def maybe_relattice_def same_view_def Let_def split: option.splits prod.splits if_splits)

lemma same_view_trans: "same_view w w1 \<Longrightarrow> same_view w1 w2 \<Longrightarrow> same_view w w2"
  by (simp add: same_view_def)

lemma prepared_view: "same_view (wave_observe D cx w) (prepared D cx w)" "clear_marks (prepared D cx w) = prepared D cx w"
  using init_view by (auto simp: prepared_def Let_def observe_clear split: prod.split)

text \<open>A state that has its lattice and agrees with what was observed is its own preparation.\<close>

lemma prepared_again:
  assumes "same_view (prepared D cx w) w'" "wv_step w' \<noteq> None"
  shows "prepared D (cx\<lparr>cx_open_quotes := oq\<rparr>) w' = clear_marks w'"
proof -
  have "wave_observe D (cx\<lparr>cx_open_quotes := oq\<rparr>) w' = clear_marks w'"
    using observe_again same_view_trans [OF prepared_view(1) assms(1)] .
  with assms(2) show ?thesis
    by (auto simp: prepared_def wave_init_def clear_marks_def Let_def split: prod.split option.split)
qed

subsection \<open>No second relattice\<close>

lemma relattice_frame:
  "fst (relattice D (cx\<lparr>cx_open_quotes := oq\<rparr>) w) = fst (relattice D cx w)"
  "fst (relattice D cx (w\<lparr>wv_inner_dirty := d\<rparr>)) = fst (relattice D cx w)"
  "fst (relattice D cx (w\<lparr>wv_last_refill := r\<rparr>)) = fst (relattice D cx w)"
  by (simp_all add: relattice_def maybe_relattice_def Let_def split: prod.split option.split)

lemma relattice_False:
  "\<not> fst (relattice D cx w) \<Longrightarrow> relattice D cx w = (False, w, [])"
  by (auto simp: relattice_def maybe_relattice_def Let_def split: prod.splits option.splits if_splits)

lemma relattice_once:
  assumes D: "decimal_arith D" and r: "relattice D cx w = (True, w', cs)"
    and pct: "0 \<le> wc_relattice_drift_pct (wv_config w)"
  shows "\<not> fst (relattice D cx w')"
proof -
  obtain tb ta where t: "wave_tops D cx w = (tb, ta)" by fastforce
  from r t obtain b a where
    ba: "tb = Some b" "ta = Some a" and w': "w' = w\<lparr>wv_step := Some (compute_step D w (ddiv D (dadd D b a) 2)),
      wv_bid_origin := Some b, wv_ask_origin := Some a\<rparr>"
    by (auto simp: relattice_def maybe_relattice_def Let_def split: option.splits if_splits)
  have t': "wave_tops D cx w' = (tb, ta)" using wave_tops_relattice [OF r] t by simp
  have zero: "ddiv D \<bar>dsub D x x\<bar> x = 0" for x
    using decimal_arith.sub_fits [OF D, of x x] decimal_arith.div_fits [OF D, of x 0]
      decimal_arith.div_nonneg [OF D, of 0 x] decimal_arith.div_nonpos [OF D, of 0 x] by auto
  show ?thesis
    using pct t by (simp add: relattice_def maybe_relattice_def Let_def ba w' zero cong: if_cong)
qed

subsection \<open>The slots of a band are in order\<close>

context decimal_arith
begin

lemma slot_order:
  assumes s: "wv_step w = Some s" "0 < s" and k: "k \<le> k'"
    and p: "slot_price D w sd k = Some p" "slot_price D w sd k' = Some p'"
  shows "case sd of Bid \<Rightarrow> p' \<le> p | Ask \<Rightarrow> p \<le> p'"
proof -
  have m: "dmul D (of_int k) s \<le> dmul D (of_int k') s"
    using s k by (intro dmul_mono mult_right_mono) auto
  show ?thesis
  proof (cases sd)
    case Bid
    with p s m show ?thesis
      by (auto simp: slot_price_def bid_price_def Let_def split: option.splits if_splits intro!: dsub_mono)
  next
    case Ask
    with p s m show ?thesis
      by (auto simp: slot_price_def ask_price_def Let_def split: option.splits if_splits intro!: dadd_mono)
  qed
qed

lemma slot_defined:
  assumes s: "wv_step w = Some s" "0 < s" and k: "k \<le> k'"
  shows "slot_price D w Bid k' \<noteq> None \<Longrightarrow> slot_price D w Bid k \<noteq> None"
    and "slot_price D w Ask k \<noteq> None \<Longrightarrow> slot_price D w Ask k' \<noteq> None"
proof -
  have m: "dmul D (of_int k) s \<le> dmul D (of_int k') s"
    using s k by (intro dmul_mono mult_right_mono) auto
  have "dsub D x (dmul D (of_int k') s) \<le> dsub D x (dmul D (of_int k) s)"
      "dadd D x (dmul D (of_int k) s) \<le> dadd D x (dmul D (of_int k') s)" for x
    using m by (auto intro!: dsub_mono dadd_mono)
  then show "slot_price D w Bid k' \<noteq> None \<Longrightarrow> slot_price D w Bid k \<noteq> None"
    "slot_price D w Ask k \<noteq> None \<Longrightarrow> slot_price D w Ask k' \<noteq> None"
    using s by (force simp: slot_price_def bid_price_def ask_price_def Let_def split: option.splits if_splits
        dest: less_le_trans)+
qed

lemma band_slot_inside:
  assumes s: "wv_step w = Some s" "0 < s" and k: "k \<in> set (band_slots b)" and p: "slot_price D w sd k = Some p"
  shows "\<not> prunable D w sd b p"
proof -
  have k': "low_k b \<le> k" "k \<le> high_k b" using k by (simp_all add: band_slots_def)
  have "case sd of Bid \<Rightarrow> x \<le> p | Ask \<Rightarrow> p \<le> x" if "slot_price D w sd (high_k b) = Some x" for x
    using slot_order [OF s k'(2) p that] .
  moreover have "case sd of Bid \<Rightarrow> p \<le> x | Ask \<Rightarrow> x \<le> p" if "slot_price D w sd (low_k b) = Some x" for x
    using slot_order [OF s k'(1) that p] .
  ultimately show ?thesis
    by (cases sd) (auto simp: prunable_def outside_def beyond_def band_edges_slots split: option.split; force)+
qed

lemma beyond_outside:
  assumes s: "wv_step w = Some s" "0 < s" and b: "low_k b \<le> high_k b"
    and ask: "sd = Ask \<Longrightarrow> slot_price D w Ask (low_k b) \<noteq> None" and p: "beyond D w sd b p"
  shows "outside D w sd b p"
proof (cases sd)
  case Bid
  with p obtain x where x: "slot_price D w Bid (high_k b) = Some x" "p < x"
    by (auto simp: beyond_def split: option.splits)
  with slot_defined(1) [OF s b] obtain y where "slot_price D w Bid (low_k b) = Some y" by auto
  with x Bid show ?thesis by (simp add: outside_def band_edges_slots)
next
  case Ask
  with p ask show ?thesis by (auto simp: outside_def beyond_def band_edges_slots split: option.splits)
qed

end

subsection \<open>Placing again\<close>

text \<open>
  The venue has carried out an answer: what rests is what rested and was not cancelled, and what
  the answer placed.
\<close>

definition carried_out ::
    "(quote_id \<times> quote_intent) list \<Rightarrow> action list \<Rightarrow> (quote_id \<times> quote_intent) list \<Rightarrow> bool" where
  "carried_out oq acts oq' \<longleftrightarrow>
     (\<forall>(i, q) \<in> set oq'. (i, q) \<in> set oq \<and> Cancel i \<notin> set acts \<or> Quote q \<in> set acts)
   \<and> (\<forall>(i, q) \<in> set oq. Cancel i \<notin> set acts \<longrightarrow> (i, q) \<in> set oq')
   \<and> (\<forall>a \<in> set acts. case a of Quote q \<Rightarrow> q \<in> snd ` set oq' | _ \<Rightarrow> True)"

lemma band_missing_mono:
  assumes "\<And>k p. k \<in> set (band_slots b) \<Longrightarrow> slot_price D w sd k = Some p \<Longrightarrow> resting_at cx sd p \<Longrightarrow> resting_at cx' sd p"
  shows "band_missing D (w\<lparr>wv_last_refill := r\<rparr>) cx' sd b \<le> band_missing D w cx sd b"
proof -
  let ?P = "\<lambda>cx k. case slot_price D w sd k of None \<Rightarrow> False | Some p \<Rightarrow> \<not> resting_at cx sd p"
  have "length (filter (?P cx') (band_slots b)) \<le> length (filter (\<lambda>k. ?P cx k) (band_slots b))"
  proof -
    have "filter (?P cx') (band_slots b) = filter (?P cx') (filter (?P cx) (band_slots b))"
      unfolding filter_filter using assms by (intro filter_cong refl) (auto split: option.splits)
    then show ?thesis using length_filter_le by metis
  qed
  then show ?thesis unfolding band_missing_def slot_price_frame band_slots_def by simp
qed

lemma refill_due_mono:
  assumes "refill_due D cx' bb ab w" "cx_now cx' = cx_now cx"
    and "band_missing D w cx' Bid bb \<le> band_missing D w cx Bid bb" "band_missing D w cx' Ask ab \<le> band_missing D w cx Ask ab"
  shows "refill_due D cx bb ab w"
  using assms unfolding refill_due_def Let_def by (elim disjE) auto

lemma reduce_anchor_frame [simp]:
  "reduce_anchor_band D (w\<lparr>wv_last_refill := r\<rparr>) cx = reduce_anchor_band D w cx"
  "reduce_anchor_band D w (cx\<lparr>cx_open_quotes := oq\<rparr>) = reduce_anchor_band D w cx"
  by (simp_all add: reduce_anchor_band_def Let_def fun_eq_iff cong: if_cong)

lemma prune_frame [simp]:
  "prune_full_window D (w\<lparr>wv_last_refill := r\<rparr>) = prune_full_window D w"
  "prune_side D (w\<lparr>wv_last_refill := r\<rparr>) = prune_side D w"
  by (rule prune_slots(3) [OF slot_price_frame(4)], rule prune_slots(4) [OF slot_price_frame(4)])

text \<open>When nothing is left to emit or to prune, the next placement is empty.\<close>

lemma wave_place_empty:
  assumes wb: "wave_bands (reduce_anchor_band D w cx bt aa) bt aa = bs"
    and full: "refill_due D cx (fst bs) (snd bs) w \<Longrightarrow>
        (\<forall>sd. \<forall>k \<in> set (band_slots (pick_band bs sd)). \<forall>p. \<not> placeable D w cx sd k p)
      \<and> (\<forall>sd. prune_side D w cx (map_option fst (reduce_anchor_band D w cx bt aa)) sd (pick_band bs sd) = [])"
    and side: "\<And>sd. \<not> refill_due D cx (fst bs) (snd bs) w \<Longrightarrow> wc_reduce_to_avg (wv_config w) \<Longrightarrow>
        map_option fst (reduce_anchor_band D w cx bt aa) = Some sd \<Longrightarrow>
        (\<forall>k \<in> set (band_slots (pick_band bs sd)). \<forall>p. \<not> placeable D w cx sd k p)
      \<and> prune_full_window D w cx sd (pick_band bs sd) = []"
  shows "\<exists>w'. wave_place D cx False False bt aa w = Some (w', [])"
proof -
  obtain bb ab where bs: "bs = (bb, ab)" by fastforce
  let ?r = "map_option fst (reduce_anchor_band D w cx bt aa)"
  note place = wave_place_def [of D cx False False bt aa w, unfolded Let_def wb bs prod.case if_False]
  show ?thesis
  proof (cases "refill_due D cx bb ab w")
    case True
    note f = full [unfolded bs fst_conv snd_conv, OF True]
    have n: "\<And>sd k p. k \<in> set (band_slots (if sd = Bid then bb else ab)) \<Longrightarrow> \<not> placeable D w cx sd k p"
      using f unfolding pick_band_def fst_conv snd_conv by blast
    have p: "prune_side D w cx ?r Bid bb = []" "prune_side D w cx ?r Ask ab = []"
      using conjunct2 [OF f, THEN spec, of Bid] conjunct2 [OF f, THEN spec, of Ask] by simp_all
    from emit_both_none [OF n] True p show ?thesis by (simp add: place)
  next
    case False
    show ?thesis
    proof (cases "wc_reduce_to_avg (wv_config w) \<and> ?r \<noteq> None")
      case True
      then obtain sd where sd: "?r = Some sd" by auto
      with side [of sd] False True bs have n: "\<forall>k \<in> set (band_slots (pick_band (bb, ab) sd)). \<forall>p. \<not> placeable D w cx sd k p"
        and p: "prune_full_window D w cx sd (pick_band (bb, ab) sd) = []" by auto
      from sd obtain b where "reduce_anchor_band D w cx bt aa = Some (sd, b)" by auto
      with emit_window_none [OF n] p False True show ?thesis
        by (cases sd) (simp_all add: place)
    next
      case n: False
      then show ?thesis using False by (auto simp: place split: option.split bool.split)
    qed
  qed
qed

text \<open>What the book of resting orders looks like after an answer without a relattice.\<close>

lemma answer_effects:
  assumes D: "decimal_arith D" and step: "wv_step w = Some s" "0 < s"
    and pl: "wave_place D cx False dirty bt aa w = Some (w', acts)" and bs: "bs = anchored_bands D w cx (bt, aa)"
    and ids: "distinct (map fst (cx_open_quotes cx))" and out: "carried_out (cx_open_quotes cx) acts oq"
    and cx': "cx' = cx\<lparr>cx_open_quotes := oq\<rparr>"
  shows stays: "k \<in> set (band_slots (pick_band bs sd)) \<Longrightarrow> slot_price D w sd k = Some p \<Longrightarrow> resting_at cx sd p
      \<Longrightarrow> resting_at cx' sd p"
    and placed: "wave_order cx sd p q \<in> set acts \<Longrightarrow> resting_at cx' sd p"
    and left_over: "(i, q') \<in> set oq \<Longrightarrow> prunable D w (qi_side q') (pick_band bs (qi_side q')) (qi_price q')
      \<Longrightarrow> (i, q') \<in> set (cx_open_quotes cx) \<and> Cancel i \<notin> set acts"
proof -
  have inside: "\<not> prunable D w sd (pick_band bs sd) p"
    if "k \<in> set (band_slots (pick_band bs sd))" "slot_price D w sd k = Some p" for k sd p
    using decimal_arith.band_slot_inside [OF D step that] .
  show "resting_at cx' sd p" if k: "k \<in> set (band_slots (pick_band bs sd))" "slot_price D w sd k = Some p"
    and rest: "resting_at cx sd p"
  proof -
    from rest obtain i q where q: "(i, q) \<in> set (cx_open_quotes cx)" "qi_side q = sd" "qi_price q = p"
      by (auto simp: resting_at_def list_ex_iff)
    have "Cancel i \<notin> set acts"
    proof
      assume "Cancel i \<in> set acts"
      from wave_place_spec(2) [OF pl bs this] obtain q' where "(i, q') \<in> set (cx_open_quotes cx)"
          "prunable D w (qi_side q') (pick_band bs (qi_side q')) (qi_price q')" by auto
      moreover from this(1) q(1) ids have "q' = q" by (metis eq_key_imp_eq_value)
      ultimately show False using inside [OF k] q by simp
    qed
    with q(1) out have "(i, q) \<in> set oq" by (auto simp: carried_out_def)
    with q show ?thesis by (auto simp: resting_at_def list_ex_iff cx')
  qed
  show "resting_at cx' sd p" if "wave_order cx sd p q \<in> set acts"
    using that out by (force simp: carried_out_def resting_at_def list_ex_iff cx' make_post_only_intent_def)
  show "(i, q') \<in> set (cx_open_quotes cx) \<and> Cancel i \<notin> set acts"
    if i: "(i, q') \<in> set oq" and p: "prunable D w (qi_side q') (pick_band bs (qi_side q')) (qi_price q')"
  proof -
    have "Quote q' \<notin> set acts"
    proof
      assume "Quote q' \<in> set acts"
      from wave_place_spec(2) [OF pl bs this] obtain sd k p' where "k \<in> set (band_slots (pick_band bs sd))"
          "placeable D w cx sd k p'" "qi_side q' = sd" "qi_price q' = p'"
        by (auto simp: make_post_only_intent_def)
      with inside [of k sd p'] p show False by (simp add: placeable_def)
    qed
    with i out show ?thesis by (auto simp: carried_out_def)
  qed
qed

lemma pruned_clean:
  assumes clean: "\<And>i q. (i, q) \<in> set oq \<Longrightarrow> P q \<Longrightarrow> (i, q) \<in> set (cx_open_quotes cx) \<and> Cancel i \<notin> set acts"
    and sub: "set (cancel_where cx P) \<subseteq> set acts"
  shows "cancel_where (cx\<lparr>cx_open_quotes := oq\<rparr>) P = []"
  using clean sub by (fastforce simp: cancel_where_Nil cancel_where_mem subset_iff)

lemma settle_place:
  assumes D: "decimal_arith D" and step: "wv_step w = Some s" "0 < s"
    and pl: "wave_place D cx False dirty bt aa w = Some (w', acts)" and bs: "bs = anchored_bands D w cx (bt, aa)"
    and ids: "distinct (map fst (cx_open_quotes cx))" and out: "carried_out (cx_open_quotes cx) acts oq"
    and marks: "w = clear_marks w"
    and bands: "low_k (fst bs) \<le> high_k (fst bs)" "low_k (snd bs) \<le> high_k (snd bs)"
    and ask: "slot_price D w Ask (low_k (snd bs)) \<noteq> None"
  shows "\<exists>v. wave_place D (cx\<lparr>cx_open_quotes := oq\<rparr>) False False bt aa (w\<lparr>wv_last_refill := wv_last_refill w'\<rparr>) = Some (v, [])"
proof -
  let ?cx = "cx\<lparr>cx_open_quotes := oq\<rparr>" and ?w = "w\<lparr>wv_last_refill := wv_last_refill w'\<rparr>"
  let ?r = "map_option fst (reduce_anchor_band D w cx bt aa)"
  note eff = answer_effects [OF D step pl bs ids out refl]
  have wb: "wave_bands (reduce_anchor_band D w cx bt aa) bt aa = (fst bs, snd bs)"
    using bs by (simp add: anchored_bands_def)
  have gone: "\<not> placeable D ?w ?cx sd k p" if k: "k \<in> set (band_slots (pick_band bs sd))"
    and q: "placeable D w cx sd k p \<Longrightarrow> \<exists>q. wave_order cx sd p q \<in> set acts" for sd k p
    using eff(1) [OF k] eff(2) q by (auto simp: placeable_def)
  have trail: "outside D w sd (pick_band bs sd) p" if "beyond D w sd (pick_band bs sd) p" for sd p
    by (rule decimal_arith.beyond_outside [OF D step _ _ that]) (use bands ask in \<open>cases sd; simp\<close>)+
  have clean: "cancel_where ?cx (\<lambda>q. qi_side q = sd \<and> R (qi_price q)) = []"
    if "\<And>p. R p \<Longrightarrow> prunable D w sd (pick_band bs sd) p" "set (cancel_where cx (\<lambda>q. qi_side q = sd \<and> R (qi_price q))) \<subseteq> set acts"
    for sd R
    by (rule pruned_clean [OF _ that(2)]) (use that(1) eff(3) in blast)
  have full_clean: "prune_full_window D w ?cx sd (pick_band bs sd) = [] \<and> prune_side D w ?cx r sd (pick_band bs sd) = []"
    if "set (prune_full_window D w cx sd (pick_band bs sd)) \<subseteq> set acts" for sd r
  proof -
    have full: "prune_full_window D w ?cx sd (pick_band bs sd) = []"
      unfolding prune_full_where by (rule clean) (use that in \<open>auto simp: prunable_def prune_full_where\<close>)
    then have "prune_trailing_tail D w ?cx sd (pick_band bs sd) = []"
      using trail by (fastforce simp: prune_full_where prune_trailing_where cancel_where_Nil)
    with full show ?thesis by (simp add: prune_side_def)
  qed
  have side_clean: "prune_side D w ?cx r sd (pick_band bs sd) = []"
    if "set (prune_side D w cx r sd (pick_band bs sd)) \<subseteq> set acts" for sd r
  proof (cases "r = Some sd")
    case True
    with that full_clean [of sd r] show ?thesis by (simp add: prune_side_def)
  next
    case False
    have "prune_trailing_tail D w ?cx sd (pick_band bs sd) = []"
      unfolding prune_trailing_where
      by (rule clean) (use that False in \<open>auto simp: prunable_def prune_side_def prune_trailing_where\<close>)
    with False show ?thesis by (simp add: prune_side_def)
  qed
  have missing: "band_missing D ?w ?cx sd (pick_band bs sd) \<le> band_missing D w cx sd (pick_band bs sd)" for sd
    by (rule band_missing_mono) (rule eff(1))
  have wb': "wave_bands (reduce_anchor_band D ?w ?cx bt aa) bt aa = bs" using wb by simp
  show ?thesis
  proof (cases rule: wave_place_cases [OF pl wb])
    case (1 v as cs)
    have n: "\<not> placeable D ?w ?cx sd k p" if k: "k \<in> set (band_slots (pick_band bs sd))" for sd k p
    proof (rule gone [OF k])
      assume "placeable D w cx sd k p"
      with emit_both_spec(3) [OF 1(1) marks, of k sd p] k show "\<exists>q. wave_order cx sd p q \<in> set acts"
        unfolding 1(3) pick_band_def by auto
    qed
    have c: "prune_side D ?w ?cx ?r sd (pick_band bs sd) = []
        \<and> (?r = Some sd \<longrightarrow> prune_full_window D ?w ?cx sd (pick_band bs sd) = [])" for sd
    proof (cases "set (prune_full_window D w cx sd (pick_band bs sd)) \<subseteq> set acts")
      case True
      with full_clean [OF True] show ?thesis by simp
    next
      case False
      with 1(3,4) have "set (prune_side D w cx ?r sd (pick_band bs sd)) \<subseteq> set acts" by (cases sd) auto
      from side_clean [OF this] show ?thesis by (auto simp: prune_side_def)
    qed
    show ?thesis by (rule wave_place_empty [OF wb']) (use n c in auto)
  next
    case (2 sd as)
    have w: "?w = w" using arg_cong [OF emit_window_spec(1) [OF 2(5)], of wv_last_refill] by (simp add: clear_marks_def)
    have "\<not> refill_due D ?cx (fst bs) (snd bs) w"
      using refill_due_mono [of D ?cx "fst bs" "snd bs" w cx] 2(3) missing [of Bid] missing [of Ask] unfolding w by auto
    moreover have "\<not> placeable D w ?cx sd k p" if "k \<in> set (band_slots (pick_band bs sd))" for k p
      using that gone [of k sd p] emit_window_spec(3) [OF 2(5), of k p] marks_frame(4) [OF refl, of w sd] marks 2(6)
      unfolding w by force
    moreover have "prune_full_window D w ?cx sd (pick_band bs sd) = []"
      using full_clean [of sd] 2(6) by simp
    ultimately show ?thesis unfolding w using 2(4)
      by (intro wave_place_empty [OF wb' [unfolded w]]) auto
  next
    case 3
    have w: "?w = w" using 3(4) by simp
    have "\<not> refill_due D ?cx (fst bs) (snd bs) w"
      using refill_due_mono [of D ?cx "fst bs" "snd bs" w cx] 3(3) missing [of Bid] missing [of Ask] unfolding w by auto
    then show ?thesis unfolding w using 3(6) by (intro wave_place_empty [OF wb' [unfolded w]]) auto
  qed
qed

subsection \<open>The theorem\<close>

lemma window_from_order: "low_k (window_from w k) = k" "k \<le> high_k (window_from w k)"
proof -
  have "1 \<le> unat (max (wc_levels (wv_config w)) 1)"
    by (metis max.cobounded2 unat_1 word_le_nat_alt)
  then have "1 \<le> wave_levels w" unfolding wave_levels_def by linarith
  then show "low_k (window_from w k) = k" "k \<le> high_k (window_from w k)"
    by (simp_all add: window_from_def)
qed

lemma touch_bands_shape:
  assumes "touch_bands D cx w = Some (bt, aa)"
  shows "\<exists>s. wv_step w = Some s \<and> 0 < s" "low_k bt \<le> high_k bt" "low_k aa \<le> high_k aa"
  using assms window_from_order
  by (auto simp: touch_bands_def touch_band_bid_def bid_k_at_or_below_def touch_band_ask_def Let_def
      split: prod.splits option.splits if_splits)

lemma anchored_shape:
  assumes "low_k bt \<le> high_k bt" "low_k aa \<le> high_k aa" "bs = anchored_bands D w cx (bt, aa)"
  shows "low_k (fst bs) \<le> high_k (fst bs)" "low_k (snd bs) \<le> high_k (snd bs)" "low_k aa \<le> low_k (snd bs)"
  using assms window_from_order
  by (auto simp: anchored_bands_def wave_bands_def reduce_anchor_band_def Let_def
      split: option.splits side.splits prod.splits if_splits)

lemma touch_bands_frame [simp]:
  "touch_bands D cx (w\<lparr>wv_emitted_bid := x\<rparr>) = touch_bands D cx w"
  "touch_bands D cx (w\<lparr>wv_emitted_ask := x\<rparr>) = touch_bands D cx w"
  "touch_bands D cx (w\<lparr>wv_inner_dirty := d\<rparr>) = touch_bands D cx w"
  "touch_bands D cx (w\<lparr>wv_last_refill := r\<rparr>) = touch_bands D cx w"
  "touch_bands D (cx\<lparr>cx_open_quotes := oq\<rparr>) w = touch_bands D cx w"
  by (simp_all add: touch_bands_def touch_band_bid_def touch_band_ask_def Let_def
      cong: option.case_cong if_cong split: prod.split)

lemma finish_state:
  assumes "wave_finish D cx (rel, w, cs) = Some (w', acts)" "w = clear_marks w"
  shows "\<exists>r. clear_marks w' = w\<lparr>wv_inner_dirty := False, wv_last_refill := r\<rparr>"
proof (cases "touch_bands D cx (w\<lparr>wv_inner_dirty := False\<rparr>)")
  case None
  with assms have "clear_marks w' = w\<lparr>wv_inner_dirty := False\<rparr>"
    by (simp add: wave_finish_def Let_def) (metis clear_marks_dirty)
  then show ?thesis by (intro exI [of _ "wv_last_refill w"]) simp
next
  case (Some t)
  with assms(1) obtain as where "wave_place D cx rel (wv_inner_dirty w) (fst t) (snd t) (w\<lparr>wv_inner_dirty := False\<rparr>) = Some (w', as)"
    by (auto simp: wave_finish_def Let_def split: prod.splits)
  from wave_place_spec(1) [OF this refl] show ?thesis
    unfolding clear_marks_dirty using assms(2) by simp
qed

lemma observe_config [simp]: "wv_config (wave_observe D cx w) = wv_config w"
  by (simp add: wave_observe_def fold_note_fill Let_def split: option.split)

lemma prepared_twice: "prepared D (cx\<lparr>cx_open_quotes := oq\<rparr>) (prepared D cx w) = prepared D cx w"
proof -
  obtain tb ta where t: "wave_tops D cx (wave_observe D cx w) = (tb, ta)" by fastforce
  have p: "prepared D cx w = wave_init D tb ta (wave_observe D cx w)" by (simp add: prepared_def t)
  have "wave_observe D (cx\<lparr>cx_open_quotes := oq\<rparr>) (prepared D cx w) = prepared D cx w"
    using observe_again [OF prepared_view(1)] prepared_view(2) by simp
  moreover have "wave_tops D cx (prepared D cx w) = (tb, ta)" unfolding p by (simp add: t)
  moreover have "wave_init D tb ta (wave_init D tb ta v) = wave_init D tb ta v" for v
    by (simp add: wave_init_def split: option.split)
  ultimately show ?thesis
    unfolding prepared_def [of D "cx\<lparr>cx_open_quotes := oq\<rparr>" "prepared D cx w"] Let_def
    by (simp add: p)
qed

lemma clear_marks_iff: "w = clear_marks w \<longleftrightarrow> wv_emitted_bid w = {} \<and> wv_emitted_ask w = {}"
  by (cases w) (auto simp: clear_marks_def)

lemma relattice_marks: "relattice D cx w = (rel, w', cs) \<Longrightarrow> w = clear_marks w \<Longrightarrow> w' = clear_marks w'"
  unfolding clear_marks_iff
  by (auto simp: relattice_def maybe_relattice_def Let_def split: prod.splits option.splits if_splits)

definition relattices :: "decimal_ops \<Rightarrow> strategy_context \<Rightarrow> wave \<Rightarrow> bool" where
  "relattices D cx w \<longleftrightarrow> lattice_ready (prepared D cx w) \<and> fst (relattice D cx (prepared D cx w))"

lemma second_finish:
  assumes D: "decimal_arith D" and p: "p = clear_marks p" and fin: "wave_finish D cx (False, p, []) = Some (w', acts)"
    and W: "W = p\<lparr>wv_inner_dirty := False, wv_last_refill := wv_last_refill w'\<rparr>"
    and ids: "distinct (map fst (cx_open_quotes cx))" and out: "carried_out (cx_open_quotes cx) acts oq"
    and above: "case touch_bands D cx p of None \<Rightarrow> True | Some (bb, ab) \<Rightarrow> slot_price D p Ask (low_k ab) \<noteq> None"
  shows "\<exists>w''. wave_finish D (cx\<lparr>cx_open_quotes := oq\<rparr>) (False, W, []) = Some (w'', [])"
proof (cases "touch_bands D cx p")
  case None
  then show ?thesis by (simp add: wave_finish_def W)
next
  case (Some t)
  obtain bt aa where t: "t = (bt, aa)" by fastforce
  let ?p = "p\<lparr>wv_inner_dirty := False\<rparr>" and ?bs = "anchored_bands D (p\<lparr>wv_inner_dirty := False\<rparr>) cx (bt, aa)"
  from fin Some t have pl: "wave_place D cx False (wv_inner_dirty p) bt aa ?p = Some (w', acts)"
    by (auto simp: wave_finish_def Let_def)
  have b: "touch_bands D cx ?p = Some (bt, aa)" using Some t by simp
  note shape = touch_bands_shape [OF b]
  note bs = anchored_shape [OF shape(2,3) refl]
  obtain s where s: "wv_step ?p = Some s" "0 < s" using shape(1) by blast
  have "slot_price D ?p Ask (low_k aa) \<noteq> None" using above Some t by simp
  from decimal_arith.slot_defined(2) [OF D s bs(3) this]
  have ask: "slot_price D ?p Ask (low_k (snd ?bs)) \<noteq> None" .
  have m: "?p = clear_marks ?p" using p by (simp add: clear_marks_dirty)
  from settle_place [OF D s pl refl ids out m bs(1,2) ask] obtain v where
    "wave_place D (cx\<lparr>cx_open_quotes := oq\<rparr>) False False bt aa W = Some (v, [])"
    unfolding W by blast
  moreover have e: "W\<lparr>wv_inner_dirty := False\<rparr> = W" and "\<not> wv_inner_dirty W" by (cases p; simp add: W)+
  moreover have "touch_bands D (cx\<lparr>cx_open_quotes := oq\<rparr>) W = Some (bt, aa)" using Some t by (simp add: W)
  ultimately show ?thesis unfolding wave_finish_def Let_def prod.case e by simp
qed

text \<open>
  C26: The Wave handler settles, whatever the rounding: when the venue has carried out an answer,
  the same book does not make the lattice be rebuilt again, and unless the answer had rebuilt it,
  the handler returns and answers nothing: there is no slot left to place, no order left to prune
  and no size that does not return.
\<close>

theorem wave_settles:
  assumes D: "decimal_arith D" and ev: "wave_on_event D cx w = Some (w', acts)"
    and ids: "distinct (map fst (cx_open_quotes cx))"
    and out: "carried_out (cx_open_quotes cx) acts oq"
    and pct: "0 \<le> wc_relattice_drift_pct (wv_config w)"
    and above: "case touch_bands D cx w' of None \<Rightarrow> True | Some (bb, ab) \<Rightarrow> slot_price D w' Ask (low_k ab) \<noteq> None"
  shows "\<not> relattices D (cx\<lparr>cx_open_quotes := oq\<rparr>) w'
    \<and> (\<not> relattices D cx w \<longrightarrow> (\<exists>w''. wave_on_event D (cx\<lparr>cx_open_quotes := oq\<rparr>) w' = Some (w'', [])))"
proof (cases "lattice_ready (prepared D cx w)")
  case False
  with ev have "w' = prepared D cx w" by (simp add: wave_on_event_stages Let_def)
  with False show ?thesis by (simp add: relattices_def wave_on_event_stages prepared_twice Let_def)
next
  case ready: True
  let ?cx = "cx\<lparr>cx_open_quotes := oq\<rparr>" and ?p = "prepared D cx w"
  obtain rel v cs where r: "relattice D cx ?p = (rel, v, cs)" by (metis prod_cases3)
  have fin: "wave_finish D cx (rel, v, cs) = Some (w', acts)"
    using ev ready r by (simp add: wave_on_event_stages Let_def)
  have cfg: "wv_config ?p = wv_config w" using prepared_view(1) [of D cx w] by (simp add: same_view_def)
  have marks: "v = clear_marks v"
    using relattice_marks [OF r] prepared_view(2) [of D cx w] by simp
  obtain r' where W: "clear_marks w' = v\<lparr>wv_inner_dirty := False, wv_last_refill := r'\<rparr>"
    using finish_state [OF fin marks] by blast
  have r': "r' = wv_last_refill w'" using arg_cong [OF W, of wv_last_refill] by (simp add: clear_marks_def)
  have view: "same_view ?p w'"
    using relattice_view [OF r] arg_cong [OF W, of "same_view ?p"] by (simp add: same_view_def clear_marks_def)
  have lat: "lattice_ready v" using r ready
    by (auto simp: relattice_def maybe_relattice_def lattice_ready_def Let_def split: prod.splits option.splits if_splits)
  have lat': "lattice_ready (clear_marks w')" using lat unfolding W by (simp add: lattice_ready_def)
  then have "wv_step w' \<noteq> None" by (simp add: lattice_ready_def clear_marks_def)
  note again = prepared_again [OF view this]
  have flag: "\<not> fst (relattice D cx v)"
  proof (cases rel)
    case True
    with r have "relattice D cx ?p = (True, v, cs)" by simp
    from relattice_once [OF D this] pct cfg show ?thesis by simp
  next
    case False
    with r relattice_False [of D cx ?p] show ?thesis by simp
  qed
  then have no: "\<not> fst (relattice D ?cx (clear_marks w'))" unfolding W by (simp add: relattice_frame)
  have "\<exists>w''. wave_on_event D ?cx w' = Some (w'', [])" if "\<not> relattices D cx w"
  proof -
    have "\<not> fst (relattice D cx ?p)" using that ready by (simp add: relattices_def)
    with r relattice_False [of D cx ?p] have v: "v = ?p" "cs = []" "rel = False" by auto
    have "case touch_bands D cx v of None \<Rightarrow> True | Some (bb, ab) \<Rightarrow> slot_price D v Ask (low_k ab) \<noteq> None"
    proof -
      have "touch_bands D cx w' = touch_bands D cx v" "slot_price D w' = slot_price D v"
        using arg_cong [OF W, of "touch_bands D cx"] arg_cong [OF W, of "slot_price D"] by (simp_all add: clear_marks_def)
      with above show ?thesis by (simp only:)
    qed
    from second_finish [OF D marks fin [unfolded v(2,3)] W [unfolded r'] ids out this]
    show ?thesis using no lat' by (simp add: wave_on_event_stages again relattice_False Let_def)
  qed
  with no show ?thesis by (simp add: relattices_def again)
qed

end
