(* ===== verification/Wave_State.thy ===== *)
theory Wave_State
  imports Wave_Settles
begin

text \<open>
  The state of the Wave strategy: every state it can reach is well formed, the loop that raises
  an order to the minimum notional ends, and the reduce side never sells below the last buy.
\<close>

subsection \<open>Well-formed states\<close>

definition wave_ok :: "decimal_ops \<Rightarrow> wave \<Rightarrow> bool" where
  "wave_ok D w \<longleftrightarrow> (let c = wv_config w; lo = floor_step_bps D c in
     (case (wv_step w, wv_bid_origin w, wv_ask_origin w) of
        (None, None, None) \<Rightarrow> True
      | (Some s, Some b, Some a) \<Rightarrow> wc_tick_size c \<le> s \<and> 0 < b \<and> b < a
      | _ \<Rightarrow> False)
   \<and> length (wv_candle_bps w) \<le> candle_window c \<and> list_all (\<lambda>g. 0 \<le> g) (wv_candle_bps w)
   \<and> (wv_candle_sec w = None \<or> 0 < wv_candle_low w \<and> wv_candle_low w \<le> wv_candle_high w)
   \<and> wv_dyn_inner w \<le> 50
   \<and> min (wc_steps_bps c) lo \<le> wv_dyn_step w \<and> wv_dyn_step w \<le> max (wc_steps_bps c) lo)"

text \<open>The two halves of it: what concerns the lattice, and what concerns the candles.\<close>

definition lattice_ok :: "wave \<Rightarrow> bool" where
  "lattice_ok w \<longleftrightarrow> (case (wv_step w, wv_bid_origin w, wv_ask_origin w) of
        (None, None, None) \<Rightarrow> True
      | (Some s, Some b, Some a) \<Rightarrow> wc_tick_size (wv_config w) \<le> s \<and> 0 < b \<and> b < a
      | _ \<Rightarrow> False)"

definition candles_ok :: "decimal_ops \<Rightarrow> wave \<Rightarrow> bool" where
  "candles_ok D w \<longleftrightarrow> (let c = wv_config w; lo = floor_step_bps D c in
     length (wv_candle_bps w) \<le> candle_window c \<and> list_all (\<lambda>g. 0 \<le> g) (wv_candle_bps w)
   \<and> (wv_candle_sec w = None \<or> 0 < wv_candle_low w \<and> wv_candle_low w \<le> wv_candle_high w)
   \<and> wv_dyn_inner w \<le> 50
   \<and> min (wc_steps_bps c) lo \<le> wv_dyn_step w \<and> wv_dyn_step w \<le> max (wc_steps_bps c) lo)"

lemma wave_ok_halves: "wave_ok D w \<longleftrightarrow> lattice_ok w \<and> candles_ok D w"
  by (simp add: wave_ok_def lattice_ok_def candles_ok_def Let_def)

lemma halves_frame:
  "wv_config w' = wv_config w \<Longrightarrow> wv_step w' = wv_step w \<Longrightarrow> wv_bid_origin w' = wv_bid_origin w
     \<Longrightarrow> wv_ask_origin w' = wv_ask_origin w \<Longrightarrow> lattice_ok w' = lattice_ok w"
  "wv_config w' = wv_config w \<Longrightarrow> wv_candle_bps w' = wv_candle_bps w \<Longrightarrow> wv_candle_sec w' = wv_candle_sec w
     \<Longrightarrow> wv_candle_low w' = wv_candle_low w \<Longrightarrow> wv_candle_high w' = wv_candle_high w
     \<Longrightarrow> wv_dyn_inner w' = wv_dyn_inner w \<Longrightarrow> wv_dyn_step w' = wv_dyn_step w \<Longrightarrow> candles_ok D w' = candles_ok D w"
  by (simp_all add: lattice_ok_def candles_ok_def split: option.split)

lemma clamp_bounds: "lo \<le> hi \<Longrightarrow> lo \<le> clamp lo hi x \<and> clamp lo hi x \<le> hi"
  by (simp add: clamp_def)

lemma word_of_clamp:
  fixes lo hi :: u32
  assumes "lo \<le> hi"
  shows "lo \<le> word_of_int (clamp (int (unat lo)) (int (unat hi)) x)"
    and "word_of_int (clamp (int (unat lo)) (int (unat hi)) x) \<le> hi"
proof -
  let ?c = "clamp (int (unat lo)) (int (unat hi)) x"
  have b: "int (unat lo) \<le> ?c" "?c \<le> int (unat hi)"
    using clamp_bounds [of "uint lo" "uint hi" x] assms by (simp_all add: word_le_def)
  have "int (unat hi) < 2 ^ 32" using unsigned_less [where 'b = 32 and w = hi and 'a = int] by simp
  with b(2) have "?c < 2 ^ 32" by linarith
  then have "uint (word_of_int ?c :: u32) = ?c"
    using order.trans [OF uint_ge_0 [of lo], of ?c] b(1) by (simp add: uint_word_of_int mod_pos_pos_trivial)
  then show "lo \<le> word_of_int ?c" "word_of_int ?c \<le> hi" using b by (simp_all add: word_le_def)
qed

context decimal_arith
begin

lemma int_product_ge:
  assumes "0 < tick" "fits tick" "1 \<le> \<lceil>x\<rceil>"
  shows "tick \<le> dmul D (dec_ceil x) tick"
proof -
  have "dmul D 1 tick \<le> dmul D (dec_ceil x) tick"
    using assms by (intro dmul_mono mult_right_mono) (simp_all add: dec_ceil_def)
  then show ?thesis using mul_fits [of 1 tick] assms(2) by simp
qed

lemma compute_step_ge:
  assumes t: "0 < wc_tick_size (wv_config w)" "fits (wc_tick_size (wv_config w))"
  shows "wc_tick_size (wv_config w) \<le> compute_step D w mid"
proof -
  let ?t = "wc_tick_size (wv_config w)"
  have ge1: "1 \<le> \<lceil>ddiv D x ?t\<rceil>" if "?t \<le> x" for x
    using div_int_le [of 1 x ?t] that t(1) by (simp add: le_ceiling_iff)
  have "?t \<le> dmul D (12 / 10) ?t"
    using dmul_mono [of 1 ?t "12 / 10" ?t] mul_fits [of 1 ?t] t by simp
  then show ?thesis
    using int_product_ge [OF t] ge1 by (auto simp: compute_step_def Let_def)
qed

lemma init_ok:
  assumes "lattice_ok w" "fits (wc_tick_size (wv_config w))"
  shows "lattice_ok (wave_init D tb ta w)"
  using assms compute_step_ge [of w]
  by (auto simp: wave_init_def lattice_ok_def split: option.splits)

lemma relattice_ok:
  assumes "relattice D cx w = (rel, w', cs)" "lattice_ok w" "fits (wc_tick_size (wv_config w))"
  shows "lattice_ok w'"
  using assms compute_step_ge [of w]
  by (auto simp: relattice_def maybe_relattice_def lattice_ok_def Let_def split: prod.splits option.splits if_splits)

lemma gap_nonneg:
  "0 < c \<Longrightarrow> l \<le> h \<Longrightarrow> 0 \<le> dmul D (ddiv D (dsub D h l) c) 10000"
  by (intro mul_nonneg mult_nonneg_nonneg div_nonneg divide_nonneg_pos sub_nonneg) auto

end

subsection \<open>Candles\<close>

lemma dyn_inner_ok: "auto_inner_steps D w \<le> 50"
proof -
  have "word_of_int (clamp 0 50 x) \<le> (50 :: u32)" for x
    using word_of_clamp(2) [of 0 50 x] by simp
  then show ?thesis by (auto simp: auto_inner_steps_def max_auto_inner_def Let_def)
qed

lemma recompute_ok:
  assumes "candles_ok D w"
  shows "candles_ok D (recompute_dyn_inner D (recompute_dyn_step D w))"
proof -
  have "candles_ok D (recompute_dyn_step D w)"
    using assms word_of_clamp [of "floor_step_bps D (wv_config w)" "max (wc_steps_bps (wv_config w)) (floor_step_bps D (wv_config w))"]
    by (auto simp: candles_ok_def recompute_dyn_step_def Let_def intro: min.coboundedI2)
  then show ?thesis
    using dyn_inner_ok by (auto simp: candles_ok_def recompute_dyn_inner_def Let_def)
qed

lemma close_candle_ok:
  assumes D: "decimal_arith D" and ok: "candles_ok D w" and sec: "wv_candle_sec w \<noteq> None"
  shows "candles_ok D (close_candle D w)"
proof -
  let ?c = "ddiv D (dadd D (wv_candle_high w) (wv_candle_low w)) 2"
  let ?gap = "dmul D (ddiv D (dsub D (wv_candle_high w) (wv_candle_low w)) ?c) 10000"
  let ?kept = "drop (Suc (length (wv_candle_bps w)) - candle_window (wv_config w)) (wv_candle_bps w)"
  have "0 \<le> ?gap" if "0 < ?c"
    using decimal_arith.gap_nonneg [OF D that] ok sec by (auto simp: candles_ok_def Let_def)
  moreover have "1 \<le> candle_window (wv_config w)" by (simp add: candle_window_def)
  ultimately have "candles_ok D (w\<lparr>wv_candle_bps := ?kept @ [?gap]\<rparr>)" if "0 < ?c"
    using ok that by (auto simp: candles_ok_def Let_def list_all_iff dest: in_set_dropD)
  from recompute_ok [OF this] show ?thesis using ok by (simp add: close_candle_def Let_def)
qed

lemma open_candle_ok: "candles_ok D w \<Longrightarrow> 0 < mid \<Longrightarrow> candles_ok D (open_candle sec mid w)"
  by (simp add: candles_ok_def open_candle_def Let_def)

lemma update_candles_ok:
  assumes "decimal_arith D" "candles_ok D w"
  shows "candles_ok D (update_candles D mid now w)"
proof (cases "(wc_auto_inner (wv_config w) \<or> wc_auto_step (wv_config w)) \<and> 0 < mid")
  case True
  show ?thesis
  proof (cases "wv_candle_sec w")
    case None
    with True assms open_candle_ok show ?thesis by (simp add: update_candles_def Let_def)
  next
    case (Some cur)
    with close_candle_ok [OF assms] have c: "candles_ok D (close_candle D w)" by simp
    show ?thesis
      using True Some assms(2) open_candle_ok [OF c]
      by (simp add: update_candles_def Let_def) (auto simp: candles_ok_def Let_def)
  qed
qed (use assms in \<open>auto simp: update_candles_def\<close>)

subsection \<open>Reachable states\<close>

inductive wave_reach :: "decimal_ops \<Rightarrow> wave_config \<Rightarrow> wave \<Rightarrow> bool" for D c where
  wave_start: "wave_reach D c (wave_new c)"
| wave_event: "wave_reach D c w \<Longrightarrow> wave_on_event D cx w = Some (w', acts) \<Longrightarrow> wave_reach D c w'"
| wave_notional: "wave_reach D c w \<Longrightarrow> wave_on_notional_updated n w = (w', acts) \<Longrightarrow> wave_reach D c w'"

lemma observe_ok:
  assumes "decimal_arith D" "wave_ok D w"
  shows "wave_ok D (wave_observe D cx w)"
proof -
  let ?w = "fold note_fill (cx_recent_fills cx) (w\<lparr>wv_emitted_bid := {}, wv_emitted_ask := {}\<rparr>)"
  have w: "lattice_ok ?w" "candles_ok D ?w"
    using assms(2) halves_frame [of ?w w] by (simp_all add: wave_ok_halves fold_note_fill)
  have "lattice_ok (update_candles D m now v) = lattice_ok v" for m now v
    by (rule halves_frame(1)) (simp_all add: update_candles_def open_candle_def Let_def split: option.split)
  with w update_candles_ok [OF assms(1) w(2)] show ?thesis
    by (simp add: wave_ok_halves wave_observe_def Let_def split: option.split)
qed

lemma candles_frame: "candles_ok D (wave_init D tb ta w) = candles_ok D w"
  by (simp add: wave_init_def candles_ok_def split: option.split)

lemma relattice_candles: "relattice D cx w = (rel, w', cs) \<Longrightarrow> candles_ok D w' = candles_ok D w"
  by (auto simp: relattice_def maybe_relattice_def candles_ok_def Let_def split: prod.splits option.splits if_splits)

lemma event_ok:
  assumes D: "decimal_arith D" and ok: "wave_ok D w" and tick: "fits (wc_tick_size (wv_config w))"
    and ev: "wave_on_event D cx w = Some (w', acts)"
  shows "wave_ok D w' \<and> wv_config w' = wv_config w"
proof -
  let ?p = "prepared D cx w"
  have cfg: "wv_config ?p = wv_config w" using prepared_view(1) [of D cx w] by (simp add: same_view_def)
  have p: "lattice_ok ?p" "candles_ok D ?p"
    using observe_ok [OF D ok, of cx] decimal_arith.init_ok [OF D, of "wave_observe D cx w"] tick
    by (auto simp: prepared_def wave_ok_halves candles_frame Let_def split: prod.split)
  show ?thesis
  proof (cases "lattice_ready ?p")
    case False
    with ev p cfg show ?thesis by (auto simp: wave_on_event_stages wave_ok_halves Let_def)
  next
    case True
    obtain rel v cs where r: "relattice D cx ?p = (rel, v, cs)" by (metis prod_cases3)
    have v: "lattice_ok v" "candles_ok D v" "wv_config v = wv_config w"
      using decimal_arith.relattice_ok [OF D r p(1)] relattice_candles [OF r] relattice_view [OF r] p cfg tick
      by (simp_all add: same_view_def)
    have "v = clear_marks v" using relattice_marks [OF r] prepared_view(2) [of D cx w] by simp
    with ev True r finish_state [of D cx rel v cs w' acts] obtain r' where
      W: "clear_marks w' = v\<lparr>wv_inner_dirty := False, wv_last_refill := r'\<rparr>"
      by (auto simp: wave_on_event_stages Let_def)
    have "lattice_ok (clear_marks w') \<and> candles_ok D (clear_marks w') \<and> wv_config (clear_marks w') = wv_config w"
      using v halves_frame [of "clear_marks w'" v] unfolding W by simp
    then show ?thesis using halves_frame [of "clear_marks w'" w'] by (simp add: clear_marks_def wave_ok_halves)
  qed
qed

lemma notional_ok: "wave_ok D (w\<lparr>wv_config := (wv_config w)\<lparr>wc_notional_per_order := n\<rparr>\<rparr>) = wave_ok D w"
proof -
  let ?c = "wv_config w" and ?c' = "(wv_config w)\<lparr>wc_notional_per_order := n\<rparr>"
  have "floor_step_bps D ?c' = floor_step_bps D ?c" "candle_window ?c' = candle_window ?c"
    by (simp_all add: floor_step_bps_def candle_window_def)
  then show ?thesis by (simp add: wave_ok_def Let_def split: option.split)
qed

text \<open>
  C29: Every state the strategy reaches is well formed: the lattice is either absent or complete,
  with a step of at least a tick and the bid origin below the ask origin; the candle window
  holds at most its configured number of gaps, none of them negative; the running candle has its
  low at or below its high; and the automatic step and inner zone stay within their bounds.
\<close>

theorem wave_well_formed:
  assumes "decimal_arith D" "fits (wc_tick_size c)" "wave_reach D c w"
  shows "wave_ok D w"
proof -
  from assms(3) have "wave_ok D w \<and> wc_tick_size (wv_config w) = wc_tick_size c"
  proof induction
    case wave_start
    show ?case by (simp add: wave_ok_def wave_new_def Let_def)
  next
    case (wave_event w cx w' acts)
    with event_ok [OF assms(1) _ _ wave_event.hyps(2)] assms(2) show ?case by auto
  next
    case (wave_notional w n w' acts)
    then show ?case by (auto simp: wave_on_notional_updated_def notional_ok split: if_splits)
  qed
  then show ?thesis by simp
qed

subsection \<open>The minimum notional\<close>

text \<open>
  Sizes the arithmetic handles exactly: the lot step and the price on decimal grids whose digits
  together the mantissa can hold at the notionals in question.
\<close>

definition lots_ok :: "nat \<Rightarrow> nat \<Rightarrow> rat \<Rightarrow> rat \<Rightarrow> rat \<Rightarrow> bool" where
  "lots_ok m n price mn step \<longleftrightarrow> m \<le> 10 \<and> m + n \<le> 28 \<and> on_grid m step \<and> on_grid n price \<and> 0 < step \<and> 0 < price
     \<and> 0 < mn \<and> mn / price \<le> 10 ^ 17 \<and> mn / (price * step) \<le> 10 ^ 17 \<and> (mn + 3 * (step * price)) * 10 ^ (m + n) < 2 ^ 96"

context decimal_arith
begin

lemma lot_products:
  assumes ok: "lots_ok m n price mn step" and k: "0 \<le> k" "of_int k * (step * price) \<le> mn + 3 * (step * price)"
  shows "dmul D (of_int k) step = of_int k * step" "dmul D (of_int k * step) price = of_int k * step * price"
    and "k = j + 1 \<Longrightarrow> dadd D (of_int j * step) step = of_int k * step"
proof -
  let ?q = "of_int k * step"
  have o: "on_grid m step" "on_grid n price" "0 < step" "0 < price" "m + n \<le> 28" using ok by (auto simp: lots_ok_def)
  have b: "?q * price * 10 ^ (m + n) < 2 ^ 96"
  proof -
    have "?q * price * 10 ^ (m + n) \<le> (mn + 3 * (step * price)) * 10 ^ (m + n)"
      using k(2) by (intro mult_right_mono) (simp_all add: mult_ac)
    also have "\<dots> < 2 ^ 96" using ok unfolding lots_ok_def by blast
    finally show ?thesis .
  qed
  have one: "1 \<le> price * 10 ^ n"
    using o(2,4) by (elim on_gridE) (auto simp: zero_less_divide_iff zero_less_mult_iff)
  have "?q * 10 ^ m * 1 \<le> ?q * 10 ^ m * (price * 10 ^ n)"
    using one k(1) o by (intro mult_left_mono) auto
  also have "\<dots> = ?q * price * 10 ^ (m + n)" by (simp add: power_add mult_ac)
  finally have s: "?q * 10 ^ m < 2 ^ 96" using b by simp
  have nn: "0 \<le> ?q" using k(1) o by simp
  have fq: "fits ?q" using s nn o on_grid_int_mult [OF o(1), of k] by (intro fits_grid [of m]) auto
  then show "dmul D (of_int k) step = ?q" by (rule mul_fits)
  show "dmul D ?q price = ?q * price"
    using b nn o on_grid_mult [OF on_grid_int_mult [OF o(1), of k] o(2)] by (intro mul_fits fits_grid [of "m + n"]) auto
  assume "k = j + 1"
  then have "of_int j * step + step = ?q" by (simp add: algebra_simps)
  with fq show "dadd D (of_int j * step) step = ?q" by (metis add_fits)
qed

lemma raise_lots_returns:
  assumes ok: "lots_ok m n price mn step" and "0 \<le> k" "of_int k * (step * price) \<le> mn + 2 * (step * price)"
  shows "\<exists>j. k \<le> j \<and> raise_lots D price mn step (of_int k * step) = Some (of_int j * step) \<and> mn \<le> of_int j * step * price
    \<and> (j = k \<or> (of_int j - 1) * (step * price) < mn)"
  using assms(2,3)
proof (induction "nat (\<lceil>mn / (step * price)\<rceil> - k)" arbitrary: k rule: less_induct)
  case less
  have sp: "0 < step * price" using ok by (simp add: lots_ok_def)
  have exact: "dmul D (of_int k * step) price = of_int k * step * price"
    by (rule lot_products(2) [OF ok less.prems(1)]) (use less.prems(2) sp in linarith)
  show ?case
  proof (cases "of_int k * step * price < mn")
    case False
    then show ?thesis by (intro exI [of _ k]) (subst raise_lots.simps, simp add: exact)
  next
    case True
    have lt: "of_int k < mn / (step * price)" using True sp by (simp add: pos_less_divide_eq mult_ac)
    have next_le: "of_int (k + 1) * (step * price) \<le> mn + 2 * (step * price)"
      using True sp by (simp add: algebra_simps)
    have small: "nat (\<lceil>mn / (step * price)\<rceil> - (k + 1)) < nat (\<lceil>mn / (step * price)\<rceil> - k)"
      using lt by (simp add: less_ceiling_iff)
    have add: "dadd D (of_int k * step) step = of_int (k + 1) * step"
      by (rule lot_products(3) [OF ok]) (use less.prems(1) next_le sp in \<open>simp, linarith, simp\<close>)
    have unfold: "raise_lots D price mn step (of_int k * step) = raise_lots D price mn step (of_int (k + 1) * step)"
      using True by (subst raise_lots.simps) (simp only: exact add if_True)
    from less.hyps [OF small _ next_le] less.prems(1) obtain j where
      j: "k + 1 \<le> j" "raise_lots D price mn step (of_int (k + 1) * step) = Some (of_int j * step)"
        "mn \<le> of_int j * step * price" "j = k + 1 \<or> (of_int j - 1) * (step * price) < mn" by auto
    have "(of_int j - 1) * (step * price) < mn" using j(4) True by (auto simp: mult_ac)
    with j(1-3) unfold show ?thesis by (intro exI [of _ j]) simp
  qed
qed

text \<open>The first guess of the loop is at most one lot too many.\<close>

lemma first_guess:
  assumes ok: "lots_ok m n price mn step"
  shows "0 \<le> \<lceil>ddiv D (ddiv D mn price) step\<rceil>"
    and "of_int \<lceil>ddiv D (ddiv D mn price) step\<rceil> * (step * price) < mn + 2 * (step * price)"
proof -
  let ?q = "ddiv D mn price"
  have o: "0 < step" "0 < price" "0 < mn" "mn / price \<le> 10 ^ 17" "mn / (price * step) \<le> 10 ^ 17" "m \<le> 10"
    using ok by (auto simp: lots_ok_def)
  have q0: "0 \<le> ?q" by (rule div_nonneg) (use o in simp)
  have q1: "?q \<le> mn / price + 1 / (2 * 10 ^ 10)"
  proof -
    have "\<bar>mn / price\<bar> \<le> 10 ^ 18" using o by simp
    with div_near [of price mn] o have "\<bar>?q - mn / price\<bar> \<le> 1 / (2 * 10 ^ 10)" by blast
    then show ?thesis by linarith
  qed
  show "0 \<le> \<lceil>ddiv D ?q step\<rceil>"
    using div_nonneg [of ?q step] q0 o by simp
  have step: "1 / 10 ^ 10 \<le> step"
  proof -
    have "1 \<le> step * 10 ^ m"
      using ok by (auto simp: lots_ok_def zero_less_divide_iff elim!: on_gridE)
    also have "\<dots> \<le> step * 10 ^ 10" using o by (intro mult_left_mono power_increasing) auto
    finally show ?thesis by (simp add: field_simps)
  qed
  have "?q / step \<le> mn / (price * step) + 1 / 2"
  proof -
    have "?q / step \<le> (mn / price + 1 / (2 * 10 ^ 10)) / step" using q1 o by (intro divide_right_mono) auto
    also have "\<dots> = mn / (price * step) + 1 / (2 * 10 ^ 10) / step" by (simp add: add_divide_distrib)
    also have "1 / (2 * 10 ^ 10) / step \<le> 1 / 2" using step o by (simp add: field_simps)
    finally show ?thesis by simp
  qed
  moreover from this have "\<bar>?q / step\<bar> \<le> 10 ^ 18" using o q0 by (simp add: divide_nonneg_pos)
  with div_near [of step ?q] o have "\<bar>ddiv D ?q step - ?q / step\<bar> \<le> 1 / (2 * 10 ^ 10)" by blast
  ultimately have "of_int \<lceil>ddiv D ?q step\<rceil> < mn / (price * step) + 2"
  proof -
    assume 1: "?q / step \<le> mn / (price * step) + 1 / 2" and 2: "\<bar>ddiv D ?q step - ?q / step\<bar> \<le> 1 / (2 * 10 ^ 10)"
    have "(1 :: rat) / (2 * 10 ^ 10) \<le> 1 / 4" by simp
    with 2 have "ddiv D ?q step \<le> ?q / step + 1 / 4" by linarith
    with 1 ceiling_correct [of "ddiv D ?q step"] show ?thesis by linarith
  qed
  then have "of_int \<lceil>ddiv D ?q step\<rceil> * (step * price) < (mn / (price * step) + 2) * (step * price)"
    using o by (intro mult_strict_right_mono) auto
  also have "\<dots> = mn + 2 * (step * price)" using o by (simp add: field_simps)
  finally show "of_int \<lceil>ddiv D ?q step\<rceil> * (step * price) < mn + 2 * (step * price)" .
qed

end

text \<open>
  C30: Sizing always returns a size that reaches the venue's minimum notional in the comparison
  the code makes; a size that had to be raised is a whole number of lots less than two lots above
  the minimum.
\<close>

theorem wave_size_returns:
  assumes D: "decimal_arith D" and ok: "lots_ok m n price (wc_min_notional c) (wc_step_size c)"
  shows "\<exists>q. size_for_notional D c price notional = Some q \<and> wc_min_notional c \<le> dmul D q price
    \<and> (q = dmul D (dec_floor (ddiv D (ddiv D notional price) (wc_step_size c))) (wc_step_size c)
       \<or> (\<exists>k. q = of_int k * wc_step_size c \<and> (of_int k - 2) * (wc_step_size c * price) < wc_min_notional c))"
proof -
  let ?mn = "wc_min_notional c" and ?s = "wc_step_size c"
  let ?stepped = "dmul D (dec_floor (ddiv D (ddiv D notional price) ?s)) ?s"
  let ?k = "\<lceil>ddiv D (ddiv D ?mn price) ?s\<rceil>"
  have o: "0 < ?s" "0 < price" "0 < ?mn" using ok by (auto simp: lots_ok_def)
  then have sp: "0 < ?s * price" by simp
  note guess = decimal_arith.first_guess [OF D ok]
  show ?thesis
  proof (cases "0 < ?mn \<and> dmul D ?stepped price < ?mn")
    case False
    then have "size_for_notional D c price notional = Some ?stepped"
      using o by (auto simp: size_for_notional_def Let_def)
    with False o show ?thesis by (simp only: not_less simp_thms) blast
  next
    case True
    have "dmul D (dec_ceil (ddiv D (ddiv D ?mn price) ?s)) ?s = of_int ?k * ?s"
      unfolding dec_ceil_def using guess sp by (intro decimal_arith.lot_products(1) [OF D ok]) simp_all
    with True o have "size_for_notional D c price notional = raise_lots D price ?mn ?s (of_int ?k * ?s)"
      by (simp add: size_for_notional_def Let_def)
    with decimal_arith.raise_lots_returns [OF D ok guess(1)] guess(2) obtain j where
      j: "size_for_notional D c price notional = Some (of_int j * ?s)" "?k \<le> j" "?mn \<le> of_int j * ?s * price"
        "j = ?k \<or> (of_int j - 1) * (?s * price) < ?mn" by fastforce
    have up: "(of_int j - 2) * (?s * price) < ?mn" using j(4) guess(2) sp by (auto simp: algebra_simps)
    have "0 \<le> j" using guess(1) j(2) by (rule order.trans)
    then have "dmul D (of_int j * ?s) price = of_int j * ?s * price"
      by (rule decimal_arith.lot_products(2) [OF D ok]) (use up sp in \<open>simp add: algebra_simps\<close>)
    with j up show ?thesis by (intro exI [of _ "of_int j * ?s"]) auto
  qed
qed

subsection \<open>The reduce floor\<close>

text \<open>Lattice and fill price on one decimal grid, the step below twenty billion of its units.\<close>

definition anchor_ok :: "nat \<Rightarrow> rat \<Rightarrow> rat \<Rightarrow> rat \<Rightarrow> bool" where
  "anchor_ok n origin s px \<longleftrightarrow> n \<le> 28 \<and> on_grid n origin \<and> on_grid n s \<and> on_grid n px \<and> 0 < s \<and> 0 < px
     \<and> s * 10 ^ n < 2 * 10 ^ 10 \<and> \<bar>px - origin\<bar> / s \<le> 10 ^ 18 \<and> (\<bar>origin\<bar> + \<bar>px - origin\<bar> + 2 * s) * 10 ^ n < 2 ^ 96"

context decimal_arith
begin

lemma slot_index_covers:
  assumes g: "on_grid n x" "on_grid n s" "0 < s" "s * 10 ^ n < 2 * 10 ^ 10" "\<bar>x\<bar> / s \<le> 10 ^ 18"
  shows "x \<le> of_int \<lceil>ddiv D x s\<rceil> * s" and "of_int \<lceil>ddiv D x s\<rceil> * s < x + 2 * s"
proof -
  let ?k = "\<lceil>ddiv D x s\<rceil>"
  have near: "\<bar>ddiv D x s - x / s\<bar> \<le> 1 / (2 * 10 ^ 10)"
    using div_near [of s x] g(3,5) by simp
  show "x \<le> of_int ?k * s"
  proof (rule ccontr)
    assume "\<not> x \<le> of_int ?k * s"
    obtain X S :: int where XS: "x = of_int X / 10 ^ n" "s = of_int S / 10 ^ n" using g(1,2) by (elim on_gridE)
    have S: "0 < S" "rat_of_int S < 2 * 10 ^ 10" using g(3,4) by (simp_all add: XS zero_less_divide_iff)
    have cancel: "of_int k * S' / N < X' / N \<Longrightarrow> of_int k * S' < X'" if "0 < N" for k :: int and S' X' N :: rat
      using that by (simp add: divide_less_cancel)
    have "of_int ?k * s < x" using \<open>\<not> x \<le> of_int ?k * s\<close> by simp
    then have "of_int ?k * rat_of_int S / 10 ^ n < of_int X / 10 ^ n" by (simp only: XS times_divide_eq_right)
    from cancel [OF _ this] have "rat_of_int (?k * S) < rat_of_int X" by simp
    then have "?k * S + 1 \<le> X" by linarith
    then have "rat_of_int (?k * S + 1) \<le> rat_of_int X" by (simp only: of_int_le_iff)
    then have "rat_of_int (?k * S + 1) / of_int S \<le> of_int X / of_int S" using S(1) by (intro divide_right_mono) simp_all
    moreover have "rat_of_int (?k * S + 1) / of_int S = of_int ?k + 1 / rat_of_int S"
      using S(1) by (simp only: of_int_add of_int_mult add_divide_distrib) simp
    moreover have "x / s = of_int X / of_int S" by (simp add: XS)
    ultimately have "of_int ?k + 1 / rat_of_int S \<le> x / s" by (simp only:)
    moreover have "1 / (2 * 10 ^ 10) < 1 / rat_of_int S" using S by (simp add: field_simps)
    moreover have "ddiv D x s \<le> of_int ?k" by simp
    ultimately show False using near by linarith
  qed
  have "(1 :: rat) / (2 * 10 ^ 10) < 1" by simp
  with near ceiling_correct [of "ddiv D x s"] have "of_int ?k < x / s + 2" by linarith
  then have "of_int ?k * s < (x / s + 2) * s" using g(3) by (intro mult_strict_right_mono)
  also have "\<dots> = x + 2 * s" using g(3) by (simp add: distrib_right)
  finally show "of_int ?k * s < x + 2 * s" .
qed

lemma anchor_products:
  assumes ok: "anchor_ok n origin s px" and k: "\<bar>of_int k * s\<bar> \<le> \<bar>px - origin\<bar> + 2 * s"
  shows "dmul D (of_int k) s = of_int k * s" "dadd D origin (of_int k * s) = origin + of_int k * s"
    "dsub D origin (of_int k * s) = origin - of_int k * s"
proof -
  have o: "n \<le> 28" "on_grid n origin" "on_grid n s" "(\<bar>origin\<bar> + \<bar>px - origin\<bar> + 2 * s) * 10 ^ n < 2 ^ 96"
    using ok unfolding anchor_ok_def by blast+
  have ks: "on_grid n (of_int k * s)" by (rule on_grid_int_mult [OF o(3)])
  have b: "\<bar>y\<bar> * 10 ^ n < 2 ^ 96" if "\<bar>y\<bar> \<le> \<bar>origin\<bar> + \<bar>px - origin\<bar> + 2 * s" for y
    by (rule le_less_trans [OF mult_right_mono [OF that] o(4)]) simp
  have "\<bar>of_int k * s\<bar> \<le> \<bar>origin\<bar> + \<bar>px - origin\<bar> + 2 * s" "\<bar>origin + of_int k * s\<bar> \<le> \<bar>origin\<bar> + \<bar>px - origin\<bar> + 2 * s"
    "\<bar>origin - of_int k * s\<bar> \<le> \<bar>origin\<bar> + \<bar>px - origin\<bar> + 2 * s" using k by linarith+
  then show "dmul D (of_int k) s = of_int k * s" "dadd D origin (of_int k * s) = origin + of_int k * s"
    "dsub D origin (of_int k * s) = origin - of_int k * s"
    using o(1,2) ks by (auto intro!: mul_fits add_fits sub_fits fits_grid [of n] b)
qed

lemma anchor_index:
  assumes ok: "anchor_ok n origin s px" and x: "x = (case sd of Ask \<Rightarrow> px - origin | Bid \<Rightarrow> origin - px)"
    and w: "wv_step w = Some s" "(case sd of Ask \<Rightarrow> wv_ask_origin w | Bid \<Rightarrow> wv_bid_origin w) = Some origin"
    and k: "k0 = \<lceil>ddiv D x s\<rceil>"
  shows "(case sd of Ask \<Rightarrow> ask_k_at_or_above D w px | Bid \<Rightarrow> bid_k_at_or_below D w px) = Some k0"
    and "slot_price D w sd k0 = Some p \<Longrightarrow> (case sd of Ask \<Rightarrow> px \<le> p | Bid \<Rightarrow> p \<le> px)"
    and "sd = Ask \<Longrightarrow> slot_price D w sd k0 \<noteq> None"
proof -
  have o: "on_grid n origin" "on_grid n s" "on_grid n px" "0 < s" "0 < px" "s * 10 ^ n < 2 * 10 ^ 10"
      "\<bar>px - origin\<bar> / s \<le> 10 ^ 18"
    using ok unfolding anchor_ok_def by blast+
  have x': "on_grid n x" "\<bar>x\<bar> = \<bar>px - origin\<bar>" using o x by (auto split: side.splits)
  note c = slot_index_covers [OF x'(1) o(2,4,6)]
  have c1: "x \<le> of_int k0 * s" and c2: "of_int k0 * s < x + 2 * s" using c o(7) x'(2) unfolding k by simp_all
  have kb: "\<bar>of_int k0 * s\<bar> \<le> \<bar>px - origin\<bar> + 2 * s" using c1 c2 x'(2) o(4) by linarith
  note e = anchor_products [OF ok kb]
  have "fits x"
  proof (rule fits_grid [OF x'(1)])
    show "n \<le> 28" using ok by (simp add: anchor_ok_def)
    have "\<bar>x\<bar> * 10 ^ n \<le> (\<bar>origin\<bar> + \<bar>px - origin\<bar> + 2 * s) * 10 ^ n"
      using x'(2) o(4) by (intro mult_right_mono) auto
    also have "\<dots> < 2 ^ 96" using ok unfolding anchor_ok_def by blast
    finally show "\<bar>x\<bar> * 10 ^ n < 2 ^ 96" .
  qed
  then have sub: "(case sd of Ask \<Rightarrow> dsub D px origin | Bid \<Rightarrow> dsub D origin px) = x"
    using x by (cases sd) (simp_all add: sub_fits)
  have r: "\<bar>rat_of_int k0\<bar> < 2 ^ 63"
  proof -
    have "\<bar>of_int k0\<bar> * s \<le> \<bar>px - origin\<bar> + 2 * s" using kb o(4) by (simp add: abs_mult)
    then have "\<bar>of_int k0\<bar> \<le> \<bar>px - origin\<bar> / s + 2" using o(4) by (simp add: field_simps)
    also have "\<dots> < 2 ^ 63" using o(7) by simp
    finally show ?thesis .
  qed
  then have "rat_of_int \<bar>k0\<bar> < rat_of_int (2 ^ 63)" by simp
  then have "\<bar>k0\<bar> < 2 ^ 63" by (simp only: of_int_less_iff)
  then have "parse_i64 (dec_ceil (ddiv D x s)) = Some k0"
    unfolding dec_ceil_def k [symmetric] parse_i64_def by auto
  then show "(case sd of Ask \<Rightarrow> ask_k_at_or_above D w px | Bid \<Rightarrow> bid_k_at_or_below D w px) = Some k0"
    using w sub o(4) by (cases sd) (simp_all add: ask_k_at_or_above_def bid_k_at_or_below_def)
  show "case sd of Ask \<Rightarrow> px \<le> p | Bid \<Rightarrow> p \<le> px" if "slot_price D w sd k0 = Some p"
    using that w c1 x e
    by (cases sd) (auto simp: slot_price_def ask_price_def bid_price_def Let_def split: if_splits)
  show "slot_price D w sd k0 \<noteq> None" if "sd = Ask"
    using that w c1 x e o(5) by (simp add: slot_price_def ask_price_def Let_def)
qed

end

text \<open>A band that starts at or after the anchor has every slot on the anchored side of the price.\<close>

lemma anchored_slot:
  assumes D: "decimal_arith D" and ok: "anchor_ok n origin s px" and w: "wv_step w = Some s"
      "(case sd of Ask \<Rightarrow> wv_ask_origin w | Bid \<Rightarrow> wv_bid_origin w) = Some origin"
    and red: "p_size (cx_position cx) \<noteq> 0" "sd = (if 0 < p_size (cx_position cx) then Ask else Bid)"
      "(case sd of Ask \<Rightarrow> wv_last_bid_fill w | Bid \<Rightarrow> wv_last_ask_fill w) = Some px"
    and k: "k \<in> set (band_slots (pick_band (anchored_bands D w cx t) sd))" and p: "slot_price D w sd k = Some p"
  shows "case sd of Ask \<Rightarrow> px \<le> p | Bid \<Rightarrow> p \<le> px"
proof -
  define x where "x = (case sd of Ask \<Rightarrow> px - origin | Bid \<Rightarrow> origin - px)"
  have s: "0 < s" "0 < px" using ok by (auto simp: anchor_ok_def)
  note ix = decimal_arith.anchor_index [OF D ok x_def w refl]
  obtain k1 where "pick_band (anchored_bands D w cx t) sd = window_from w (max k1 \<lceil>ddiv D x s\<rceil>)"
    using ix(1) red w(1) s by (cases sd)
      (auto simp: anchored_bands_def reduce_anchor_band_def wave_bands_def Let_def split: if_splits)
  with k have k0: "\<lceil>ddiv D x s\<rceil> \<le> k" by (simp add: band_slots_def window_from_def)
  obtain p0 where p0: "slot_price D w sd \<lceil>ddiv D x s\<rceil> = Some p0"
    using ix(3) decimal_arith.slot_defined(1) [OF D w(1) s(1) k0] p by (cases sd) auto
  show ?thesis
    using ix(2) [OF p0] decimal_arith.slot_order [OF D w(1) s(1) k0 p0 p] by (cases sd) auto
qed

text \<open>
  C27: With a position open, no order on the reducing side is placed on the losing side of the
  last opening fill: a long position is never offered below the last bid fill, a short one never
  bid for above the last ask fill.
\<close>

theorem wave_reduce_floor:
  assumes "decimal_arith D" "wave_on_event D cx w = Some (w', acts)" "Quote q \<in> set acts"
    and "p_size (cx_position cx) \<noteq> 0" "qi_side q = (if 0 < p_size (cx_position cx) then Ask else Bid)"
    and "(case qi_side q of Ask \<Rightarrow> wv_last_bid_fill w' | Bid \<Rightarrow> wv_last_ask_fill w') = Some px"
    and "wv_step w' = Some s" "(case qi_side q of Ask \<Rightarrow> wv_ask_origin w' | Bid \<Rightarrow> wv_bid_origin w') = Some origin"
    and "anchor_ok n origin s px"
  shows "case qi_side q of Ask \<Rightarrow> px \<le> qi_price q | Bid \<Rightarrow> qi_price q \<le> px"
proof -
  have "lattice_ready (prepared D cx w)"
    using assms(2,3) by (auto simp: wave_on_event_stages Let_def split: if_splits)
  then have fin: "wave_finish D cx (relattice D cx (prepared D cx w)) = Some (w', acts)"
    using assms(2) by (simp add: wave_on_event_stages Let_def)
  obtain rel v cs where r: "relattice D cx (prepared D cx w) = (rel, v, cs)" by (metis prod_cases3)
  have cs: "\<exists>id. a = Cancel id" if "a \<in> set cs" for a
    using r that by (auto simp: relattice_def maybe_relattice_def Let_def split: prod.splits option.splits if_splits)
  let ?v = "v\<lparr>wv_inner_dirty := False\<rparr>"
  show ?thesis
  proof (cases "touch_bands D cx ?v")
    case None
    with fin r have "acts = cs" by (simp add: wave_finish_def Let_def)
    with assms(3) cs show ?thesis by blast
  next
    case (Some t)
    obtain bb ab where t: "t = (bb, ab)" by fastforce
    from fin r Some t obtain as where
      pl: "wave_place D cx rel (wv_inner_dirty v) bb ab ?v = Some (w', as)" and acts: "acts = cs @ as"
      by (auto simp: wave_finish_def Let_def)
    from acts assms(3) cs have a: "Quote q \<in> set as" by auto
    obtain k p z where k: "k \<in> set (band_slots (pick_band (anchored_bands D ?v cx (bb, ab)) (qi_side q)))"
        "slot_price D ?v (qi_side q) k = Some p" and q: "qi_price q = p"
      using wave_place_spec(2) [OF pl refl a] by (auto simp: make_post_only_intent_def placeable_def)
    obtain r' where W: "clear_marks w' = (clear_marks ?v)\<lparr>wv_last_refill := r'\<rparr>"
      using wave_place_spec(1) [OF pl refl] by blast
    have f: "wv_step w' = wv_step ?v" "wv_bid_origin w' = wv_bid_origin ?v" "wv_ask_origin w' = wv_ask_origin ?v"
        "wv_last_bid_fill w' = wv_last_bid_fill ?v" "wv_last_ask_fill w' = wv_last_ask_fill ?v"
      using arg_cong [OF W, of wv_step] arg_cong [OF W, of wv_bid_origin] arg_cong [OF W, of wv_ask_origin]
        arg_cong [OF W, of wv_last_bid_fill] arg_cong [OF W, of wv_last_ask_fill] by (simp_all add: clear_marks_def)
    show ?thesis
      using anchored_slot [OF assms(1,9) _ _ assms(4,5) _ k] assms(6-8) unfolding f q by blast
  qed
qed

end
