(* ===== verification/Wave_Runs.thy ===== *)
theory Wave_Runs
  imports Wave_State
begin

text \<open>
  Concrete runs of the Wave handler: the witnesses of its properties, and the run on which a
  rebuilt lattice is left with holes.
\<close>

definition eg_wave_symbol :: symbol where
  "eg_wave_symbol = \<lparr>sy_base = ''BTC'', sy_quote = ''USDC'', sy_venue = ''test'', sy_kind = Perp\<rparr>"

definition eg_wave_config :: wave_config where
  "eg_wave_config = \<lparr>wc_notional_per_order = 1000, wc_tick_size = 1, wc_step_size = 1,
     wc_min_notional = 0, wc_levels = 2, wc_steps_bps = 100, wc_steps_inner = 0,
     wc_auto_inner = False, wc_round_trips = 2, wc_force_refill_secs = 0, wc_auto_step = False,
     wc_auto_step_k = 1, wc_maker_fee_bps = 2, wc_auto_candle_window = 60,
     wc_relattice_drift_pct = 1 / 10, wc_size_mult = 1, wc_size_ramp = 1, wc_reduce_to_avg = False\<rparr>"

definition eg_wave_book :: "rat \<Rightarrow> rat \<Rightarrow> snapshot" where
  "eg_wave_book b a = \<lparr>sn_symbol = eg_wave_symbol, sn_bids = [\<lparr>lv_price = b, lv_size = 5\<rparr>],
     sn_asks = [\<lparr>lv_price = a, lv_size = 5\<rparr>], sn_ts = 10\<rparr>"

definition eg_wave_cx ::
    "rat \<Rightarrow> rat \<Rightarrow> rat \<Rightarrow> fill list \<Rightarrow> (quote_id \<times> quote_intent) list \<Rightarrow> strategy_context" where
  "eg_wave_cx b a pos fs os = \<lparr>cx_symbol = eg_wave_symbol, cx_now = 10,
     cx_position = \<lparr>p_symbol = eg_wave_symbol, p_size = pos, p_avg_entry = 100, p_realized_pnl = 0\<rparr>,
     cx_recent_fills = fs, cx_latest_book = eg_wave_book b a, cx_open_quotes = os, cx_recent_liqs = []\<rparr>"

definition eg_wave_order :: "side \<Rightarrow> rat \<Rightarrow> rat \<Rightarrow> quote_intent" where
  "eg_wave_order sd p q = make_post_only_intent eg_wave_symbol sd p q"

text \<open>The state once the lattice is frozen at 98 and 102 and the first grid has been sent.\<close>

definition eg_wave :: wave where
  "eg_wave = (wave_new eg_wave_config)\<lparr>wv_step := Some 1, wv_bid_origin := Some 98,
     wv_ask_origin := Some 102, wv_emitted_bid := {0, 1}, wv_emitted_ask := {0, 1}, wv_last_refill := Some 10\<rparr>"

definition eg_wave_grid :: "(quote_id \<times> quote_intent) list" where
  "eg_wave_grid = [(1, eg_wave_order Bid 98 10), (2, eg_wave_order Bid 97 10),
     (3, eg_wave_order Ask 102 9), (4, eg_wave_order Ask 103 9)]"

lemmas wave_eval_data =
  eg_wave_symbol_def eg_wave_config_def eg_wave_book_def eg_wave_cx_def eg_wave_order_def
  eg_wave_def eg_wave_grid_def make_post_only_intent_def wave_new_def dec_u32_def

lemmas wave_eval_code =
  wave_on_event_def wave_observe_def best_price_def update_candles_def wave_tops_def
  top_overrides_def effective_inner_def effective_step_bps_def compute_step_def dec_ceil_def dec_floor_def
  wave_init_def lattice_ready_def maybe_relattice_def touch_band_bid_def touch_band_ask_def
  bid_k_at_or_below_def ask_k_at_or_above_def parse_i64_def window_from_def wave_levels_def
  wave_place_def reduce_anchor_band_def wave_bands_def emit_both_def emit_window_slots_def
  emit_slot_def slot_price_def bid_price_def ask_price_def crosses_def emitted_def mark_emitted_def
  resting_at_def wave_quote_def size_for_notional_def depth_mult_def reduce_size_boost_def
  refill_due_def band_missing_def prune_side_def prune_trailing_tail_def prune_full_window_def
  band_edges_def force_due_def stamp_refill_def note_fill_def

lemma upto_pair [simp]: "[k..k + 1] = [k, k + 1 :: int]"
  by (simp add: upto.simps)

lemma upto_01 [simp]: "[0..1] = [0, 1 :: int]" "[1..2] = [1, 2 :: int]"
  using upto_pair [of 0] upto_pair [of 1] by simp_all

lemmas wave_stage_code =
  prepared_def relattice_def touch_bands_def wave_finish_def

lemma first_prepared:
  "prepared exact_decimal (eg_wave_cx 98 102 0 [] []) (wave_new eg_wave_config)
     = eg_wave\<lparr>wv_emitted_bid := {}, wv_emitted_ask := {}, wv_last_refill := None\<rparr>"
  unfolding prepared_def wave_observe_def wave_tops_def Let_def
  by (simp add: wave_eval_data wave_eval_code)

text \<open>The stages of a handler call on a prepared state.\<close>

lemma run_stages:
  assumes "prepared D cx w = p" "lattice_ready p" "relattice D cx p = (rel, v, cs)"
    and "touch_bands D cx (v\<lparr>wv_inner_dirty := False\<rparr>) = Some (bb, ab)"
    and "wave_place D cx rel (wv_inner_dirty v) bb ab (v\<lparr>wv_inner_dirty := False\<rparr>) = Some (w', as)"
    and "acts = cs @ as"
  shows "wave_on_event D cx w = Some (w', acts)"
  using assms by (simp add: wave_on_event_stages wave_finish_def Let_def)

lemma run_relattice:
  assumes "wave_tops D cx w = (tb, ta)" "maybe_relattice D cx tb ta w = r"
  shows "relattice D cx w = r"
  using assms by (simp add: relattice_def)

lemma first_grid:
  "wave_on_event exact_decimal (eg_wave_cx 98 102 0 [] []) (wave_new eg_wave_config)
     = Some (eg_wave, map (\<lambda>(i, q). Quote q) eg_wave_grid)"
proof (rule run_stages [OF first_prepared])
  let ?p = "eg_wave\<lparr>wv_emitted_bid := {}, wv_emitted_ask := {}, wv_last_refill := None\<rparr>"
  show "lattice_ready ?p" by (simp add: lattice_ready_def wave_eval_data)
  show "relattice exact_decimal (eg_wave_cx 98 102 0 [] []) ?p = (False, ?p, [])"
    unfolding relattice_def wave_tops_def Let_def by (simp add: wave_eval_data wave_eval_code)
  show "touch_bands exact_decimal (eg_wave_cx 98 102 0 [] []) (?p\<lparr>wv_inner_dirty := False\<rparr>)
      = Some (\<lparr>low_k = 0, high_k = 1\<rparr>, \<lparr>low_k = 0, high_k = 1\<rparr>)"
    unfolding touch_bands_def wave_tops_def Let_def by (simp add: wave_eval_data wave_eval_code)
  show "wave_place exact_decimal (eg_wave_cx 98 102 0 [] []) False (wv_inner_dirty ?p) \<lparr>low_k = 0, high_k = 1\<rparr>
      \<lparr>low_k = 0, high_k = 1\<rparr> (?p\<lparr>wv_inner_dirty := False\<rparr>) = Some (eg_wave, map (\<lambda>(i, q). Quote q) eg_wave_grid)"
    unfolding wave_place_def Let_def by (simp add: wave_eval_data wave_eval_code floor_eq_iff insert_commute)
qed simp

subsection \<open>Witnesses\<close>

theorem wave_orders_safe_witness:
  "0 < (98 :: rat) \<and> (\<exists>k. slot_price exact_decimal eg_wave Bid k = Some 98)
     \<and> \<not> crosses exact_decimal 1 (eg_wave_book 98 102) Bid 98 \<and> \<not> resting_at (eg_wave_cx 98 102 0 [] []) Bid 98"
  using wave_orders_safe [OF first_grid, of "Quote (eg_wave_order Bid 98 10)"]
  by (simp add: wave_eval_data)

definition eg_wave_next :: strategy_context where
  "eg_wave_next = (eg_wave_cx 98 102 0 [] [])\<lparr>cx_open_quotes := eg_wave_grid\<rparr>"

lemma first_quiet: "\<not> relattices exact_decimal (eg_wave_cx 98 102 0 [] []) (wave_new eg_wave_config)"
proof -
  let ?p = "eg_wave\<lparr>wv_emitted_bid := {}, wv_emitted_ask := {}, wv_last_refill := None\<rparr>"
  have "relattice exact_decimal (eg_wave_cx 98 102 0 [] []) ?p = (False, ?p, [])"
    unfolding relattice_def wave_tops_def Let_def by (simp add: wave_eval_data wave_eval_code)
  then show ?thesis by (simp add: relattices_def first_prepared)
qed

lemma first_carried: "carried_out [] (map (\<lambda>(i, q). Quote q) eg_wave_grid) eg_wave_grid"
  by (force simp: carried_out_def eg_wave_grid_def)

theorem wave_settles_witness:
  "\<not> relattices exact_decimal eg_wave_next eg_wave
     \<and> (\<exists>w''. wave_on_event exact_decimal eg_wave_next eg_wave = Some (w'', []))"
proof -
  have cx: "cx_open_quotes (eg_wave_cx 98 102 0 [] []) = []" by (simp add: eg_wave_cx_def)
  have "touch_bands exact_decimal (eg_wave_cx 98 102 0 [] []) eg_wave
      = Some (\<lparr>low_k = 0, high_k = 1\<rparr>, \<lparr>low_k = 0, high_k = 1\<rparr>)"
    unfolding touch_bands_def wave_tops_def Let_def by (simp add: wave_eval_data wave_eval_code)
  moreover have "slot_price exact_decimal eg_wave Ask 0 = Some 102"
    by (simp add: slot_price_def ask_price_def eg_wave_def)
  ultimately show ?thesis
    using wave_settles [OF exact.decimal_arith_axioms first_grid, of eg_wave_grid] first_carried first_quiet
    by (simp add: cx eg_wave_next_def wave_new_def eg_wave_config_def)
qed

theorem wave_well_formed_witness: "wave_ok exact_decimal eg_wave"
proof (rule wave_well_formed [OF exact.decimal_arith_axioms])
  show "wave_reach exact_decimal eg_wave_config eg_wave"
    by (rule wave_event [OF wave_start first_grid])
  show "fits (wc_tick_size eg_wave_config)"
    by (rule fits_grid [of 0]) (simp_all add: eg_wave_config_def)
qed

theorem wave_size_returns_witness:
  "\<exists>q. size_for_notional exact_decimal (eg_wave_config\<lparr>wc_min_notional := 1000\<rparr>) 98 500 = Some q
     \<and> 1000 \<le> dmul exact_decimal q 98
     \<and> (q = dmul exact_decimal (dec_floor (ddiv exact_decimal (ddiv exact_decimal 500 98) 1)) 1
        \<or> (\<exists>k. q = of_int k * 1 \<and> (of_int k - 2) * (1 * 98) < (1000 :: rat)))"
  using wave_size_returns [OF exact.decimal_arith_axioms, of 0 0 98 "eg_wave_config\<lparr>wc_min_notional := 1000\<rparr>" 500]
  by (simp add: lots_ok_def eg_wave_config_def)

text \<open>A long position whose last buy, at 103, lies above the best ask: offers start at 103.\<close>

definition eg_wave_buy :: fill where
  "eg_wave_buy = \<lparr>f_quote_id = 9, f_price = 103, f_size = 5, f_fee_asset = ''USDC'', f_fee_amount = 0,
     f_fee_quote = 0, f_side = Bid, f_ts = 9, f_is_full = True, f_trade_id = None\<rparr>"

definition eg_wave_long :: wave where
  "eg_wave_long = eg_wave\<lparr>wv_last_bid_fill := Some 103, wv_emitted_ask := {1, 2}\<rparr>"

lemma long_grid:
  "wave_on_event exact_decimal (eg_wave_cx 98 102 5 [eg_wave_buy] []) (wave_new eg_wave_config)
     = Some (eg_wave_long, [Quote (eg_wave_order Bid 98 10), Quote (eg_wave_order Bid 97 10),
         Quote (eg_wave_order Ask 103 9), Quote (eg_wave_order Ask 104 9)])"
proof (rule run_stages)
  let ?p = "eg_wave\<lparr>wv_emitted_bid := {}, wv_emitted_ask := {}, wv_last_refill := None, wv_last_bid_fill := Some 103\<rparr>"
  let ?cx = "eg_wave_cx 98 102 5 [eg_wave_buy] []" and ?b = "\<lparr>low_k = 0, high_k = 1\<rparr>"
  show "prepared exact_decimal ?cx (wave_new eg_wave_config) = ?p"
    unfolding prepared_def wave_observe_def wave_tops_def Let_def
    by (simp add: wave_eval_data wave_eval_code eg_wave_buy_def)
  show "lattice_ready ?p" by (simp add: lattice_ready_def wave_eval_data)
  show "relattice exact_decimal ?cx ?p = (False, ?p, [])"
    unfolding relattice_def wave_tops_def Let_def by (simp add: wave_eval_data wave_eval_code)
  show "touch_bands exact_decimal ?cx (?p\<lparr>wv_inner_dirty := False\<rparr>) = Some (?b, ?b)"
    unfolding touch_bands_def wave_tops_def Let_def by (simp add: wave_eval_data wave_eval_code)
  show "wave_place exact_decimal ?cx False (wv_inner_dirty ?p) ?b ?b (?p\<lparr>wv_inner_dirty := False\<rparr>)
      = Some (eg_wave_long, [Quote (eg_wave_order Bid 98 10), Quote (eg_wave_order Bid 97 10),
         Quote (eg_wave_order Ask 103 9), Quote (eg_wave_order Ask 104 9)])"
    unfolding wave_place_def Let_def
    by (simp add: wave_eval_data eg_wave_long_def wave_eval_code floor_eq_iff insert_commute)
qed simp

theorem wave_reduce_floor_witness:
  "(103 :: rat) \<le> qi_price (eg_wave_order Ask 103 9) \<and> (103 :: rat) \<le> qi_price (eg_wave_order Ask 104 9)"
  using wave_reduce_floor [OF exact.decimal_arith_axioms long_grid, of "eg_wave_order Ask 103 9" 103 1 102 0]
    wave_reduce_floor [OF exact.decimal_arith_axioms long_grid, of "eg_wave_order Ask 104 9" 103 1 102 0]
  by (simp add: wave_eval_data eg_wave_long_def anchor_ok_def)

subsection \<open>A rebuilt lattice with holes\<close>

text \<open>
  The book moves to 99 and 103 and the step doubles, so the lattice is rebuilt and all four
  resting orders are cancelled.  The new slots at 97 and 103 coincide with two of them, which
  the emission still takes for resting: after the answer the ask side has its nearest order at
  105, and with two round trips configured the next event does not repair it.
\<close>

definition eg_wave_rebuilt :: wave where
  "eg_wave_rebuilt = eg_wave\<lparr>wv_step := Some 2, wv_bid_origin := Some 99, wv_ask_origin := Some 103,
     wv_emitted_bid := {0}, wv_emitted_ask := {1}\<rparr>"

definition eg_wave_left :: "(quote_id \<times> quote_intent) list" where
  "eg_wave_left = [(5, eg_wave_order Bid 99 10), (6, eg_wave_order Ask 105 9)]"

lemma rebuilt_grid:
  "wave_on_event exact_decimal (eg_wave_cx 99 103 0 [] eg_wave_grid) eg_wave
     = Some (eg_wave_rebuilt, [Cancel 1, Cancel 2, Cancel 3, Cancel 4] @ map (\<lambda>(i, q). Quote q) eg_wave_left)"
proof (rule run_stages)
  let ?p = "eg_wave\<lparr>wv_emitted_bid := {}, wv_emitted_ask := {}\<rparr>"
  let ?v = "?p\<lparr>wv_step := Some 2, wv_bid_origin := Some 99, wv_ask_origin := Some 103\<rparr>"
  let ?cx = "eg_wave_cx 99 103 0 [] eg_wave_grid" and ?b = "\<lparr>low_k = 0, high_k = 1\<rparr>"
  show "prepared exact_decimal ?cx eg_wave = ?p"
    unfolding prepared_def wave_observe_def wave_tops_def Let_def by (simp add: wave_eval_data wave_eval_code)
  show "lattice_ready ?p" by (simp add: lattice_ready_def wave_eval_data)
  have "\<lceil>101 / (100 :: rat)\<rceil> = 2" by (simp add: ceiling_eq_iff)
  then show "relattice exact_decimal ?cx ?p = (True, ?v, [Cancel 1, Cancel 2, Cancel 3, Cancel 4])"
    unfolding relattice_def wave_tops_def Let_def by (simp add: wave_eval_data wave_eval_code Let_def)
  show "touch_bands exact_decimal ?cx (?v\<lparr>wv_inner_dirty := False\<rparr>) = Some (?b, ?b)"
    unfolding touch_bands_def wave_tops_def Let_def by (simp add: wave_eval_data wave_eval_code)
  show "wave_place exact_decimal ?cx True (wv_inner_dirty ?v) ?b ?b (?v\<lparr>wv_inner_dirty := False\<rparr>)
      = Some (eg_wave_rebuilt, map (\<lambda>(i, q). Quote q) eg_wave_left)"
    unfolding wave_place_def Let_def
    by (simp add: wave_eval_data eg_wave_rebuilt_def eg_wave_left_def wave_eval_code floor_eq_iff insert_commute)
qed simp

theorem relattice_leaves_hole:
  "\<exists>w' w'' acts. wave_on_event exact_decimal (eg_wave_cx 99 103 0 [] eg_wave_grid) eg_wave = Some (w', acts)
     \<and> carried_out eg_wave_grid acts eg_wave_left
     \<and> slot_price exact_decimal w' Ask 0 = Some 103 \<and> \<not> list_ex (\<lambda>(i, q). qi_price q = 103) eg_wave_left
     \<and> wave_on_event exact_decimal (eg_wave_cx 99 103 0 [] eg_wave_left) w' = Some (w'', [])"
proof -
  let ?p = "eg_wave_rebuilt\<lparr>wv_emitted_bid := {}, wv_emitted_ask := {}\<rparr>"
  let ?cx = "eg_wave_cx 99 103 0 [] eg_wave_left" and ?b = "\<lparr>low_k = 0, high_k = 1\<rparr>"
  have data: "eg_wave_rebuilt = eg_wave\<lparr>wv_step := Some 2, wv_bid_origin := Some 99, wv_ask_origin := Some 103,
     wv_emitted_bid := {0}, wv_emitted_ask := {1}\<rparr>" by (simp add: eg_wave_rebuilt_def)
  have "wave_on_event exact_decimal ?cx eg_wave_rebuilt = Some (?p\<lparr>wv_inner_dirty := False\<rparr>, [])"
  proof (rule run_stages)
    show "prepared exact_decimal ?cx eg_wave_rebuilt = ?p"
      unfolding prepared_def wave_observe_def wave_tops_def Let_def by (simp add: data wave_eval_data wave_eval_code)
    show "lattice_ready ?p" by (simp add: lattice_ready_def data wave_eval_data)
    have "\<lceil>101 / (100 :: rat)\<rceil> = 2" by (simp add: ceiling_eq_iff)
    then show "relattice exact_decimal ?cx ?p = (False, ?p, [])"
      unfolding relattice_def wave_tops_def Let_def by (simp add: data wave_eval_data wave_eval_code Let_def)
    show "touch_bands exact_decimal ?cx (?p\<lparr>wv_inner_dirty := False\<rparr>) = Some (?b, ?b)"
      unfolding touch_bands_def wave_tops_def Let_def by (simp add: data wave_eval_data wave_eval_code)
    show "wave_place exact_decimal ?cx False (wv_inner_dirty ?p) ?b ?b (?p\<lparr>wv_inner_dirty := False\<rparr>)
        = Some (?p\<lparr>wv_inner_dirty := False\<rparr>, [])"
      unfolding wave_place_def Let_def by (simp add: data eg_wave_left_def wave_eval_data wave_eval_code)
  qed simp
  moreover have "carried_out eg_wave_grid ([Cancel 1, Cancel 2, Cancel 3, Cancel 4] @ map (\<lambda>(i, q). Quote q) eg_wave_left) eg_wave_left"
    by (simp add: carried_out_def eg_wave_grid_def eg_wave_left_def)
  moreover have "slot_price exact_decimal eg_wave_rebuilt Ask 0 = Some 103"
    by (simp add: slot_price_def ask_price_def data eg_wave_def)
  moreover have "\<not> list_ex (\<lambda>(i, q). qi_price q = 103) eg_wave_left"
    by (simp add: eg_wave_left_def eg_wave_order_def make_post_only_intent_def)
  ultimately show ?thesis using rebuilt_grid by blast
qed

end
