(* ===== verification/Touch_Strategies.thy ===== *)
theory Touch_Strategies
  imports Strategy_Api "HOL-Library.AList"
begin

text \<open>
  Three strategies that quote at the touch: \<open>top_of_book.rs\<close> joins or improves the best prices,
  \<open>micro_price.rs\<close> quotes around the size-weighted mid, \<open>joker.rs\<close> keeps an order at the touch of
  each side and never moves it.  The sizing that \<open>joker.rs\<close>, \<open>tide.rs\<close> and \<open>mantis.rs\<close> spell out
  identically is \<open>lot_quote_size\<close>.
\<close>

definition best_of :: "level list \<Rightarrow> price option" where
  "best_of ls = map_option lv_price (first_opt ls)"

text \<open>A notional as a size: floored to the lot step, raised to the minimum notional.\<close>

definition lot_quote_size :: "decimal_ops \<Rightarrow> rat \<Rightarrow> rat \<Rightarrow> rat \<Rightarrow> price \<Rightarrow> qsize" where
  "lot_quote_size D notional step mn price =
     (if price \<le> 0 then 0
      else
        let raw = ddiv D notional price;
            stepped = (if 0 < step then dmul D (dec_floor (ddiv D raw step)) step else raw)
        in if 0 < mn \<and> dmul D stepped price < mn \<and> 0 < step
           then dmul D (dec_ceil (ddiv D (ddiv D mn price) step)) step
           else stepped)"

subsection \<open>Top of book\<close>

record tob_config =
  tc_size_per_quote :: qsize
  tc_tick_size :: rat
  tc_improve_when_spread_gt_ticks :: u32
  tc_min_requote_interval_ms :: u64
  tc_max_skew_ticks :: u32
  tc_skew_unit :: qsize
  tc_max_imbalance_ticks :: u32

record tob =
  tb_config :: tob_config
  tb_last_bid :: "price option"
  tb_last_ask :: "price option"
  tb_last_requote_ts :: "timestamp option"

definition tob_new :: "tob_config \<Rightarrow> tob" where
  "tob_new c = \<lparr>tb_config = c, tb_last_bid = None, tb_last_ask = None, tb_last_requote_ts = None\<rparr>"

definition tob_imbalance_skew :: "decimal_ops \<Rightarrow> tob_config \<Rightarrow> qsize \<Rightarrow> qsize \<Rightarrow> rat" where
  "tob_imbalance_skew D c b a =
     (if tc_max_imbalance_ticks c = 0 then 0
      else
        let total = dadd D b a
        in if total \<le> 0 then 0
           else
             let raw = dmul D (ddiv D (dsub D b a) total) (dec_u32 (tc_max_imbalance_ticks c));
                 shifted = (if 0 \<le> raw then dec_floor raw else - dec_floor (- raw))
             in dmul D shifted (tc_tick_size c))"

definition tob_targets :: "decimal_ops \<Rightarrow> tob_config \<Rightarrow> snapshot \<Rightarrow> position \<Rightarrow> (price \<times> price) option" where
  "tob_targets D c sn pos = (case (first_opt (sn_bids sn), first_opt (sn_asks sn)) of
     (Some bl, Some al) \<Rightarrow>
       (let best_bid = lv_price bl; best_ask = lv_price al; tick = tc_tick_size c
        in if tick \<le> 0 then None
           else
             let spread_ticks = dec_floor (ddiv D (dsub D best_ask best_bid) tick);
                 (bid, ask) = (if dec_u32 (tc_improve_when_spread_gt_ticks c) < spread_ticks
                   then (dadd D best_bid tick, dsub D best_ask tick) else (best_bid, best_ask));
                 skew = dadd D (inventory_skew_price D (p_size pos) (tc_max_skew_ticks c) (tc_skew_unit c) tick)
                   (tob_imbalance_skew D c (lv_size bl) (lv_size al));
                 (bid, ask) = (if skew \<noteq> 0 then (dadd D bid skew, dadd D ask skew) else (bid, ask));
                 bid = (if best_ask \<le> bid then dsub D best_ask tick else bid);
                 ask = (if ask \<le> best_bid then dadd D best_bid tick else ask)
             in Some (if ask \<le> bid then (best_bid, best_ask) else (bid, ask)))
   | _ \<Rightarrow> None)"

text \<open>The two arms of the handler differ in the book and the time stamp they use.\<close>

definition tob_requote ::
    "decimal_ops \<Rightarrow> strategy_context \<Rightarrow> snapshot \<Rightarrow> timestamp \<Rightarrow> tob \<Rightarrow> tob \<times> action list" where
  "tob_requote D cx sn ts w = (case tob_targets D (tb_config w) sn (cx_position cx) of None \<Rightarrow> (w, [])
     | Some (bid, ask) \<Rightarrow>
         if should_requote_on_tick_drift D (tb_last_bid w) (tb_last_ask w) (tb_last_requote_ts w) bid ask ts
              (tc_min_requote_interval_ms (tb_config w)) (tc_tick_size (tb_config w))
         then (w\<lparr>tb_last_bid := Some bid, tb_last_ask := Some ask, tb_last_requote_ts := Some ts\<rparr>,
               post_only_pair (cx_symbol cx) bid ask (tc_size_per_quote (tb_config w)))
         else (w, [NoOp]))"

definition tob_on_event :: "decimal_ops \<Rightarrow> strategy_context \<Rightarrow> market_event \<Rightarrow> tob \<Rightarrow> tob \<times> action list" where
  "tob_on_event D cx ev w = (case ev of
     Trade _ _ _ _ _ \<Rightarrow> (w, [])
   | FillEv _ \<Rightarrow> (w, [])
   | Heartbeat ts \<Rightarrow> tob_requote D cx (cx_latest_book cx) ts w
   | BookUpdate sn \<Rightarrow> tob_requote D cx sn (sn_ts sn) w)"

subsection \<open>Micro price\<close>

record micro_config =
  mc_size_per_quote :: qsize
  mc_tick_size :: rat
  mc_half_spread_ticks :: u32
  mc_min_requote_interval_ms :: u64
  mc_max_skew_ticks :: u32
  mc_skew_unit :: qsize

record micro =
  mi_config :: micro_config
  mi_last_bid :: "price option"
  mi_last_ask :: "price option"
  mi_last_requote_ts :: "timestamp option"

definition micro_new :: "micro_config \<Rightarrow> micro" where
  "micro_new c = \<lparr>mi_config = c, mi_last_bid = None, mi_last_ask = None, mi_last_requote_ts = None\<rparr>"

definition micro_targets :: "decimal_ops \<Rightarrow> micro_config \<Rightarrow> snapshot \<Rightarrow> position \<Rightarrow> (price \<times> price) option" where
  "micro_targets D c sn pos = (case (first_opt (sn_bids sn), first_opt (sn_asks sn)) of
     (Some bl, Some al) \<Rightarrow>
       (let best_bid = lv_price bl; best_ask = lv_price al; tick = mc_tick_size c;
            total = dadd D (lv_size bl) (lv_size al)
        in if tick \<le> 0 \<or> total \<le> 0 then None
           else
             let mp = ddiv D (dadd D (dmul D (lv_size bl) best_ask) (dmul D (lv_size al) best_bid)) total;
                 half = dmul D (dec_u32 (mc_half_spread_ticks c)) tick;
                 bid = dmul D (dec_floor (ddiv D (dsub D mp half) tick)) tick;
                 ask = dmul D (dec_ceil (ddiv D (dadd D mp half) tick)) tick;
                 skew = inventory_skew_price D (p_size pos) (mc_max_skew_ticks c) (mc_skew_unit c) tick;
                 (bid, ask) = (if skew \<noteq> 0 then (dadd D bid skew, dadd D ask skew) else (bid, ask));
                 bid = (if best_ask \<le> bid then dsub D best_ask tick else bid);
                 ask = (if ask \<le> best_bid then dadd D best_bid tick else ask);
                 bid = (if ask \<le> bid then dsub D ask tick else bid)
             in Some (bid, ask))
   | _ \<Rightarrow> None)"

definition micro_requote ::
    "decimal_ops \<Rightarrow> strategy_context \<Rightarrow> snapshot \<Rightarrow> timestamp \<Rightarrow> micro \<Rightarrow> micro \<times> action list" where
  "micro_requote D cx sn ts w = (case micro_targets D (mi_config w) sn (cx_position cx) of None \<Rightarrow> (w, [])
     | Some (bid, ask) \<Rightarrow>
         if should_requote_on_tick_drift D (mi_last_bid w) (mi_last_ask w) (mi_last_requote_ts w) bid ask ts
              (mc_min_requote_interval_ms (mi_config w)) (mc_tick_size (mi_config w))
         then (w\<lparr>mi_last_bid := Some bid, mi_last_ask := Some ask, mi_last_requote_ts := Some ts\<rparr>,
               post_only_pair (cx_symbol cx) bid ask (mc_size_per_quote (mi_config w)))
         else (w, [NoOp]))"

definition micro_on_event :: "decimal_ops \<Rightarrow> strategy_context \<Rightarrow> market_event \<Rightarrow> micro \<Rightarrow> micro \<times> action list" where
  "micro_on_event D cx ev w = (case ev of
     Trade _ _ _ _ _ \<Rightarrow> (w, [])
   | FillEv _ \<Rightarrow> (w, [])
   | Heartbeat ts \<Rightarrow> micro_requote D cx (cx_latest_book cx) ts w
   | BookUpdate sn \<Rightarrow> micro_requote D cx sn (sn_ts sn) w)"

subsection \<open>Joker\<close>

definition in_flight_grace_ns :: u64 where
  "in_flight_grace_ns = 10000000000"

record joker_config =
  jc_notional_per_order :: rat
  jc_tick_size :: rat
  jc_step_size :: rat
  jc_min_notional :: rat
  jc_max_order_age_secs :: u64
  jc_order_tick_offset :: u32
  jc_order_tick_tolerance :: u32

text \<open>The placements, \<open>(side, price) \<mapsto> time stamp\<close>; the order of the list is never observed.\<close>

type_synonym placements = "((side \<times> price) \<times> timestamp) list"

record joker =
  jk_config :: joker_config
  jk_placement_ts :: placements

definition joker_new :: "joker_config \<Rightarrow> joker" where
  "joker_new c = \<lparr>jk_config = c, jk_placement_ts = []\<rparr>"

definition joker_quote_size :: "decimal_ops \<Rightarrow> joker_config \<Rightarrow> price \<Rightarrow> qsize" where
  "joker_quote_size D c p =
     lot_quote_size D (jc_notional_per_order c) (jc_step_size c) (jc_min_notional c) p"

definition joker_quote :: "decimal_ops \<Rightarrow> joker_config \<Rightarrow> symbol \<Rightarrow> side \<Rightarrow> price \<Rightarrow> action" where
  "joker_quote D c sy sd p = Quote (make_post_only_intent sy sd p (joker_quote_size D c p))"

definition already_at :: "decimal_ops \<Rightarrow> strategy_context \<Rightarrow> side \<Rightarrow> price \<Rightarrow> joker \<Rightarrow> bool" where
  "already_at D cx sd p w =
     (let tol = dmul D (dec_u32 (jc_order_tick_tolerance (jk_config w))) (jc_tick_size (jk_config w));
          lo = dsub D p tol; hi = dadd D p tol
      in list_ex (\<lambda>(id, q). qi_side q = sd \<and> lo \<le> qi_price q \<and> qi_price q \<le> hi) (cx_open_quotes cx)
         \<or> list_ex (\<lambda>((s, x), ts). s = sd \<and> lo \<le> x \<and> x \<le> hi \<and> sat_sub (cx_now cx) ts < in_flight_grace_ns)
             (jk_placement_ts w))"

text \<open>The age sweep: forgotten placements first, then the orders that are too old.\<close>

definition sweep_one ::
    "timestamp \<Rightarrow> u64 \<Rightarrow> placements \<times> action list \<Rightarrow> quote_id \<times> quote_intent \<Rightarrow> placements \<times> action list" where
  "sweep_one now max_age pa iq = (case (pa, iq) of ((ps, as), (i, q)) \<Rightarrow>
     (case map_of ps (qi_side q, qi_price q) of None \<Rightarrow> (ps, as)
      | Some ts \<Rightarrow> if max_age < sat_sub now ts
          then (AList.delete (qi_side q, qi_price q) ps, as @ [Cancel i]) else (ps, as)))"

definition joker_sweep :: "strategy_context \<Rightarrow> joker \<Rightarrow> joker \<times> action list" where
  "joker_sweep cx w =
     (let age = jc_max_order_age_secs (jk_config w)
      in if age = 0 then (w, [])
         else
           let keep = (\<lambda>(k, ts). k \<in> set (map (\<lambda>(id, q). (qi_side q, qi_price q)) (cx_open_quotes cx))
                 \<or> sat_sub (cx_now cx) ts < in_flight_grace_ns);
               (ps, as) = foldl (sweep_one (cx_now cx) (sat_mul age 1000000000))
                 (filter keep (jk_placement_ts w), []) (cx_open_quotes cx)
           in (w\<lparr>jk_placement_ts := ps\<rparr>, as))"

text \<open>\<open>i32\<close>: negative improves, positive lags behind.\<close>

definition joker_offset :: "decimal_ops \<Rightarrow> joker_config \<Rightarrow> rat" where
  "joker_offset D c = dmul D (of_int \<bar>sint (jc_order_tick_offset c)\<bar>) (jc_tick_size c)"

definition joker_target :: "decimal_ops \<Rightarrow> joker_config \<Rightarrow> strategy_context \<Rightarrow> side \<Rightarrow> price option" where
  "joker_target D c cx sd =
     (let tick = jc_tick_size c; off = joker_offset D c; improve = sint (jc_order_tick_offset c) < 0;
          bb = best_of (sn_bids (cx_latest_book cx)); ba = best_of (sn_asks (cx_latest_book cx))
      in case sd of
           Bid \<Rightarrow> (case bb of None \<Rightarrow> None
             | Some bp \<Rightarrow> if bp \<le> 0 \<or> tick \<le> 0 then None
                 else
                   let p = (if improve then dadd D bp off else dsub D bp off)
                   in Some (case ba of Some ap \<Rightarrow> if 0 < ap \<and> dsub D ap tick < p then dsub D ap tick else p
                        | None \<Rightarrow> p))
         | Ask \<Rightarrow> (case ba of None \<Rightarrow> None
             | Some ap \<Rightarrow> if ap \<le> 0 \<or> tick \<le> 0 then None
                 else
                   let p = (if improve then dsub D ap off else dadd D ap off)
                   in Some (case bb of Some bp \<Rightarrow> if 0 < bp \<and> p < dadd D bp tick then dadd D bp tick else p
                        | None \<Rightarrow> p)))"

definition joker_side :: "decimal_ops \<Rightarrow> strategy_context \<Rightarrow> side \<Rightarrow> joker \<Rightarrow> joker \<times> action list" where
  "joker_side D cx sd w = (case joker_target D (jk_config w) cx sd of None \<Rightarrow> (w, [])
     | Some p \<Rightarrow> if 0 < p \<and> \<not> already_at D cx sd p w
         then (w\<lparr>jk_placement_ts := AList.update (sd, p) (cx_now cx) (jk_placement_ts w)\<rparr>,
               [joker_quote D (jk_config w) (cx_symbol cx) sd p])
         else (w, []))"

definition joker_on_event :: "decimal_ops \<Rightarrow> strategy_context \<Rightarrow> market_event \<Rightarrow> joker \<Rightarrow> joker \<times> action list" where
  "joker_on_event D cx ev w =
     (let (w, cs) = joker_sweep cx w; (w, bs) = joker_side D cx Bid w; (w, as) = joker_side D cx Ask w
      in (w, cs @ bs @ as))"

definition joker_on_notional_updated :: "rat \<Rightarrow> joker \<Rightarrow> joker \<times> action list" where
  "joker_on_notional_updated n w =
     (if 0 < n then w\<lparr>jk_config := (jk_config w)\<lparr>jc_notional_per_order := n\<rparr>\<rparr> else w, [])"

end
