(* ===== verification/Strategy_Contract.thy ===== *)
theory Strategy_Contract
  imports Runner_Order
begin

text \<open>
  The contract between the runner and a strategy.  A strategy whose states satisfy \<open>ok\<close> answers
  an event of its symbol with orders of that symbol at prices and sizes that are not negative,
  and every callback leads back to such a state.  The runner then keeps the strategy in \<open>ok\<close>
  through a whole run, and with it the inventory cap at every event.  The strategies interpret
  the contract in their own theories.
\<close>

lemma apply_fill_strategy: "rn_strategy (apply_fill D f s) = rn_strategy s"
  by (simp add: apply_fill_def Let_def)

lemma prepared_stages:
  "rn_strategy (bagger_step E c ts s) = rn_strategy s" "rn_strategy (liquidation_step E c ts s) = rn_strategy s"
  "rn_strategy (wallet_step D c s) = rn_strategy s" "rn_strategy (funding_step D c ts s) = rn_strategy s"
  "rn_strategy (mark_step ts s) = rn_strategy s" "rn_strategy (book_step D ev s) = rn_strategy s"
  "rn_strategy (stamp_step D c ts s) = rn_strategy s"
subgoal by (simp add: bagger_step_def Let_def apply_fill_strategy split: option.split prod.split)
subgoal by (simp add: liquidation_step_def Let_def apply_fill_strategy split: option.split prod.split)
subgoal by (simp add: wallet_step_def Let_def)
subgoal by (simp add: funding_step_def Let_def split: option.split prod.split)
subgoal by (simp add: mark_step_def Let_def split: option.split prod.split)
subgoal by (simp add: book_step_def Let_def split: option.split market_event.split)
subgoal by (simp add: stamp_step_def boundary_step_def Let_def)
done

locale bounded_quoter =
  fixes S :: "'s strategy" and ok :: "'s \<Rightarrow> bool" and sy :: symbol
  assumes quotes: "ok st \<Longrightarrow> cx_symbol x = sy \<Longrightarrow> orders_ok sy (snd (st_on_event S x e st))"
    and keeps_event: "ok st \<Longrightarrow> cx_symbol x = sy \<Longrightarrow> ok (fst (st_on_event S x e st))"
    and keeps_reject: "ok st \<Longrightarrow> ok (fst (st_on_quote_rejected S x q r st))"
    and keeps_notional: "ok st \<Longrightarrow> ok (fst (st_on_notional_updated S x v st))"
    and keeps_max: "ok st \<Longrightarrow> ok (fst (st_on_max_position_updated S x v st))"
begin

lemma answers: "ok st \<Longrightarrow> answers_own_symbol sy S st"
  by (simp add: answers_own_symbol_def quotes)

lemma prepared: "rn_strategy (prepare_step E c ev ts s) = rn_strategy s"
  by (simp add: prepare_step_def Let_def prepared_stages)

lemma asked: "ok (rn_strategy s) \<Longrightarrow> rc_symbol c = sy \<Longrightarrow> ok (rn_strategy (strategy_step E c S ev ts s))"
  by (simp add: strategy_step_def risk_filter_def case_prod_unfold Let_def keeps_event context_of_def
      split: option.splits)

lemma filled: "ok (rn_strategy s) \<Longrightarrow> rc_symbol c = sy \<Longrightarrow> ok (rn_strategy (fill_step E c S ts s f))"
  by (simp add: fill_step_def republish_def apply_fill_def post_fill_dispatch_def case_prod_unfold Let_def keeps_event
      context_of_def)

lemma all_filled:
  "ok (rn_strategy s) \<Longrightarrow> rc_symbol c = sy \<Longrightarrow> ok (rn_strategy (foldl (fill_step E c S ts) s fs))"
  by (induction fs arbitrary: s) (simp_all add: filled)

lemma matched: "ok (rn_strategy s) \<Longrightarrow> rc_symbol c = sy \<Longrightarrow> ok (rn_strategy (market_step E c S ev ts s))"
  by (simp add: market_step_def case_prod_unfold Let_def all_filled)

lemma recovered_one: "ok (rn_strategy s) \<Longrightarrow> ok (rn_strategy (recover_one E c S ts pos s r))"
  by (simp add: recover_one_def case_prod_unfold Let_def keeps_reject)

lemma recovered_all: "ok (rn_strategy s) \<Longrightarrow> ok (rn_strategy (foldl (recover_one E c S ts pos) s rs))"
  by (induction rs arbitrary: s) (simp_all add: recovered_one)

lemma recovered: "ok (rn_strategy s) \<Longrightarrow> ok (rn_strategy (recovery_rounds E c S ts n s))"
  by (induction n arbitrary: s) (simp_all add: case_prod_unfold Let_def recovered_all)

lemma skimmed: "skim_step D c s = Some s' \<Longrightarrow> rn_strategy s' = rn_strategy s"
  by (auto simp: skim_step_def Let_def split: option.splits if_splits)

lemma event:
  "event_step E c S ev s = Some s' \<Longrightarrow> ok (rn_strategy s) \<Longrightarrow> rc_symbol c = sy \<Longrightarrow> ok (rn_strategy s')"
  by (auto simp: event_step_def Let_def recovery_step_def prepared dest!: skimmed
      intro!: recovered matched asked)

lemma settled: "ok (rn_strategy s) \<Longrightarrow> ok (rn_strategy (settle E c S s))"
  by (simp add: settle_def maxpos_arm_def notional_arm_def channel_arm_def post_fill_dispatch_def
      case_prod_unfold Let_def keeps_notional keeps_max split: option.splits)

lemma run:
  "run_events E c S evs s = Some s' \<Longrightarrow> ok (rn_strategy s) \<Longrightarrow> rc_symbol c = sy \<Longrightarrow> ok (rn_strategy s')"
proof (induction evs arbitrary: s)
  case (Cons ev evs)
  then show ?case by (auto simp: bind_eq_Some_conv dest: event [OF _ settled])
qed (auto simp: settled)

text \<open>The cap at any event of a run.\<close>

lemma run_capped:
  assumes "run_events E c S evs (runner_start E c st g fs liqs) = Some s" "ok st" "rc_symbol c = sy"
    and "se_dec (re_sim E) = exact_decimal" "0 < rn_max_position (prepare_step E c ev ts s)"
    and "committed_notional_by_side exact_decimal (rn_sim (prepare_step E c ev ts s)) sy = (rb, ra)"
    and "committed_notional_by_side exact_decimal
           (rn_sim (strategy_step E c S ev ts (prepare_step E c ev ts s))) sy = (rb', ra')"
  shows "(rb' = rb \<or> rb < rb' \<and> deployed (prepare_step E c ev ts s) + rb' \<le> rn_max_position (prepare_step E c ev ts s))
    \<and> (ra' = ra \<or> ra < ra' \<and> - rn_max_position (prepare_step E c ev ts s) \<le> deployed (prepare_step E c ev ts s) - ra')"
proof -
  have "ok (rn_strategy (runner_start E c st g fs liqs))"
    using assms(2) by (simp add: runner_start_def Let_def)
  from run [OF assms(1) this assms(3)] have "ok (rn_strategy (prepare_step E c ev ts s))"
    by (simp add: prepared)
  from commitment_capped [of E "prepare_step E c ev ts s" c S, OF assms(4,5)] answers [OF this] assms(3,6,7)
  show ?thesis by simp
qed

end

end
