(* ===== verification/Touch_Laws.thy ===== *)
theory Touch_Laws
  imports Touch_Strategies Strategy_Contract
begin

text \<open>
  What the strategies at the touch guarantee: the two-sided ones never cross the book or
  themselves, and the joker never crosses the book nor doubles an order; the joker meets the
  runner's contract, so the inventory cap holds through every backtest of it.
\<close>

text \<open>A tick away from either touch is representable.\<close>

definition touch_fits :: "rat \<Rightarrow> snapshot \<Rightarrow> bool" where
  "touch_fits tick sn \<longleftrightarrow> (case best_of (sn_asks sn) of None \<Rightarrow> True | Some a \<Rightarrow> fits (a - tick))
     \<and> (case best_of (sn_bids sn) of None \<Rightarrow> True | Some b \<Rightarrow> fits (b + tick))"

definition uncrossed :: "snapshot \<Rightarrow> bool" where
  "uncrossed sn \<longleftrightarrow> (case (best_of (sn_bids sn), best_of (sn_asks sn)) of
     (Some b, Some a) \<Rightarrow> b < a | _ \<Rightarrow> True)"

context decimal_arith
begin

lemma inside_ask: "touch_fits tick sn \<Longrightarrow> 0 < tick \<Longrightarrow> first_opt (sn_asks sn) = Some l \<Longrightarrow> dsub D (lv_price l) tick < lv_price l"
  by (simp add: touch_fits_def best_of_def sub_fits)

lemma inside_bid: "touch_fits tick sn \<Longrightarrow> 0 < tick \<Longrightarrow> first_opt (sn_bids sn) = Some l \<Longrightarrow> lv_price l < dadd D (lv_price l) tick"
  by (simp add: touch_fits_def best_of_def add_fits)

lemma lot_size_nonneg:
  assumes "0 \<le> n"
  shows "0 \<le> lot_quote_size D n step mn p"
proof (cases "0 < p")
  case p: True
  have q: "0 \<le> ddiv D n p" using assms p by (intro div_nonneg) simp
  have f: "0 \<le> dmul D (dec_floor (ddiv D (ddiv D n p) step)) step" if "0 < step"
    using q that by (intro mul_nonneg mult_nonneg_nonneg dec_floor_nonneg div_nonneg) simp_all
  have c: "0 \<le> dmul D (dec_ceil (ddiv D (ddiv D mn p) step)) step" if "0 < step" "0 < mn"
  proof -
    have "0 \<le> ddiv D (ddiv D mn p) step" using that p by (intro div_nonneg divide_nonneg_nonneg) simp_all
    then show ?thesis using that by (intro mul_nonneg mult_nonneg_nonneg) (simp_all add: dec_ceil_def)
  qed
  show ?thesis using p q f c by (simp add: lot_quote_size_def Let_def)
qed (simp add: lot_quote_size_def)

end

subsection \<open>Two-sided quotes\<close>

definition two_sided :: "snapshot \<Rightarrow> price \<Rightarrow> price \<Rightarrow> bool" where
  "two_sided sn bid ask \<longleftrightarrow> bid < ask
     \<and> (case best_of (sn_asks sn) of None \<Rightarrow> True | Some a \<Rightarrow> bid < a)
     \<and> (case best_of (sn_bids sn) of None \<Rightarrow> True | Some b \<Rightarrow> b < ask)"

lemma tob_two_sided:
  assumes D: "decimal_arith D" and t: "tob_targets D c sn pos = Some (bid, ask)"
    and sn: "uncrossed sn" "touch_fits (tc_tick_size c) sn"
  shows "two_sided sn bid ask"
proof -
  obtain bl al where l: "first_opt (sn_bids sn) = Some bl" "first_opt (sn_asks sn) = Some al" "0 < tc_tick_size c"
    using t by (auto simp: tob_targets_def Let_def split: option.splits if_splits)
  note i = decimal_arith.inside_ask [OF D sn(2) l(3,2)] decimal_arith.inside_bid [OF D sn(2) l(3,1)]
  show ?thesis
    using t sn(1) l i
    by (auto simp: tob_targets_def two_sided_def uncrossed_def best_of_def Let_def split: if_splits)
qed

lemma micro_two_sided:
  assumes D: "decimal_arith D" and t: "micro_targets D c sn pos = Some (bid, ask)"
    and sn: "uncrossed sn" "touch_fits (mc_tick_size c) sn" and ask: "fits (ask - mc_tick_size c)"
  shows "two_sided sn bid ask"
proof -
  obtain bl al where l: "first_opt (sn_bids sn) = Some bl" "first_opt (sn_asks sn) = Some al" "0 < mc_tick_size c"
    using t by (auto simp: micro_targets_def Let_def split: option.splits if_splits)
  note i = decimal_arith.inside_ask [OF D sn(2) l(3,2)] decimal_arith.inside_bid [OF D sn(2) l(3,1)]
    decimal_arith.sub_fits [OF D ask]
  show ?thesis
    using t sn(1) l i
    by (auto simp: micro_targets_def two_sided_def uncrossed_def best_of_def Let_def split: if_splits)
qed

text \<open>
  C32: When the top-of-book strategy quotes, it replaces everything by one bid and one ask that
  cross neither the book nor each other, joining, improving and both skews included, and it
  remembers exactly these two prices.
\<close>

theorem tob_quotes_safe:
  assumes D: "decimal_arith D" and ev: "tob_on_event D cx ev w = (w', acts)" and q: "Quote q \<in> set acts"
    and sn: "sn = (case ev of BookUpdate b \<Rightarrow> b | _ \<Rightarrow> cx_latest_book cx)"
    and book: "uncrossed sn" "touch_fits (tc_tick_size (tb_config w)) sn"
  shows "\<exists>bid ask. acts = post_only_pair (cx_symbol cx) bid ask (tc_size_per_quote (tb_config w))
    \<and> two_sided sn bid ask \<and> tb_last_bid w' = Some bid \<and> tb_last_ask w' = Some ask"
proof -
  obtain ts where r: "tob_requote D cx sn ts w = (w', acts)"
    using ev q unfolding sn by (cases ev) (simp_all add: tob_on_event_def)
  show ?thesis
  proof (cases "tob_targets D (tb_config w) sn (cx_position cx)")
    case None
    with r q show ?thesis by (simp add: tob_requote_def)
  next
    case (Some t)
    obtain bid ask where t: "t = (bid, ask)" by fastforce
    from tob_two_sided [OF D Some [unfolded t] book] r q show ?thesis
      by (simp add: tob_requote_def Some t split: if_splits) auto
  qed
qed

subsection \<open>Joker\<close>

lemma joker_sweep_spec:
  assumes "joker_sweep cx w = (w', as)"
  shows "jk_config w' = jk_config w" and "a \<in> set as \<Longrightarrow> \<exists>i \<in> fst ` set (cx_open_quotes cx). a = Cancel i"
proof -
  have fold: "foldl (sweep_one now age) (ps, bs) iqs = (ps', bs')
      \<Longrightarrow> b \<in> set bs' \<Longrightarrow> b \<in> set bs \<or> (\<exists>i \<in> fst ` set iqs. b = Cancel i)" for now age ps bs iqs ps' bs' b
    by (induction iqs arbitrary: ps bs) (fastforce simp: sweep_one_def split: option.splits if_splits prod.splits)+
  show "jk_config w' = jk_config w"
    using assms by (auto simp: joker_sweep_def Let_def split: if_splits prod.splits)
  show "a \<in> set as \<Longrightarrow> \<exists>i \<in> fst ` set (cx_open_quotes cx). a = Cancel i"
    using assms fold by (fastforce simp: joker_sweep_def Let_def split: if_splits prod.splits)
qed

text \<open>What a side of the answer may be.\<close>

definition joker_placed :: "decimal_ops \<Rightarrow> strategy_context \<Rightarrow> joker \<Rightarrow> side \<Rightarrow> price \<Rightarrow> bool" where
  "joker_placed D cx w sd p \<longleftrightarrow> joker_target D (jk_config w) cx sd = Some p \<and> 0 < p \<and> \<not> already_at D cx sd p w"

lemma joker_side_cases:
  assumes "joker_side D cx sd w = (w', as)"
  obtains "w' = w" "as = []" "\<And>p. \<not> joker_placed D cx w sd p"
  | p where "joker_placed D cx w sd p" "as = [joker_quote D (jk_config w) (cx_symbol cx) sd p]"
      "w' = w\<lparr>jk_placement_ts := AList.update (sd, p) (cx_now cx) (jk_placement_ts w)\<rparr>"
  using assms by (auto simp: joker_side_def joker_placed_def split: option.splits if_splits)

text \<open>An order on one side does not bear on the other.\<close>

lemma already_at_other:
  assumes "sd \<noteq> sd'"
  shows "already_at D cx sd p (w\<lparr>jk_placement_ts := AList.update (sd', p') ts (jk_placement_ts w)\<rparr>) = already_at D cx sd p w"
proof -
  have "list_ex P (AList.update (sd', p') ts ps) = list_ex P ps"
    if "\<And>x t. \<not> P ((sd', x), t)" for P and ps :: placements
    using that by (induction ps) auto
  then show ?thesis using assms by (simp add: already_at_def Let_def)
qed

lemma joker_placed_unique: "joker_placed D cx v sd p \<Longrightarrow> joker_placed D cx v sd p' \<Longrightarrow> p = p'"
  by (simp add: joker_placed_def)

lemma joker_side_spec:
  assumes "joker_side D cx sd w = (w', as)"
  shows "jk_config w' = jk_config w"
    and "a \<in> set as \<longleftrightarrow> (\<exists>p. joker_placed D cx w sd p \<and> a = joker_quote D (jk_config w) (cx_symbol cx) sd p)"
    and "map_of (jk_placement_ts w') (sd', p) = (if sd' = sd \<and> joker_placed D cx w sd p then Some (cx_now cx)
          else map_of (jk_placement_ts w) (sd', p))"
    and "sd' \<noteq> sd \<Longrightarrow> joker_placed D cx w' sd' = joker_placed D cx w sd'"
proof -
  show "jk_config w' = jk_config w" using assms by (cases rule: joker_side_cases) simp_all
  show "a \<in> set as \<longleftrightarrow> (\<exists>p. joker_placed D cx w sd p \<and> a = joker_quote D (jk_config w) (cx_symbol cx) sd p)"
    using assms by (cases rule: joker_side_cases) (auto dest: joker_placed_unique)
  show "map_of (jk_placement_ts w') (sd', p) = (if sd' = sd \<and> joker_placed D cx w sd p then Some (cx_now cx)
          else map_of (jk_placement_ts w) (sd', p))"
    using assms by (cases rule: joker_side_cases) (auto simp: update_conv' dest: joker_placed_unique)
  show "sd' \<noteq> sd \<Longrightarrow> joker_placed D cx w' sd' = joker_placed D cx w sd'"
    using assms by (cases rule: joker_side_cases) (auto simp: joker_placed_def already_at_other fun_eq_iff)
qed

lemma joker_event_spec:
  assumes "joker_on_event D cx ev w = (w', acts)" "joker_sweep cx w = (v, cs)"
  shows "jk_config w' = jk_config w"
    and "a \<in> set acts \<longleftrightarrow> a \<in> set cs
      \<or> (\<exists>sd p. joker_placed D cx v sd p \<and> a = joker_quote D (jk_config w) (cx_symbol cx) sd p)"
    and "map_of (jk_placement_ts w') (sd, p)
      = (if joker_placed D cx v sd p then Some (cx_now cx) else map_of (jk_placement_ts v) (sd, p))"
proof -
  obtain v1 bs where b: "joker_side D cx Bid v = (v1, bs)" by fastforce
  obtain v2 as where a: "joker_side D cx Ask v1 = (v2, as)" by fastforce
  have r: "w' = v2" "acts = cs @ bs @ as" using assms a b by (simp_all add: joker_on_event_def)
  note B = joker_side_spec [OF b] and A = joker_side_spec [OF a]
  have cfg: "jk_config v = jk_config w" using joker_sweep_spec(1) [OF assms(2)] .
  have ask: "joker_placed D cx v1 Ask = joker_placed D cx v Ask" by (rule B(4)) simp
  show "jk_config w' = jk_config w" using A(1) B(1) cfg r by simp
  have "(\<exists>sd. P sd) = (P Bid \<or> P Ask)" for P by (metis side.exhaust)
  then show "a \<in> set acts \<longleftrightarrow> a \<in> set cs
      \<or> (\<exists>sd p. joker_placed D cx v sd p \<and> a = joker_quote D (jk_config w) (cx_symbol cx) sd p)"
    using A(2) [of a] B(2) [of a] B(1) cfg ask r by simp
  show "map_of (jk_placement_ts w') (sd, p)
      = (if joker_placed D cx v sd p then Some (cx_now cx) else map_of (jk_placement_ts v) (sd, p))"
    using A(3) [of sd p] B(3) [of sd p] ask r by (cases sd) simp_all
qed

text \<open>
  Every order of the joker is a post-only order of its symbol at a positive price on its own
  side of the touch, at least a tick inside the opposite one, and no order of its side rests
  within the tolerance; whatever else it answers cancels a resting order.
\<close>

theorem joker_orders_safe:
  assumes "joker_on_event D cx ev w = (w', acts)" "a \<in> set acts"
  shows "case a of
      Quote q \<Rightarrow> qi_symbol q = cx_symbol cx \<and> qi_tif q = PostOnly \<and> 0 < qi_price q
        \<and> (case qi_side q of
             Bid \<Rightarrow> (case best_of (sn_asks (cx_latest_book cx)) of None \<Rightarrow> True
               | Some x \<Rightarrow> 0 < x \<longrightarrow> qi_price q \<le> dsub D x (jc_tick_size (jk_config w)))
           | Ask \<Rightarrow> (case best_of (sn_bids (cx_latest_book cx)) of None \<Rightarrow> True
               | Some x \<Rightarrow> 0 < x \<longrightarrow> dadd D x (jc_tick_size (jk_config w)) \<le> qi_price q))
        \<and> \<not> already_at D cx (qi_side q) (qi_price q) (w\<lparr>jk_placement_ts := []\<rparr>)
    | Cancel i \<Rightarrow> i \<in> fst ` set (cx_open_quotes cx)
    | _ \<Rightarrow> False"
proof -
  obtain v cs where v: "joker_sweep cx w = (v, cs)" by fastforce
  have cfg: "jk_config v = jk_config w" using joker_sweep_spec(1) [OF v] .
  from assms(2) joker_event_spec(2) [OF assms(1) v, of a] consider "a \<in> set cs"
    | sd p where "joker_placed D cx v sd p" "a = joker_quote D (jk_config w) (cx_symbol cx) sd p" by blast
  then show ?thesis
  proof cases
    case 1
    with joker_sweep_spec(2) [OF v] show ?thesis by force
  next
    case (2 sd p)
    then show ?thesis
      by (cases sd) (auto simp: joker_placed_def joker_quote_def make_post_only_intent_def joker_target_def already_at_def
        cfg Let_def split: option.splits if_splits)
  qed
qed

subsection \<open>In flight\<close>

text \<open>A young placement survives the sweep, unless an order rests at its price.\<close>

lemma map_of_filter_kept: "map_of ps k = Some v \<Longrightarrow> P (k, v) \<Longrightarrow> map_of (filter P ps) k = Some v"
  by (induction ps) (auto split: if_splits)

lemma sweep_keeps:
  assumes "joker_sweep cx w = (v, cs)" "map_of (jk_placement_ts w) (sd, p) = Some ts"
    and "sat_sub (cx_now cx) ts < in_flight_grace_ns"
  shows "map_of (jk_placement_ts v) (sd, p) = Some ts
    \<or> list_ex (\<lambda>(i, q). qi_side q = sd \<and> qi_price q = p) (cx_open_quotes cx)"
proof -
  have fold: "map_of (fst (foldl (sweep_one now age) (ps, bs) iqs)) (sd, p) = map_of ps (sd, p)
      \<or> list_ex (\<lambda>(i, q). qi_side q = sd \<and> qi_price q = p) iqs" for now age ps bs iqs
  proof (induction iqs arbitrary: ps bs)
    case (Cons iq iqs)
    obtain ps1 bs1 where 1: "sweep_one now age (ps, bs) iq = (ps1, bs1)" by fastforce
    have "map_of ps1 (sd, p) = map_of ps (sd, p) \<or> (case iq of (i, q) \<Rightarrow> qi_side q = sd \<and> qi_price q = p)"
      using 1 by (auto simp: sweep_one_def delete_conv' split: prod.splits option.splits if_splits)
    with Cons.IH [of ps1 bs1] show ?case by (auto simp: 1)
  qed simp
  show ?thesis
  proof (cases "jc_max_order_age_secs (jk_config w) = 0")
    case True
    with assms(1,2) show ?thesis by (simp add: joker_sweep_def)
  next
    case False
    let ?keep = "\<lambda>(k, ts). k \<in> set (map (\<lambda>(id, q). (qi_side q, qi_price q)) (cx_open_quotes cx))
      \<or> sat_sub (cx_now cx) ts < in_flight_grace_ns"
    have "map_of (filter ?keep (jk_placement_ts w)) (sd, p) = Some ts"
      by (rule map_of_filter_kept [OF assms(2)]) (use assms(3) in simp)
    with fold [of "cx_now cx" "sat_mul (jc_max_order_age_secs (jk_config w)) 1000000000"
        "filter ?keep (jk_placement_ts w)" "[]" "cx_open_quotes cx"] assms(1) False
    show ?thesis by (auto simp: joker_sweep_def Let_def split: prod.splits)
  qed
qed


subsection \<open>In a backtest\<close>

definition joker_strategy :: "decimal_ops \<Rightarrow> joker strategy" where
  "joker_strategy D = \<lparr>st_on_event = joker_on_event D, st_on_quote_rejected = (\<lambda>x q r w. (w, [])),
     st_on_notional_updated = (\<lambda>x. joker_on_notional_updated),
     st_on_max_position_updated = (\<lambda>x v w. (w, [])), st_on_shutdown = (\<lambda>x w. (w, []))\<rparr>"

lemma joker_answers:
  assumes D: "decimal_arith D" and n: "0 \<le> jc_notional_per_order (jk_config w)" and sy: "cx_symbol cx = sy"
  shows "orders_ok sy (snd (joker_on_event D cx ev w))" "jk_config (fst (joker_on_event D cx ev w)) = jk_config w"
proof -
  obtain w' acts where e: "joker_on_event D cx ev w = (w', acts)" by fastforce
  obtain v cs where v: "joker_sweep cx w = (v, cs)" by fastforce
  show "jk_config (fst (joker_on_event D cx ev w)) = jk_config w" using joker_event_spec(1) [OF e v] e by simp
  show "orders_ok sy (snd (joker_on_event D cx ev w))"
    using joker_event_spec(2) [OF e v] joker_sweep_spec(2) [OF v] decimal_arith.lot_size_nonneg [OF D n]
    unfolding e orders_ok_def
    by (fastforce simp: joker_quote_def make_post_only_intent_def joker_quote_size_def joker_placed_def sy)
qed

interpretation joker: bounded_quoter "joker_strategy exact_decimal" "\<lambda>w. 0 \<le> jc_notional_per_order (jk_config w)" sy for sy
  by unfold_locales
    (auto simp: joker_strategy_def joker_answers [OF exact.decimal_arith_axioms] joker_on_notional_updated_def)


end
