(* ===== verification/Touch_Runs.thy ===== *)
theory Touch_Runs
  imports Touch_Laws Runner_Runs
begin

text \<open>
  Concrete runs of the strategies at the touch: the witnesses of their properties and the runs on
  which the joker meets itself and never forgets.
\<close>

definition eg_touch_book :: "rat \<Rightarrow> rat \<Rightarrow> snapshot" where
  "eg_touch_book b a = \<lparr>sn_symbol = eg_market, sn_bids = [\<lparr>lv_price = b, lv_size = 5\<rparr>],
     sn_asks = [\<lparr>lv_price = a, lv_size = 5\<rparr>], sn_ts = 10\<rparr>"

definition eg_touch_cx :: "rat \<Rightarrow> rat \<Rightarrow> timestamp \<Rightarrow> strategy_context" where
  "eg_touch_cx b a now = \<lparr>cx_symbol = eg_market, cx_now = now,
     cx_position = \<lparr>p_symbol = eg_market, p_size = 0, p_avg_entry = 0, p_realized_pnl = 0\<rparr>,
     cx_recent_fills = [], cx_latest_book = eg_touch_book b a, cx_open_quotes = [], cx_recent_liqs = []\<rparr>"

definition eg_tob :: tob_config where
  "eg_tob = \<lparr>tc_size_per_quote = 2, tc_tick_size = 1, tc_improve_when_spread_gt_ticks = 0,
     tc_min_requote_interval_ms = 0, tc_max_skew_ticks = 0, tc_skew_unit = 0, tc_max_imbalance_ticks = 0\<rparr>"

text \<open>Two ticks wide: improving would meet in the middle, so the strategy joins the touch.\<close>

theorem tob_quotes_safe_witness:
  "\<exists>bid ask. snd (tob_on_event exact_decimal (eg_touch_cx 100 102 5) (Heartbeat 5) (tob_new eg_tob))
       = post_only_pair eg_market bid ask 2 \<and> two_sided (eg_touch_book 100 102) bid ask"
proof -
  have "fits (101 :: rat)" by (rule fits_grid [of 0]) simp_all
  then have b: "uncrossed (eg_touch_book 100 102)" "touch_fits 1 (eg_touch_book 100 102)"
    by (simp_all add: uncrossed_def touch_fits_def eg_touch_book_def best_of_def)
  have e: "tob_on_event exact_decimal (eg_touch_cx 100 102 5) (Heartbeat 5) (tob_new eg_tob)
      = ((tob_new eg_tob)\<lparr>tb_last_bid := Some 100, tb_last_ask := Some 102, tb_last_requote_ts := Some 5\<rparr>,
         post_only_pair eg_market 100 102 2)"
    by (simp add: tob_on_event_def tob_requote_def tob_targets_def tob_new_def eg_tob_def eg_touch_cx_def
        eg_touch_book_def inventory_skew_price_def tob_imbalance_skew_def should_requote_on_tick_drift_def dec_u32_def)
  have "Quote (make_post_only_intent eg_market Bid 100 2) \<in> set (post_only_pair eg_market 100 102 2)"
    by (simp add: post_only_pair_def)
  from tob_quotes_safe [OF exact.decimal_arith_axioms e this refl] b show ?thesis
    unfolding e snd_conv by (auto simp: eg_tob_def tob_new_def eg_touch_cx_def)
qed

text \<open>An offset of minus one: improve by a tick.\<close>

definition eg_joker :: "u32 \<Rightarrow> joker_config" where
  "eg_joker off = \<lparr>jc_notional_per_order = 1000, jc_tick_size = 1, jc_step_size = 1, jc_min_notional = 0,
     jc_max_order_age_secs = 0, jc_order_tick_offset = off, jc_order_tick_tolerance = 0\<rparr>"

definition eg_touch_order :: "side \<Rightarrow> rat \<Rightarrow> rat \<Rightarrow> quote_intent" where
  "eg_touch_order sd p q = make_post_only_intent eg_market sd p q"

lemmas joker_eval = eg_touch_book_def eg_touch_cx_def eg_joker_def eg_touch_order_def joker_new_def
  joker_on_event_def joker_sweep_def joker_side_def joker_target_def joker_offset_def best_of_def
  already_at_def in_flight_grace_ns_def joker_quote_def joker_quote_size_def lot_quote_size_def
  make_post_only_intent_def dec_u32_def dec_floor_def floor_eq_iff sat_sub_def

lemma joker_first:
  "joker_on_event exact_decimal (eg_touch_cx 98 102 5) (Heartbeat 5) (joker_new (eg_joker 0))
     = (\<lparr>jk_config = eg_joker 0, jk_placement_ts = [((Bid, 98), 5), ((Ask, 102), 5)]\<rparr>,
        [Quote (eg_touch_order Bid 98 10), Quote (eg_touch_order Ask 102 9)])"
  by (simp add: joker_eval Let_def)

theorem joker_orders_safe_witness:
  "(98 :: rat) \<le> dsub exact_decimal 102 1
   \<and> \<not> already_at exact_decimal (eg_touch_cx 98 102 5) Bid 98 (joker_new (eg_joker 0))"
  using joker_orders_safe [OF joker_first, of "Quote (eg_touch_order Bid 98 10)"]
  by (simp add: eg_touch_order_def make_post_only_intent_def eg_touch_cx_def eg_touch_book_def best_of_def
      joker_new_def eg_joker_def)

lemma joker_second:
  "joker_on_event exact_decimal (eg_touch_cx 97 102 6) (Heartbeat 6)
       \<lparr>jk_config = eg_joker 0, jk_placement_ts = [((Bid, 98), 5), ((Ask, 102), 5)]\<rparr>
     = (\<lparr>jk_config = eg_joker 0, jk_placement_ts = [((Bid, 98), 5), ((Ask, 102), 5), ((Bid, 97), 6)]\<rparr>,
        [Quote (eg_touch_order Bid 97 10)])"
  by (simp add: joker_eval Let_def)


text \<open>
  Improving by a tick on a book two ticks wide puts the bid and the ask at the same price: the
  guard only looks at the book, not at the order of the other side.
\<close>

theorem joker_crosses_itself:
  "snd (joker_on_event exact_decimal (eg_touch_cx 100 102 5) (Heartbeat 5) (joker_new (eg_joker (- 1))))
     = [Quote (eg_touch_order Bid 101 9), Quote (eg_touch_order Ask 101 9)]"
  by (simp add: joker_eval Let_def)

text \<open>
  With the age sweep off, nothing ever leaves the table of placements: every placement is kept.
\<close>

theorem joker_never_forgets:
  assumes "jc_max_order_age_secs (jk_config w) = 0" "map_of (jk_placement_ts w) k = Some ts"
  shows "map_of (jk_placement_ts (fst (joker_on_event D cx ev w))) k \<noteq> None"
proof -
  have "joker_sweep cx w = (w, [])" using assms(1) by (simp add: joker_sweep_def)
  from joker_event_spec(3) [OF prod.collapse [symmetric] this, of D ev "fst k" "snd k"] assms(2)
  show ?thesis by (simp split: if_splits)
qed

subsection \<open>A backtest\<close>

definition eg_joker_config :: runner_config where
  "eg_joker_config = eg_runner_config\<lparr>rc_max_position_pct := 100\<rparr>"

definition eg_joker_begin :: "joker runner" where
  "eg_joker_begin = runner_start eg_runner_env eg_joker_config (joker_new (eg_joker 0)) None
     (fill_sim_new (eg_sim_config False)) None"

definition eg_joker_state :: "joker runner" where
  "eg_joker_state = prepare_step eg_runner_env eg_joker_config (BookUpdate (eg_touch_book 98 102)) 10 eg_joker_begin"

lemma eg_joker_start:
  "run_events eg_runner_env eg_joker_config (joker_strategy exact_decimal) [] eg_joker_begin = Some eg_joker_begin"
  by (simp add: settle_def notional_arm_def maxpos_arm_def eg_joker_begin_def eg_joker_config_def
      eg_runner_config_def runner_start_def compounding_def Let_def)

lemma late_stages_cap:
  "rn_max_position (bagger_step E c ts s) = rn_max_position s"
  "rn_max_position (liquidation_step E c ts s) = rn_max_position s"
subgoal by (simp add: bagger_step_def Let_def apply_fill_def split: option.split prod.split)
subgoal by (simp add: liquidation_step_def Let_def apply_fill_def split: option.split prod.split)
done

lemma early_stages_tracker:
  "rn_tracker (mark_step ts s) = rn_tracker s" "rn_tracker (book_step D ev s) = rn_tracker s"
  "rn_tracker (stamp_step D c ts s) = rn_tracker s"
subgoal by (simp add: mark_step_def Let_def split: option.split prod.split)
subgoal by (simp add: book_step_def Let_def split: option.split market_event.split)
subgoal by (simp add: stamp_step_def boundary_step_def Let_def)
done

lemma eg_joker_cap: "rn_max_position eg_joker_state = 50"
proof -
  let ?D = "se_dec (re_sim eg_runner_env)"
  have D: "?D = exact_decimal" by (simp add: eg_runner_env_def eg_env_def)
  have fund: "funding_step D eg_joker_config ts s = s" for D ts and s :: "joker runner"
    by (simp add: funding_step_def eg_joker_config_def eg_runner_config_def Let_def)
  have tr: "rn_tracker eg_joker_begin = tracker_new eg_market"
    by (simp add: eg_joker_begin_def runner_start_def start_tracker_def eg_joker_config_def eg_runner_config_def Let_def)
  have cfg: "derived_cap eg_joker_config" "rc_max_position_pct eg_joker_config = 100"
      "rc_initial_balance eg_joker_config = 50"
    by (simp_all add: derived_cap_def compounding_def eg_joker_config_def eg_runner_config_def)
  have w: "running_balance exact_decimal eg_joker_config (tracker_new eg_market) = 50"
    by (simp add: running_balance_def cfg tracker_new_def)
  show ?thesis
    unfolding eg_joker_state_def prepare_step_def Let_def late_stages_cap fund wallet_step_def early_stages_tracker D tr w
    by (simp add: cfg)
qed


end
