(* ===== verification/Spec2Isabelle.thy ===== *)
theory Spec2Isabelle
  imports Prelude Decimals Core Pnl Strategy_Api Risk_Policy Liquidation Risk_Gate Sim_Runs Scalp_Runs Runner_Laws Runner_Runs Replay_Runs Wave_Runs Touch_Runs
begin

text \<open>
  A verification development of tikr, a market-making engine: strategies answer market events
  with quotes and cancels, a simulated venue fills them, a runner keeps the books, guards every
  batch and feeds the fills back, and a recorder and a replayer turn a live market into a stream
  of events and back.

  \<^bold>\<open>The program's parts and where they are modelled.\<close>

  \<^item> Vocabulary. \<open>Prelude\<close> has the machine integers (\<open>u64\<close> as \<open>64 word\<close> with the saturating
    operations of the Rust library), list lemmas and the two locales for state machines;
    \<open>Decimals\<close> the decimal arithmetic; \<open>Core\<close> the types of \<open>tikr-core\<close> and \<open>tikr-venue\<close>.
  \<^item> Accounting and risk. \<open>Pnl\<close> is \<open>PositionTracker\<close> (\<open>tikr-backtest/src/pnl.rs\<close>),
    \<open>Liquidation\<close> the cross-margin model (\<open>liquidation.rs\<close>), \<open>Risk_Gate\<close> the pre-trade gate
    (\<open>tikr-risk/src/gate.rs\<close>), \<open>Risk_Policy\<close> the take-profit and stop-loss policy
    (\<open>tikr-strategy/src/risk.rs\<close>).
  \<^item> The simulated venue, \<open>tikr-backtest/src/fill_sim.rs\<close>. \<open>Book_State\<close>: book aggregates;
    \<open>Fill_Sim\<close>: state, submission and gates; \<open>Sim_Events\<close>: delayed operations, queue decay,
    matching of trades and books. \<open>Sim_Laws\<close> (invariants under every call), \<open>Sim_Match\<close>
    (allocation of a trade), \<open>Sim_Time\<close> (no look-ahead, streams of the mirror), \<open>Sim_Place\<close>
    (post-only, buying power, replace) and \<open>Sim_Registry\<close> (caps, cancels, reconciliation) hold
    its lemmas, \<open>Sim_Runs\<close> its concrete runs.
  \<^item> Strategies, \<open>tikr-strategy/src\<close>. \<open>Strategy_Api\<close>: context, actions and shared helpers.
    \<open>Scalp_Quotes\<close>, \<open>Scalp_Adverse\<close> and \<open>Scalp\<close>: the spread scalper (\<open>spread_scalp/\<close>) with its
    laws in \<open>Scalp_Laws\<close> and runs in \<open>Scalp_Runs\<close>. \<open>Wave\<close>: the lattice strategy of \<open>wave.rs\<close>,
    with \<open>Wave_Laws\<close> (what it may send), \<open>Wave_Settles\<close> (it comes to rest), \<open>Wave_State\<close>
    (reachable states, sizing, the floor of the reducing side) and \<open>Wave_Runs\<close>.
    \<open>Touch_Strategies\<close>: \<open>top_of_book.rs\<close>, \<open>micro_price.rs\<close> and \<open>joker.rs\<close>, with \<open>Touch_Laws\<close> and
    \<open>Touch_Runs\<close>. \<open>Strategy_Contract\<close> is the locale \<open>bounded_quoter\<close>: what the runner needs of a
    strategy to keep its caps through a whole run.
  \<^item> The runner, \<open>tikr-paper/src\<close>. \<open>Bagger\<close> (\<open>bagger.rs\<close>) decides when to flatten;
    \<open>Runner_Guards\<close> has the guards of \<open>runner.rs\<close> (deduplication, liquidation window, size
    boost, inventory cap), \<open>Runner\<close> the event loop of a backtest in the order of \<open>run_inner\<close>.
    \<open>Runner_Laws\<close>, \<open>Bagger_Laws\<close>, \<open>Runner_Flow\<close>, \<open>Runner_Ledger\<close> and \<open>Runner_Order\<close> hold the
    lemmas, \<open>Runner_Runs\<close> the runs.
  \<^item> Market data. \<open>Recorder\<close> is \<open>tikr-record/src/main.rs\<close>, \<open>Parquet_Store\<close> the directory it
    writes and the readers of \<open>parquet_util.rs\<close>, \<open>Replay\<close> and \<open>Retrace\<close> are \<open>replay.rs\<close>,
    \<open>Mark_Series\<close> is \<open>mark.rs\<close>. \<open>Replay_Laws\<close>, \<open>Record_Replay\<close> and \<open>Roundtrip\<close> lead to the
    round trip in \<open>Record_Runs\<close>; \<open>Replay_Runs\<close> has further runs.

  \<^bold>\<open>How they interact.\<close> The runner takes a strategy as a record of functions over the strategy's own
  state and calls the venue through the calls of \<open>Sim_Laws\<close>; the locale \<open>engine_invariant\<close> lifts
  whatever those calls keep to the whole loop. Fills are applied to one ledger and to the
  strategy in the same order. The replayer's stream is the runner's input.

  \<^bold>\<open>Modelling decisions.\<close> A \<open>Decimal\<close> is a rational; its rounded operations are the fields of a
  \<open>decimal_ops\<close> record, the parameter \<open>D\<close> of almost every definition, and the locale
  \<open>decimal_arith\<close> states what the package documents (results within half a unit of the 28th
  digit, exactness of representable results, monotonicity). It is interpreted on \<open>rust_decimal\<close>,
  a definition of the package's rounding, and on \<open>exact_decimal\<close>, on which witnesses compute.
  Overflow of the 96-bit mantissa, a panic in the code, is outside the model. Finite \<open>f64\<close>
  values are rationals and the functions that round are parameters (\<open>float_ops\<close>). Integers that
  wrap or saturate are words; lattice and tick indices (\<open>i64\<close>) are unbounded. A hash map is a
  map or an association list where its order is observed, a B-tree map a sorted list. Fresh
  identifiers come from a source in the environment. Errors, early returns and panics are
  values of sum or option types. Files are tables of typed rows.

  \<^bold>\<open>Loops and bounds.\<close> Folds over lists are structural. The recovery of rejected orders has the code's
  own bound of five rounds, and one round is proved to be all that ever happens. The loops
  without a bound in the code (the skim of profits, the synthetic walk home of the replay, the
  lot loop of \<open>Wave\<close>) are \<open>option\<close> valued, and they are proved to return. The replay is a total
  function of the loaded events, by a measure on what is left.

  \<^bold>\<open>What the lemmas show.\<close> Matching refines price-time allocation and conserves volume; nothing sent
  in reaction to an event can change that event; equity is conserved by accounting, every fill
  is booked once; caps, gates and cooldowns hold where the code checks them; strategies keep
  their orders on their own side of the book and come to rest; recording and replaying compose
  to the identity. The theorems on concrete runs in the \<open>_Runs\<close> theories also show where the code
  departs from its comments.

  \<^bold>\<open>Not modelled.\<close> The venue connectors (\<open>tikr-binance\<close>, \<open>tikr-bybit\<close>, \<open>tikr-hyperliquid\<close>,
  \<open>tikr-mexc\<close>), the desktop application under \<open>apps/\<close> and the \<open>compare\<close> binary are network,
  terminal and process code around the parts above. The live mode of the runner dispatches to
  those connectors. The remaining strategies are independent of one another and of the parts
  modelled here; each is listed in the manifest. Logging, serialisation, alerts and metrics have no effect on the state.
\<close>

end
